(* ===== verification/Prelude.thy ===== *)
theory Prelude
  imports Main "HOL-Library.Word"
begin

unbundle bit_operations_syntax

text \<open>
  Shared vocabulary of the development.

  \<^item> Errors: an \<^verbatim>\<open>ereport(ERROR, ...)\<close> or \<^verbatim>\<open>elog(ERROR, ...)\<close> of the backend leaves the
    function that raises it, so a routine that can raise one returns \<open>pg_error + 'a\<close>
    (type \<open>'a pg_result\<close>), and \<open>rbind\<close> sequences two such routines.
  \<^item> Bits: facts about \<open>64 word\<close> values that the bitmap-set and privilege-mask
    components use, collected in \<open>word_bits\<close>.
  \<^item> Lists: facts on updating, searching and trimming word arrays.
\<close>

named_theorems word_bits \<open>bitwise facts on machine words\<close>
named_theorems result_iff \<open>when a fallible computation returns a value\<close>

section \<open>Errors as values\<close>

text \<open>The error code (\<^verbatim>\<open>ERRCODE_...\<close>; \<^verbatim>\<open>elog\<close> uses the internal-error code) and the message.\<close>

datatype pg_error = PgError (sqlerrcode: string) (errmsg: string)

type_synonym 'a pg_result = "pg_error + 'a"

abbreviation elog_error :: "string \<Rightarrow> 'a pg_result" where
  "elog_error msg \<equiv> Inl (PgError ''ERRCODE_INTERNAL_ERROR'' msg)"

abbreviation ereport_error :: "string \<Rightarrow> string \<Rightarrow> 'a pg_result" where
  "ereport_error code msg \<equiv> Inl (PgError code msg)"

text \<open>
  A step that the C standard leaves undefined is an error value with a code of its own, so that
  theorems can rule it out.
\<close>

abbreviation c_undefined :: "string \<Rightarrow> 'a pg_result" where
  "c_undefined what \<equiv> Inl (PgError ''undefined behaviour'' what)"

text \<open>The value of a signed 32-bit computation.\<close>

definition INT_MAX :: int where
  "INT_MAX = 2147483647"

definition c_int :: "int \<Rightarrow> int pg_result" where
  "c_int i = (if - INT_MAX - 1 \<le> i \<and> i \<le> INT_MAX then Inr i else c_undefined ''signed integer overflow'')"

definition rbind :: "'e + 'a \<Rightarrow> ('a \<Rightarrow> 'e + 'b) \<Rightarrow> 'e + 'b" where
  "rbind m f = (case m of Inl e \<Rightarrow> Inl e | Inr x \<Rightarrow> f x)"

lemma rbind_simps [simp]:
  "rbind (Inl e) f = Inl e"
  "rbind (Inr x) f = f x"
  by (simp_all add: rbind_def)

lemma rbind_Inr_iff [result_iff]:
  "rbind m f = Inr y \<longleftrightarrow> (\<exists>x. m = Inr x \<and> f x = Inr y)"
  by (cases m) auto

lemma rbind_Inl_iff [result_iff]:
  "rbind m f = Inl e \<longleftrightarrow> m = Inl e \<or> (\<exists>x. m = Inr x \<and> f x = Inl e)"
  by (cases m) auto

lemma rbind_assoc: "rbind (rbind m f) g = rbind m (\<lambda>x. rbind (f x) g)"
  by (cases m) auto

lemma rbind_cong [fundef_cong]:
  "m = m' \<Longrightarrow> (\<And>x. m' = Inr x \<Longrightarrow> f x = f' x) \<Longrightarrow> rbind m f = rbind m' f'"
  by (cases m') auto

text \<open>
  A loop or recursion with a step budget returns \<open>None\<close> when the budget is used up; \<open>fbind\<close>
  sequences such computations, passing on both exhaustion and errors.
\<close>

type_synonym 'a fueled = "'a pg_result option"

definition fbind :: "'a fueled \<Rightarrow> ('a \<Rightarrow> 'b fueled) \<Rightarrow> 'b fueled" where
  "fbind m f = (case m of None \<Rightarrow> None | Some (Inl e) \<Rightarrow> Some (Inl e) | Some (Inr x) \<Rightarrow> f x)"

lemma fbind_simps [simp]:
  "fbind None f = None"
  "fbind (Some (Inl e)) f = Some (Inl e)"
  "fbind (Some (Inr x)) f = f x"
  by (simp_all add: fbind_def)

lemma fbind_Some_Inr_iff [result_iff]:
  "fbind m f = Some (Inr y) \<longleftrightarrow> (\<exists>x. m = Some (Inr x) \<and> f x = Some (Inr y))"
  by (auto simp: fbind_def split: option.splits sum.splits)

lemma fbind_returns:
  assumes "\<exists>r. m = Some r" and "\<And>x. m = Some (Inr x) \<Longrightarrow> \<exists>r. f x = Some r"
  shows "\<exists>r. fbind m f = Some r"
  using assms by (auto simp: fbind_def split: sum.split)

lemma fbind_cong [fundef_cong]:
  "m = m' \<Longrightarrow> (\<And>x. m' = Some (Inr x) \<Longrightarrow> f x = f' x) \<Longrightarrow> fbind m f = fbind m' f'"
  by (auto simp: fbind_def split: option.split sum.split)

text \<open>The run ends, and a result that is not an error satisfies \<open>Q\<close>.\<close>

definition returns :: "('a \<Rightarrow> bool) \<Rightarrow> 'a fueled \<Rightarrow> bool" where
  "returns Q r \<longleftrightarrow> (\<exists>x. r = Some x \<and> (\<forall>y. x = Inr y \<longrightarrow> Q y))"

lemma returns_simps [simp]:
  "returns Q (Some (Inr y)) \<longleftrightarrow> Q y" "returns Q (Some (Inl e))" "\<not> returns Q None"
  by (simp_all add: returns_def)

lemma returns_fbind:
  "returns R m \<Longrightarrow> (\<And>y. m = Some (Inr y) \<Longrightarrow> R y \<Longrightarrow> returns Q (f y)) \<Longrightarrow> returns Q (fbind m f)"
  by (auto simp: returns_def fbind_def split: option.split sum.split)

lemma returns_step: "(\<And>y. x = Inr y \<Longrightarrow> returns Q (f y)) \<Longrightarrow> returns Q (fbind (Some x) f)"
  by (auto simp: fbind_def split: sum.split)

lemma returns_mono: "returns Q r \<Longrightarrow> (\<And>y. r = Some (Inr y) \<Longrightarrow> Q y \<Longrightarrow> R y) \<Longrightarrow> returns R r"
  by (auto simp: returns_def)

lemma returnsD: "returns Q r \<Longrightarrow> r = Some (Inr y) \<Longrightarrow> Q y"
  by (simp add: returns_def)

section \<open>Machine words\<close>

type_synonym word64 = "64 word"
type_synonym word32 = "32 word"
type_synonym word16 = "16 word"
type_synonym byte = "8 word"

lemma word_neq_0_iff_bit [word_bits]:
  fixes w :: "'a::len word"
  shows "w \<noteq> 0 \<longleftrightarrow> (\<exists>n. bit w n)"
  by (auto simp: bit_eq_iff dest: bit_imp_le_length)

lemma word_eq_0_iff_bit:
  fixes w :: "'a::len word"
  shows "w = 0 \<longleftrightarrow> (\<forall>n. \<not> bit w n)"
  by (auto simp: bit_eq_iff dest: bit_imp_le_length)

lemma bit64_less: "bit (w :: word64) n \<Longrightarrow> n < 64"
  using bit_imp_le_length [of w n] by simp

lemma bit_one_shift [word_bits]:
  "bit (push_bit k (1 :: word64)) n \<longleftrightarrow> n = k \<and> k < 64"
  by (auto simp: bit_simps)

lemma word_subset_iff [word_bits]:
  fixes a b :: "'a::len word"
  shows "a AND NOT b = 0 \<longleftrightarrow> (\<forall>n. bit a n \<longrightarrow> bit b n)"
  by (auto simp: word_eq_0_iff_bit bit_simps dest: bit_imp_le_length)

lemma word_disjoint_iff [word_bits]:
  fixes a b :: "'a::len word"
  shows "a AND b = 0 \<longleftrightarrow> (\<forall>n. \<not> (bit a n \<and> bit b n))"
  by (auto simp: word_eq_0_iff_bit bit_simps)

lemma word_and_eq_left_iff:
  fixes a b :: "'a::len word"
  shows "a AND b = a \<longleftrightarrow> (\<forall>n. bit a n \<longrightarrow> bit b n)"
  by (auto simp: bit_eq_iff bit_simps dest: bit_imp_le_length)

section \<open>Lists\<close>

text \<open>The first index at which a list satisfies a predicate.\<close>

fun find_index :: "('a \<Rightarrow> bool) \<Rightarrow> 'a list \<Rightarrow> nat option" where
  "find_index P [] = None"
| "find_index P (x # xs) = (if P x then Some 0 else map_option Suc (find_index P xs))"

lemma find_index_None_iff: "find_index P xs = None \<longleftrightarrow> (\<forall>x\<in>set xs. \<not> P x)"
  by (induction xs) auto

lemma find_index_Some:
  "find_index P xs = Some i \<Longrightarrow> i < length xs \<and> P (xs ! i) \<and> (\<forall>j<i. \<not> P (xs ! j))"
proof (induction xs arbitrary: i)
  case Nil
  then show ?case by simp
next
  case (Cons x xs)
  then show ?case by (cases i) (auto split: if_splits simp: less_Suc_eq_0_disj)
qed

text \<open>A loop over a list whose body may leave the enclosing routine.\<close>

fun scan_list :: "('a \<Rightarrow> 'r option) \<Rightarrow> 'r \<Rightarrow> 'a list \<Rightarrow> 'r" where
  "scan_list body fin [] = fin"
| "scan_list body fin (x # xs) =
     (case body x of Some r \<Rightarrow> r | None \<Rightarrow> scan_list body fin xs)"

lemma scan_list_fin: "\<forall>x \<in> set xs. body x = None \<Longrightarrow> scan_list body fin xs = fin"
  by (induction xs) auto

lemma scan_list_exit:
  "(\<exists>x \<in> set xs. body x \<noteq> None) \<Longrightarrow> \<exists>x \<in> set xs. body x = Some (scan_list body fin xs)"
  by (induction xs) (auto split: option.splits)

lemma scan_list_all:
  "scan_list (\<lambda>x. if P x then None else Some False) True xs \<longleftrightarrow> (\<forall>x \<in> set xs. P x)"
  by (induction xs) auto

lemma scan_list_any:
  "scan_list (\<lambda>x. if P x then Some True else None) False xs \<longleftrightarrow> (\<exists>x \<in> set xs. P x)"
  by (induction xs) auto

end
