(* ===== verification/Stringinfo.thy ===== *)
theory Stringinfo
  imports Prelude
begin

text \<open>
  Extensible string buffers: \<^verbatim>\<open>src/postgres/src/common/stringinfo.c\<close> and
  \<^verbatim>\<open>src/postgres/src/include/lib/stringinfo.h\<close>, with \<^verbatim>\<open>pvsnprintf\<close> of \<^verbatim>\<open>src/postgres/src/common/psprintf.c\<close>.

  A buffer is its memory, its size and the C integers that describe it. Writes are checked against the
  size and integer operations against the range of \<^verbatim>\<open>int\<close>: a violation is an undefined-behaviour value,
  which the lemmas show never to occur on well-formed buffers. Freshly allocated memory holds the
  bytes of a parameter \<open>junk\<close>, about which nothing is assumed. Formatted output takes the text that
  \<^verbatim>\<open>vsnprintf\<close> produces for the format and its arguments. The lemmas show that every append adds
  exactly its bytes to the contents or reports that the size limit is exceeded.
\<close>

section \<open>Buffers\<close>

abbreviation oom :: "'a pg_result" where
  "oom \<equiv> ereport_error ''ERRCODE_PROGRAM_LIMIT_EXCEEDED'' ''out of memory''"

record StringInfoData =
  data :: "nat \<Rightarrow> byte"
  len :: int
  maxlen :: int
  cursor :: int

definition MaxAllocSize :: int where
  "MaxAllocSize = 0x3fffffff"

text \<open>\<^verbatim>\<open>palloc\<close> and \<^verbatim>\<open>repalloc\<close> of the buffer, a store of bytes at an offset, and a load.\<close>

definition repalloc_data :: "(nat \<Rightarrow> byte) \<Rightarrow> StringInfoData \<Rightarrow> int \<Rightarrow> StringInfoData" where
  "repalloc_data junk str newsize =
     str\<lparr>data := (\<lambda>i. if int i < maxlen str then data str i else junk i), maxlen := newsize\<rparr>"

definition store :: "StringInfoData \<Rightarrow> int \<Rightarrow> byte list \<Rightarrow> StringInfoData pg_result" where
  "store str off bs =
     (if off < 0 \<or> off + int (length bs) > maxlen str then c_undefined ''write outside the buffer''
      else Inr (str\<lparr>data := (\<lambda>i. if off \<le> int i \<and> int i < off + int (length bs)
                               then bs ! (i - nat off) else data str i)\<rparr>))"

definition bytes_at :: "StringInfoData \<Rightarrow> int \<Rightarrow> nat \<Rightarrow> byte list" where
  "bytes_at str off n = map (\<lambda>i. data str (nat off + i)) [0..<n]"

definition resetStringInfo :: "StringInfoData \<Rightarrow> StringInfoData pg_result" where
  "resetStringInfo str = rbind (store str 0 [0]) (\<lambda>str. Inr (str\<lparr>len := 0, cursor := 0\<rparr>))"

definition initStringInfo :: "(nat \<Rightarrow> byte) \<Rightarrow> StringInfoData pg_result" where
  "initStringInfo junk = resetStringInfo \<lparr>data = junk, len = 0, maxlen = 1024, cursor = 0\<rparr>"

definition makeStringInfo :: "(nat \<Rightarrow> byte) \<Rightarrow> StringInfoData pg_result" where
  "makeStringInfo junk = initStringInfo junk"

text \<open>The doubling loop of \<^verbatim>\<open>enlargeStringInfo\<close>; \<open>None\<close> when it does not end.\<close>

partial_function (option) double_newlen :: "int \<Rightarrow> int \<Rightarrow> int fueled" where
  "double_newlen needed newlen =
     (if needed > newlen then
        (case c_int (2 * newlen) of Inl e \<Rightarrow> Some (Inl e) | Inr n \<Rightarrow> double_newlen needed n)
      else Some (Inr newlen))"

declare double_newlen.simps [code]

definition enlargeStringInfo :: "(nat \<Rightarrow> byte) \<Rightarrow> StringInfoData \<Rightarrow> int \<Rightarrow> StringInfoData fueled" where
  "enlargeStringInfo junk str needed =
     (if needed < 0 then Some (elog_error ''invalid string enlargement request size'')
      else if needed \<ge> (MaxAllocSize - len str) mod 2 ^ 64
      then Some (ereport_error ''ERRCODE_PROGRAM_LIMIT_EXCEEDED'' ''out of memory'')
      else fbind (Some (c_int (needed + (len str + 1)))) (\<lambda>needed.
        if needed \<le> maxlen str then Some (Inr str)
        else fbind (Some (c_int (2 * maxlen str))) (\<lambda>newlen.
             fbind (double_newlen needed newlen) (\<lambda>newlen.
               let newlen = (if newlen > MaxAllocSize then MaxAllocSize else newlen)
               in Some (Inr (repalloc_data junk str newlen))))))"

section \<open>Appending\<close>

definition appendBinaryStringInfoNT ::
  "(nat \<Rightarrow> byte) \<Rightarrow> StringInfoData \<Rightarrow> byte list \<Rightarrow> StringInfoData fueled" where
  "appendBinaryStringInfoNT junk str bs =
     fbind (enlargeStringInfo junk str (int (length bs))) (\<lambda>str.
     fbind (Some (store str (len str) bs)) (\<lambda>str.
       Some (Inr (str\<lparr>len := len str + int (length bs)\<rparr>))))"

definition appendBinaryStringInfo ::
  "(nat \<Rightarrow> byte) \<Rightarrow> StringInfoData \<Rightarrow> byte list \<Rightarrow> StringInfoData fueled" where
  "appendBinaryStringInfo junk str bs =
     fbind (enlargeStringInfo junk str (int (length bs))) (\<lambda>str.
     fbind (Some (store str (len str) bs)) (\<lambda>str.
       let str = str\<lparr>len := len str + int (length bs)\<rparr>
       in Some (store str (len str) [0])))"

text \<open>The length of a null-terminated string in memory: the bytes before its first null byte.\<close>

definition c_strlen :: "byte list \<Rightarrow> nat" where
  "c_strlen s = length (takeWhile (\<lambda>b. b \<noteq> 0) s)"

definition appendStringInfoString ::
  "(nat \<Rightarrow> byte) \<Rightarrow> StringInfoData \<Rightarrow> byte list \<Rightarrow> StringInfoData fueled" where
  "appendStringInfoString junk str s = appendBinaryStringInfo junk str (take (c_strlen s) s)"

definition appendStringInfoChar ::
  "(nat \<Rightarrow> byte) \<Rightarrow> StringInfoData \<Rightarrow> byte \<Rightarrow> StringInfoData fueled" where
  "appendStringInfoChar junk str ch =
     fbind (if len str + 1 \<ge> maxlen str then enlargeStringInfo junk str 1 else Some (Inr str)) (\<lambda>str.
     fbind (Some (store str (len str) [ch])) (\<lambda>str.
       let str = str\<lparr>len := len str + 1\<rparr>
       in Some (store str (len str) [0])))"

definition appendStringInfoCharMacro ::
  "(nat \<Rightarrow> byte) \<Rightarrow> StringInfoData \<Rightarrow> byte \<Rightarrow> StringInfoData fueled" where
  "appendStringInfoCharMacro junk str ch =
     (if len str + 1 \<ge> maxlen str then appendStringInfoChar junk str ch
      else fbind (Some (store str (len str) [ch])) (\<lambda>str.
             let str = str\<lparr>len := len str + 1\<rparr>
             in Some (store str (len str) [0])))"

definition appendStringInfoSpaces ::
  "(nat \<Rightarrow> byte) \<Rightarrow> StringInfoData \<Rightarrow> int \<Rightarrow> StringInfoData fueled" where
  "appendStringInfoSpaces junk str count =
     (if count > 0 then
        fbind (enlargeStringInfo junk str count) (\<lambda>str.
        fbind (Some (store str (len str) (replicate (nat count) 32))) (\<lambda>str.
          let str = str\<lparr>len := len str + count\<rparr>
          in Some (store str (len str) [0])))
      else Some (Inr str))"

section \<open>Formatted output\<close>

text \<open>
  \<^verbatim>\<open>pvsnprintf\<close> into the \<open>avail\<close> bytes at the end of the contents, for a format that expands to the text
  \<open>txt\<close>: as much of it as fits, with a null byte after it, and the estimate of the space. A text whose
  length is no \<^verbatim>\<open>int\<close> makes \<^verbatim>\<open>vsnprintf\<close> fail.
\<close>

definition pvsnprintf :: "StringInfoData \<Rightarrow> int \<Rightarrow> byte list \<Rightarrow> (StringInfoData \<times> int) pg_result" where
  "pvsnprintf str avail txt =
     rbind (store str (len str) (take (nat avail - 1) txt @ [0])) (\<lambda>str.
       let nprinted = int (length txt)
       in if nprinted > INT_MAX then elog_error ''vsnprintf failed''
          else if nprinted < avail then Inr (str, nprinted)
          else if nprinted > MaxAllocSize - 1
          then ereport_error ''ERRCODE_PROGRAM_LIMIT_EXCEEDED'' ''out of memory''
          else Inr (str, nprinted + 1))"

definition appendStringInfoVA :: "StringInfoData \<Rightarrow> byte list \<Rightarrow> (StringInfoData \<times> int) pg_result" where
  "appendStringInfoVA str txt =
     (let avail = maxlen str - len str
      in if avail < 16 then Inr (str, 32)
         else rbind (pvsnprintf str avail txt) (\<lambda>(str, nprinted).
                if nprinted < avail then Inr (str\<lparr>len := len str + nprinted\<rparr>, 0)
                else rbind (store str (len str) [0]) (\<lambda>str. Inr (str, nprinted))))"

text \<open>The retry loop; \<open>None\<close> when it does not end.\<close>

partial_function (option) appendStringInfo ::
  "(nat \<Rightarrow> byte) \<Rightarrow> StringInfoData \<Rightarrow> byte list \<Rightarrow> StringInfoData fueled" where
  "appendStringInfo junk str txt =
     (case appendStringInfoVA str txt of
        Inl e \<Rightarrow> Some (Inl e)
      | Inr (str, needed) \<Rightarrow>
          if needed = 0 then Some (Inr str)
          else (case enlargeStringInfo junk str needed of
                  None \<Rightarrow> None
                | Some (Inl e) \<Rightarrow> Some (Inl e)
                | Some (Inr str) \<Rightarrow> appendStringInfo junk str txt))"

declare appendStringInfo.simps [code]

section \<open>Well-formed buffers\<close>

definition si_ok :: "StringInfoData \<Rightarrow> bool" where
  "si_ok str \<longleftrightarrow> 0 \<le> len str \<and> len str < maxlen str \<and> maxlen str \<le> MaxAllocSize"

definition contents :: "StringInfoData \<Rightarrow> byte list" where
  "contents str = bytes_at str 0 (nat (len str))"

definition terminated :: "StringInfoData \<Rightarrow> bool" where
  "terminated str \<longleftrightarrow> data str (nat (len str)) = 0"

text \<open>
  \<open>appends bs str r\<close>: the computation \<open>r\<close> reports that \<open>bs\<close> does not fit below the size limit, or
  gives a well-formed buffer with \<open>bs\<close> after the old contents and the same cursor.
\<close>

definition appends :: "byte list \<Rightarrow> StringInfoData \<Rightarrow> StringInfoData fueled \<Rightarrow> bool" where
  "appends bs str r \<longleftrightarrow>
     (if len str + int (length bs) < MaxAllocSize
      then \<exists>str'. r = Some (Inr str') \<and> si_ok str' \<and> contents str' = contents str @ bs \<and> cursor str' = cursor str
      else r = Some (ereport_error ''ERRCODE_PROGRAM_LIMIT_EXCEEDED'' ''out of memory''))"

definition example_buffer :: StringInfoData where
  "example_buffer = \<lparr>data = (\<lambda>_. 0), len = 0, maxlen = 4, cursor = 0\<rparr>"

section \<open>Growing\<close>

lemmas size_defs = MaxAllocSize_def INT_MAX_def c_int_def

lemma double_newlen_returns:
  "0 < newlen \<Longrightarrow> newlen \<le> 2 * MaxAllocSize \<Longrightarrow> needed \<le> MaxAllocSize \<Longrightarrow>
     \<exists>n. double_newlen needed newlen = Some (Inr n) \<and> needed \<le> n \<and> newlen \<le> n"
proof (induction "nat (needed - newlen)" arbitrary: newlen rule: less_induct)
  case less
  show ?case
  proof (cases "needed > newlen")
    case True
    with less.prems have "nat (needed - 2 * newlen) < nat (needed - newlen)" "2 * newlen \<le> 2 * MaxAllocSize"
      by linarith+
    from less.hyps [OF this(1) _ this(2) less.prems(3)] less.prems obtain n where
      "double_newlen needed (2 * newlen) = Some (Inr n)" "needed \<le> n" "2 * newlen \<le> n" by auto
    with True less.prems show ?thesis by (subst double_newlen.simps) (auto simp: size_defs)
  next
    case False
    then show ?thesis by (subst double_newlen.simps) simp
  qed
qed

lemma enlarge_fits:
  assumes "si_ok str" and "0 \<le> needed" and "len str + needed < MaxAllocSize"
  obtains str' where "enlargeStringInfo junk str needed = Some (Inr str')" "si_ok str'"
    "len str' = len str" "cursor str' = cursor str" "len str + needed < maxlen str'" "maxlen str \<le> maxlen str'"
    "\<And>i. int i < maxlen str \<Longrightarrow> data str' i = data str i"
proof -
  note ok = assms [unfolded si_ok_def]
  have mod: "(MaxAllocSize - len str) mod 2 ^ 64 = MaxAllocSize - len str"
    using ok by (intro mod_pos_pos_trivial) (auto simp: size_defs)
  have c: "c_int (needed + (len str + 1)) = Inr (needed + (len str + 1))" "c_int (2 * maxlen str) = Inr (2 * maxlen str)"
    using ok by (auto simp: size_defs)
  note run = enlargeStringInfo_def [of junk str needed, unfolded mod c]
  show thesis
  proof (cases "needed + (len str + 1) \<le> maxlen str")
    case True
    then have "enlargeStringInfo junk str needed = Some (Inr str)" using run ok by auto
    then show thesis by (rule that) (use True assms in auto)
  next
    case False
    obtain n where n: "double_newlen (needed + (len str + 1)) (2 * maxlen str) = Some (Inr n)"
        "needed + (len str + 1) \<le> n" "2 * maxlen str \<le> n"
      using double_newlen_returns [of "2 * maxlen str" "needed + (len str + 1)"] ok by auto
    let ?m = "if n > MaxAllocSize then MaxAllocSize else n"
    have "enlargeStringInfo junk str needed = Some (Inr (repalloc_data junk str ?m))"
      using run ok False n(1) by (simp add: Let_def)
    then show thesis
      by (rule that) (use n ok in \<open>auto simp: repalloc_data_def si_ok_def\<close>)
  qed
qed

lemma enlarge_oom:
  assumes "si_ok str" and "0 \<le> needed" and "\<not> len str + needed < MaxAllocSize"
  shows "enlargeStringInfo junk str needed = Some (ereport_error ''ERRCODE_PROGRAM_LIMIT_EXCEEDED'' ''out of memory'')"
proof -
  have "(MaxAllocSize - len str) mod 2 ^ 64 = MaxAllocSize - len str"
    using assms(1) by (intro mod_pos_pos_trivial) (auto simp: si_ok_def size_defs)
  then show ?thesis using assms by (simp add: enlargeStringInfo_def)
qed

section \<open>Contents\<close>

lemma length_bytes_at [simp]: "length (bytes_at str off n) = n"
  by (simp add: bytes_at_def)

lemma length_contents: "si_ok str \<Longrightarrow> int (length (contents str)) = len str"
  by (simp add: contents_def si_ok_def)

lemma nth_contents: "i < nat (len str) \<Longrightarrow> contents str ! i = data str i"
  by (simp add: contents_def bytes_at_def)

lemma contents_eqI:
  assumes "nat (len str') = length bs" and "\<And>i. i < length bs \<Longrightarrow> data str' i = bs ! i"
  shows "contents str' = bs"
  using assms by (intro nth_equalityI) (auto simp: contents_def bytes_at_def)

lemma store_append:
  assumes "si_ok str" and "si_ok str'" and "len str' = len str" and "len str + int (length bs) < maxlen str'"
    and "\<And>i. int i < maxlen str \<Longrightarrow> data str' i = data str i"
  obtains s where "store str' (len str') bs = Inr s" "si_ok (s\<lparr>len := len s + int (length bs)\<rparr>)"
    "contents (s\<lparr>len := len s + int (length bs)\<rparr>) = contents str @ bs" "cursor s = cursor str'"
    "len s = len str" "maxlen s = maxlen str'"
proof -
  note ok = assms(1,2) [unfolded si_ok_def]
  let ?s = "str'\<lparr>data := (\<lambda>i. if len str \<le> int i \<and> int i < len str + int (length bs)
                            then bs ! (i - nat (len str)) else data str' i)\<rparr>"
  have run: "store str' (len str') bs = Inr ?s" using assms(3,4) ok by (simp add: store_def)
  have cont: "contents (?s\<lparr>len := len ?s + int (length bs)\<rparr>) = contents str @ bs"
  proof (rule contents_eqI)
    show "nat (len (?s\<lparr>len := len ?s + int (length bs)\<rparr>)) = length (contents str @ bs)"
      using ok assms(3) by (simp add: contents_def nat_add_distrib)
    fix i assume "i < length (contents str @ bs)"
    then show "data (?s\<lparr>len := len ?s + int (length bs)\<rparr>) i = (contents str @ bs) ! i"
      using ok assms(5) [of i] by (auto simp: nth_append nth_contents contents_def) (auto simp: bytes_at_def)
  qed
  show thesis
    by (rule that [OF run _ cont]) (use assms ok in \<open>auto simp: si_ok_def\<close>)
qed

lemma store_terminator:
  assumes "si_ok str"
  obtains s where "store str (len str) [0] = Inr s" "si_ok s" "contents s = contents str" "terminated s"
    "cursor s = cursor str" "len s = len str" "maxlen s = maxlen str"
proof -
  let ?s = "str\<lparr>data := (\<lambda>i. if len str \<le> int i \<and> int i < len str + int (length [0 :: byte])
                           then [0] ! (i - nat (len str)) else data str i)\<rparr>"
  have run: "store str (len str) [0] = Inr ?s" using assms by (simp add: store_def si_ok_def)
  have cont: "contents ?s = contents str"
    by (auto simp: contents_def bytes_at_def)
  show thesis
    by (rule that [OF run _ cont]) (use assms in \<open>auto simp: si_ok_def terminated_def\<close>)
qed

text \<open>Enlarging, storing the bytes, advancing the length, and storing the terminator.\<close>

lemma append_steps:
  assumes ok: "si_ok str" and fits: "len str + int (length bs) < MaxAllocSize"
    and grow: "grow = enlargeStringInfo junk str (int (length bs)) \<or>
      grow = Some (Inr str) \<and> len str + int (length bs) < maxlen str"
  shows "\<exists>s. fbind grow (\<lambda>str. fbind (Some (store str (len str) bs)) (\<lambda>str.
        let str = str\<lparr>len := len str + int (length bs)\<rparr> in Some (store str (len str) [0]))) = Some (Inr s) \<and>
      si_ok s \<and> contents s = contents str @ bs \<and> cursor s = cursor str \<and> terminated s"
    and "\<exists>s. fbind grow (\<lambda>str. fbind (Some (store str (len str) bs)) (\<lambda>str.
        Some (Inr (str\<lparr>len := len str + int (length bs)\<rparr>)))) = Some (Inr s) \<and>
      si_ok s \<and> contents s = contents str @ bs \<and> cursor s = cursor str"
proof -
  obtain str' where e: "grow = Some (Inr str')" "si_ok str'" "len str' = len str" "cursor str' = cursor str"
      "len str + int (length bs) < maxlen str'" "\<And>i. int i < maxlen str \<Longrightarrow> data str' i = data str i"
    using grow ok enlarge_fits [OF ok _ fits] by (metis of_nat_0_le_iff)
  obtain s where s: "store str' (len str') bs = Inr s" "si_ok (s\<lparr>len := len s + int (length bs)\<rparr>)"
      "contents (s\<lparr>len := len s + int (length bs)\<rparr>) = contents str @ bs" "cursor s = cursor str'"
    using store_append [OF ok e(2,3,5,6)] by blast
  let ?s = "s\<lparr>len := len s + int (length bs)\<rparr>"
  obtain t where "store ?s (len ?s) [0] = Inr t" "si_ok t" "contents t = contents ?s" "terminated t"
      "cursor t = cursor ?s"
    using store_terminator [OF s(2)] by blast
  with e s show "\<exists>s. fbind grow (\<lambda>str. fbind (Some (store str (len str) bs)) (\<lambda>str.
        let str = str\<lparr>len := len str + int (length bs)\<rparr> in Some (store str (len str) [0]))) = Some (Inr s) \<and>
      si_ok s \<and> contents s = contents str @ bs \<and> cursor s = cursor str \<and> terminated s"
    by (simp add: Let_def)
  from e s show "\<exists>s. fbind grow (\<lambda>str. fbind (Some (store str (len str) bs)) (\<lambda>str.
        Some (Inr (str\<lparr>len := len str + int (length bs)\<rparr>)))) = Some (Inr s) \<and>
      si_ok s \<and> contents s = contents str @ bs \<and> cursor s = cursor str"
    by simp
qed

lemma append_binary:
  assumes "si_ok str"
  shows "appends bs str (appendBinaryStringInfo junk str bs)"
    and "appends bs str (appendBinaryStringInfoNT junk str bs)"
proof -
  note oom = enlarge_oom [OF assms, of "int (length bs)" junk] and steps = append_steps [OF assms _ disjI1 [OF refl]]
  show "appends bs str (appendBinaryStringInfo junk str bs)"
    using oom steps(1) unfolding appends_def appendBinaryStringInfo_def by (simp split: if_split) blast
  show "appends bs str (appendBinaryStringInfoNT junk str bs)"
    using oom steps(2) unfolding appends_def appendBinaryStringInfoNT_def by (simp split: if_split)
qed

lemma append_char:
  assumes ok: "si_ok str"
  shows "appends [ch] str (appendStringInfoChar junk str ch)"
    and "appends [ch] str (appendStringInfoCharMacro junk str ch)"
proof -
  let ?tail = "\<lambda>str. fbind (Some (store str (len str) [ch])) (\<lambda>str.
    let str = str\<lparr>len := len str + 1\<rparr> in Some (store str (len str) [0]))"
  have steps: "\<exists>s. fbind grow ?tail = Some (Inr s) \<and> si_ok s \<and> contents s = contents str @ [ch] \<and> cursor s = cursor str"
    if "len str + 1 < MaxAllocSize"
      "grow = enlargeStringInfo junk str 1 \<or> grow = Some (Inr str) \<and> len str + 1 < maxlen str" for grow
    using append_steps(1) [OF ok, of "[ch]" grow junk] that by simp blast
  have oom: "\<not> len str + 1 < MaxAllocSize \<Longrightarrow> len str + 1 \<ge> maxlen str" using ok by (simp add: si_ok_def)
  show char: "appends [ch] str (appendStringInfoChar junk str ch)"
    using steps [of "if len str + 1 \<ge> maxlen str then enlargeStringInfo junk str 1 else Some (Inr str)"]
      enlarge_oom [OF ok, of 1 junk] oom
    unfolding appends_def appendStringInfoChar_def by (auto split: if_splits)
  show "appends [ch] str (appendStringInfoCharMacro junk str ch)"
    using char steps [of "Some (Inr str)"] oom
    unfolding appends_def appendStringInfoCharMacro_def by (auto split: if_splits)
qed

lemma append_spaces:
  assumes ok: "si_ok str"
  shows "appends (replicate (nat count) 32) str (appendStringInfoSpaces junk str count)"
proof (cases "count > 0")
  case True
  then have n: "int (length (replicate (nat count) (32 :: byte))) = count" by simp
  note steps = append_steps(1) [OF ok _ disjI1 [OF refl], of "replicate (nat count) 32" junk, unfolded n]
  show ?thesis
    using True steps enlarge_oom [OF ok, of count junk]
    unfolding appends_def appendStringInfoSpaces_def n by (simp split: if_split) blast
next
  case False
  then show ?thesis using ok by (simp add: appends_def appendStringInfoSpaces_def si_ok_def)
qed

section \<open>The append contract\<close>

text \<open>
  An operation that appends the encoding of its argument. A sequence of such operations appends the
  encodings one after the other, or reports that they do not fit.
\<close>

locale appender =
  fixes app :: "(nat \<Rightarrow> byte) \<Rightarrow> StringInfoData \<Rightarrow> 'a \<Rightarrow> StringInfoData fueled"
    and enc :: "'a \<Rightarrow> byte list"
  assumes app_appends: "si_ok str \<Longrightarrow> appends (enc x) str (app junk str x)"
begin

lemma app_fits:
  assumes "si_ok str" and "len str + int (length (enc x)) < MaxAllocSize"
  obtains s where "app junk str x = Some (Inr s)" "si_ok s" "contents s = contents str @ enc x"
    "cursor s = cursor str" "len s = len str + int (length (enc x))"
proof -
  obtain s where s: "app junk str x = Some (Inr s)" "si_ok s" "contents s = contents str @ enc x"
      "cursor s = cursor str"
    using app_appends [OF assms(1), of x junk] assms(2) by (auto simp: appends_def)
  moreover have "len s = len str + int (length (enc x))"
    using s(3) length_contents [OF s(2)] length_contents [OF assms(1)] by simp
  ultimately show thesis by (rule that)
qed

lemma fold_appends:
  "si_ok str \<Longrightarrow>
     appends (concat (map enc xs)) str (foldl (\<lambda>r x. fbind r (\<lambda>str. app junk str x)) (Some (Inr str)) xs)"
proof (induction xs arbitrary: str)
  case Nil
  then show ?case by (simp add: appends_def si_ok_def)
next
  case (Cons x xs)
  have err: "foldl (\<lambda>r x. fbind r (\<lambda>str. app junk str x)) (Some (Inl e)) xs = Some (Inl e)" for e xs
    by (induction xs) simp_all
  show ?case
  proof (cases "len str + int (length (enc x)) < MaxAllocSize")
    case True
    obtain s where s: "app junk str x = Some (Inr s)" "si_ok s" "contents s = contents str @ enc x"
        "cursor s = cursor str" "len s = len str + int (length (enc x))"
      using app_fits [OF Cons.prems True] by blast
    from Cons.IH [OF s(2)] s show ?thesis by (auto simp: appends_def algebra_simps split: if_splits)
  next
    case False
    then show ?thesis using app_appends [OF Cons.prems, of x junk] by (simp add: appends_def err)
  qed
qed

end

interpretation binary: appender appendBinaryStringInfo "\<lambda>bs. bs"
  by unfold_locales (rule append_binary)

interpretation binary_NT: appender appendBinaryStringInfoNT "\<lambda>bs. bs"
  by unfold_locales (rule append_binary)

interpretation char: appender appendStringInfoChar "\<lambda>ch. [ch]"
  by unfold_locales (rule append_char)

interpretation char_macro: appender appendStringInfoCharMacro "\<lambda>ch. [ch]"
  by unfold_locales (rule append_char)

interpretation spaces: appender appendStringInfoSpaces "\<lambda>count. replicate (nat count) 32"
  by unfold_locales (rule append_spaces)

interpretation string: appender appendStringInfoString "\<lambda>s. takeWhile (\<lambda>b. b \<noteq> 0) s"
proof
  fix str s junk assume "si_ok str"
  then show "appends (takeWhile (\<lambda>b. b \<noteq> 0) s) str (appendStringInfoString junk str s)"
    using append_binary(1) [of str "take (c_strlen s) s" junk]
    by (simp add: appendStringInfoString_def c_strlen_def takeWhile_eq_take [symmetric])
qed

section \<open>Formatted output\<close>

text \<open>A store that only touches bytes after the contents.\<close>

lemma store_beyond:
  assumes ok: "si_ok str" and "len str + int (length bs) \<le> maxlen str"
  obtains s where "store str (len str) bs = Inr s" "si_ok s" "contents s = contents str" "len s = len str"
    "maxlen s = maxlen str" "cursor s = cursor str" "\<And>i. i < length bs \<Longrightarrow> data s (nat (len str) + i) = bs ! i"
proof -
  let ?s = "str\<lparr>data := (\<lambda>i. if len str \<le> int i \<and> int i < len str + int (length bs)
                           then bs ! (i - nat (len str)) else data str i)\<rparr>"
  have run: "store str (len str) bs = Inr ?s" using assms by (simp add: store_def si_ok_def)
  have cont: "contents ?s = contents str" by (auto simp: contents_def bytes_at_def)
  show thesis
    by (rule that [OF run _ cont]) (use assms in \<open>auto simp: si_ok_def\<close>)
qed

lemma appendStringInfoVA_fits:
  assumes ok: "si_ok str" and avail: "16 \<le> maxlen str - len str" and fits: "int (length txt) < maxlen str - len str"
  shows "\<exists>s. appendStringInfoVA str txt = Inr (s, 0) \<and> si_ok s \<and> contents s = contents str @ txt \<and>
    terminated s \<and> cursor s = cursor str"
proof -
  have all: "take (nat (maxlen str - len str) - 1) txt = txt" using fits by simp
  obtain s where s: "store str (len str) (txt @ [0]) = Inr s" "si_ok s" "contents s = contents str" "len s = len str"
      "maxlen s = maxlen str" "cursor s = cursor str"
      "\<And>i. i < length (txt @ [0]) \<Longrightarrow> data s (nat (len str) + i) = (txt @ [0]) ! i"
    using store_beyond [OF ok, of "txt @ [0]"] fits by auto
  let ?t = "s\<lparr>len := len s + int (length txt)\<rparr>"
  have run: "appendStringInfoVA str txt = Inr (?t, 0)"
    using avail fits s(1) ok
    by (simp add: appendStringInfoVA_def pvsnprintf_def Let_def all si_ok_def size_defs)
  have "contents ?t = contents str @ txt"
  proof (rule contents_eqI)
    fix i assume i: "i < length (contents str @ txt)"
    show "data ?t i = (contents str @ txt) ! i"
    proof (cases "i < nat (len str)")
      case True
      then have "data s i = contents str ! i" using nth_contents [of i s] s(3,4) by simp
      then show ?thesis using True by (simp add: nth_append contents_def)
    next
      case False
      moreover from this i have "i - nat (len str) < length txt" by (auto simp: contents_def)
      ultimately show ?thesis using s(7) [of "i - nat (len str)"] by (simp add: nth_append contents_def)
    qed
  qed (use s(4) ok in \<open>simp add: contents_def si_ok_def nat_add_distrib\<close>)
  moreover have "terminated ?t"
    using s(4) s(7) [of "length txt"] ok by (simp add: terminated_def si_ok_def nat_add_distrib nth_append)
  ultimately show ?thesis using run s ok fits by (auto simp: si_ok_def)
qed

lemma appendStringInfoVA_retry:
  assumes ok: "si_ok str" and nofit: "\<not> (16 \<le> maxlen str - len str \<and> int (length txt) < maxlen str - len str)"
    and "int (length txt) < MaxAllocSize"
  shows "\<exists>s. appendStringInfoVA str txt = Inr (s, if maxlen str - len str < 16 then 32 else int (length txt) + 1) \<and>
    si_ok s \<and> contents s = contents str \<and> len s = len str \<and> maxlen s = maxlen str \<and> cursor s = cursor str"
proof (cases "maxlen str - len str < 16")
  case True
  then show ?thesis using ok by (simp add: appendStringInfoVA_def)
next
  case False
  let ?avail = "maxlen str - len str"
  obtain s where s: "store str (len str) (take (nat ?avail - 1) txt @ [0]) = Inr s" "si_ok s"
      "contents s = contents str" "len s = len str" "maxlen s = maxlen str" "cursor s = cursor str"
  proof -
    have "len str + int (length (take (nat ?avail - 1) txt @ [0])) \<le> maxlen str" using False by auto
    then show thesis using that store_beyond [OF ok] by blast
  qed
  obtain t where t: "store s (len s) [0] = Inr t" "si_ok t" "contents t = contents s" "cursor t = cursor s"
      "len t = len s" "maxlen t = maxlen s"
    using store_terminator [OF s(2)] by blast
  have "appendStringInfoVA str txt = Inr (t, int (length txt) + 1)"
    using False nofit assms(3) s t(1) by (simp add: appendStringInfoVA_def pvsnprintf_def Let_def size_defs)
  with s t False show ?thesis by simp
qed

text \<open>At most two retries: one for a buffer that is almost full, one for a long text.\<close>

lemma appendStringInfo_step:
  assumes ok: "si_ok str" and nofit: "\<not> (16 \<le> maxlen str - len str \<and> int (length txt) < maxlen str - len str)"
    and "int (length txt) < MaxAllocSize"
  defines "needed \<equiv> if maxlen str - len str < 16 then 32 else int (length txt) + 1"
  shows "\<not> len str + needed < MaxAllocSize \<Longrightarrow> appendStringInfo junk str txt = Some oom"
    and "len str + needed < MaxAllocSize \<Longrightarrow>
      \<exists>s. appendStringInfo junk str txt = appendStringInfo junk s txt \<and> si_ok s \<and> contents s = contents str \<and>
        len s = len str \<and> cursor s = cursor str \<and> len str + needed < maxlen s"
proof -
  obtain t where t: "appendStringInfoVA str txt = Inr (t, needed)" "si_ok t" "contents t = contents str"
      "len t = len str" "maxlen t = maxlen str" "cursor t = cursor str"
    using appendStringInfoVA_retry [OF assms(1-3)] unfolding needed_def by blast
  have needed: "0 < needed" by (simp add: needed_def)
  show "\<not> len str + needed < MaxAllocSize \<Longrightarrow> appendStringInfo junk str txt = Some oom"
    using enlarge_oom [OF t(2), of needed junk] t(1,4) needed by (subst appendStringInfo.simps) simp
  assume "len str + needed < MaxAllocSize"
  then obtain s where s: "enlargeStringInfo junk t needed = Some (Inr s)" "si_ok s" "len s = len t"
      "cursor s = cursor t" "len t + needed < maxlen s" "\<And>i. int i < maxlen t \<Longrightarrow> data s i = data t i"
    using enlarge_fits [OF t(2), of needed junk] t(4) needed by (metis less_imp_le)
  have "contents s = contents t"
    using s(3,6) t(2) by (auto simp: contents_def bytes_at_def si_ok_def)
  moreover have "appendStringInfo junk str txt = appendStringInfo junk s txt"
    using t(1) s(1) needed by (subst appendStringInfo.simps) simp
  ultimately show "\<exists>s. appendStringInfo junk str txt = appendStringInfo junk s txt \<and> si_ok s \<and>
      contents s = contents str \<and> len s = len str \<and> cursor s = cursor str \<and> len str + needed < maxlen s"
    using s t by auto
qed

lemma appendStringInfo_done:
  assumes "si_ok str" and "16 \<le> maxlen str - len str" and "int (length txt) < maxlen str - len str"
  shows "\<exists>s. appendStringInfo junk str txt = Some (Inr s) \<and> si_ok s \<and> contents s = contents str @ txt \<and>
    terminated s \<and> cursor s = cursor str"
  using appendStringInfoVA_fits [OF assms] by (subst appendStringInfo.simps) auto

lemma appendStringInfo_roomy:
  assumes ok: "si_ok str" and "16 \<le> maxlen str - len str" and "int (length txt) < MaxAllocSize"
  shows "(\<exists>s. appendStringInfo junk str txt = Some (Inr s) \<and> si_ok s \<and> contents s = contents str @ txt \<and>
      terminated s \<and> cursor s = cursor str) \<or>
    appendStringInfo junk str txt = Some oom \<and> len str + int (length txt) + 1 \<ge> MaxAllocSize"
proof (cases "int (length txt) < maxlen str - len str")
  case True
  then show ?thesis using appendStringInfo_done [OF assms(1,2)] by blast
next
  case False
  show ?thesis
  proof (cases "len str + (int (length txt) + 1) < MaxAllocSize")
    case fits: True
    with appendStringInfo_step(2) [OF ok _ assms(3), of junk] False assms(2)
    obtain s where s: "appendStringInfo junk str txt = appendStringInfo junk s txt" "si_ok s" "contents s = contents str"
        "len s = len str" "cursor s = cursor str" "len str + (int (length txt) + 1) < maxlen s" by auto
    then show ?thesis using appendStringInfo_done [OF s(2), of _ junk] False assms(2) by auto
  next
    case nofit: False
    then show ?thesis using appendStringInfo_step(1) [OF ok _ assms(3), of junk] False assms(2) by auto
  qed
qed

lemma appendStringInfo_total:
  assumes ok: "si_ok str" and "int (length txt) < MaxAllocSize"
  shows "(\<exists>s. appendStringInfo junk str txt = Some (Inr s) \<and> si_ok s \<and> contents s = contents str @ txt \<and>
      terminated s \<and> cursor s = cursor str) \<or>
    appendStringInfo junk str txt = Some oom \<and> len str + max 32 (int (length txt) + 1) \<ge> MaxAllocSize"
proof (cases "16 \<le> maxlen str - len str")
  case True
  then show ?thesis using appendStringInfo_roomy [OF ok True assms(2), of junk] by auto
next
  case False
  show ?thesis
  proof (cases "len str + 32 < MaxAllocSize")
    case True
    obtain s where s: "appendStringInfo junk str txt = appendStringInfo junk s txt" "si_ok s" "contents s = contents str"
        "len s = len str" "cursor s = cursor str" "len str + 32 < maxlen s"
      using appendStringInfo_step(2) [OF ok _ assms(2), of junk] False True by auto
    then show ?thesis using appendStringInfo_roomy [OF s(2) _ assms(2), of junk] by auto
  next
    case nofit: False
    then show ?thesis using appendStringInfo_step(1) [OF ok _ assms(2), of junk] False by auto
  qed
qed

lemma init_buffer:
  obtains s where "initStringInfo junk = Inr s" "si_ok s" "contents s = []" "terminated s" "cursor s = 0" "len s = 0"
    "maxlen s = 1024"
  by (simp add: initStringInfo_def resetStringInfo_def store_def si_ok_def contents_def bytes_at_def
        terminated_def MaxAllocSize_def)

lemma reset_buffer:
  assumes "si_ok str"
  obtains s where "resetStringInfo str = Inr s" "si_ok s" "contents s = []" "terminated s" "cursor s = 0"
    "len s = 0" "maxlen s = maxlen str"
  using assms by (simp add: resetStringInfo_def store_def si_ok_def contents_def bytes_at_def terminated_def)

section \<open>Properties\<close>


lemma example_buffer_ok: "si_ok example_buffer"
  by (simp add: example_buffer_def si_ok_def MaxAllocSize_def)


text \<open>
  \<^verbatim>\<open>appendStringInfo\<close> always leaves its retry loop: it appends the whole formatted text with a
  terminating null byte, or reports that the limit would be reached.
\<close>

theorem appendStringInfo_returns:
  assumes "si_ok str" and "int (length txt) < MaxAllocSize"
  shows "(\<exists>s. appendStringInfo junk str txt = Some (Inr s) \<and> si_ok s \<and> contents s = contents str @ txt \<and> terminated s) \<or>
    appendStringInfo junk str txt = Some oom \<and> len str + max 32 (int (length txt) + 1) \<ge> MaxAllocSize"
  using appendStringInfo_total [OF assms, of junk] by blast

theorem appendStringInfo_returns_witness:
  "\<exists>s. appendStringInfo (\<lambda>_. 255) example_buffer [72, 105] = Some (Inr s) \<and> contents s = [72, 105] \<and> terminated s"
  using appendStringInfo_returns [OF example_buffer_ok, of "[72, 105]" "\<lambda>_. 255"]
  by (auto simp: example_buffer_def MaxAllocSize_def contents_def bytes_at_def)

end
