(* ===== verification/Pqformat.thy ===== *)
theory Pqformat
  imports Stringinfo
begin

unbundle bit_operations_syntax

text \<open>
  Building and reading protocol messages: \<^verbatim>\<open>src/postgres/src/backend/libpq/pqformat.c\<close>,
  \<^verbatim>\<open>src/postgres/src/include/libpq/pqformat.h\<close> and the byte order of
  \<^verbatim>\<open>src/postgres/src/include/port/pg_bswap.h\<close> (the portable branches, on a little-endian machine).

  Character set conversion is a parameter \<open>conv\<close>: \<open>None\<close> when \<^verbatim>\<open>pg_server_to_client\<close> or
  \<^verbatim>\<open>pg_client_to_server\<close> returns its argument, \<open>Some p\<close> when it returns a converted copy. A float is
  its bit pattern, as in the unions of the source. Sending a completed message returns its type and
  body. The lemmas show that each routine that reads a field undoes the one that sends it, that
  reading never leaves the buffer, and that a message with a missing or malformed field is refused.
\<close>

section \<open>Byte order\<close>

definition pg_bswap16 :: "word16 \<Rightarrow> word16" where
  "pg_bswap16 x = (push_bit 8 x AND 0xff00) OR (drop_bit 8 x AND 0x00ff)"

definition pg_bswap32 :: "word32 \<Rightarrow> word32" where
  "pg_bswap32 x =
     (push_bit 24 x AND 0xff000000) OR (push_bit 8 x AND 0x00ff0000) OR
     (drop_bit 8 x AND 0x0000ff00) OR (drop_bit 24 x AND 0x000000ff)"

definition pg_bswap64 :: "word64 \<Rightarrow> word64" where
  "pg_bswap64 x =
     (push_bit 56 x AND 0xff00000000000000) OR (push_bit 40 x AND 0x00ff000000000000) OR
     (push_bit 24 x AND 0x0000ff0000000000) OR (push_bit 8 x AND 0x000000ff00000000) OR
     (drop_bit 8 x AND 0x00000000ff000000) OR (drop_bit 24 x AND 0x0000000000ff0000) OR
     (drop_bit 40 x AND 0x000000000000ff00) OR (drop_bit 56 x AND 0x00000000000000ff)"

abbreviation pg_hton16 :: "word16 \<Rightarrow> word16" where "pg_hton16 \<equiv> pg_bswap16"
abbreviation pg_hton32 :: "word32 \<Rightarrow> word32" where "pg_hton32 \<equiv> pg_bswap32"
abbreviation pg_hton64 :: "word64 \<Rightarrow> word64" where "pg_hton64 \<equiv> pg_bswap64"
abbreviation pg_ntoh16 :: "word16 \<Rightarrow> word16" where "pg_ntoh16 \<equiv> pg_bswap16"
abbreviation pg_ntoh32 :: "word32 \<Rightarrow> word32" where "pg_ntoh32 \<equiv> pg_bswap32"
abbreviation pg_ntoh64 :: "word64 \<Rightarrow> word64" where "pg_ntoh64 \<equiv> pg_bswap64"

text \<open>The bytes of an integer in memory, and the integer of such bytes.\<close>

definition le_bytes :: "nat \<Rightarrow> 'a::len word \<Rightarrow> byte list" where
  "le_bytes n w = map (\<lambda>i. ucast (drop_bit (8 * i) w)) [0..<n]"

fun le_word :: "byte list \<Rightarrow> 'a::len word" where
  "le_word [] = 0"
| "le_word (b # bs) = ucast b OR push_bit 8 (le_word bs)"

section \<open>Sending\<close>

definition pq_beginmessage :: "(nat \<Rightarrow> byte) \<Rightarrow> byte \<Rightarrow> StringInfoData pg_result" where
  "pq_beginmessage junk msgtype = rbind (initStringInfo junk) (\<lambda>buf. Inr (buf\<lparr>cursor := sint msgtype\<rparr>))"

definition pq_beginmessage_reuse :: "StringInfoData \<Rightarrow> byte \<Rightarrow> StringInfoData pg_result" where
  "pq_beginmessage_reuse buf msgtype = rbind (resetStringInfo buf) (\<lambda>buf. Inr (buf\<lparr>cursor := sint msgtype\<rparr>))"

definition pq_sendbytes :: "(nat \<Rightarrow> byte) \<Rightarrow> StringInfoData \<Rightarrow> byte list \<Rightarrow> StringInfoData fueled" where
  "pq_sendbytes junk buf bs = appendBinaryStringInfo junk buf bs"

text \<open>Writing an integer into space that is already there, and enlarging before.\<close>

definition pq_writebytes :: "StringInfoData \<Rightarrow> byte list \<Rightarrow> StringInfoData pg_result" where
  "pq_writebytes buf bs =
     rbind (store buf (len buf) bs) (\<lambda>buf. Inr (buf\<lparr>len := len buf + int (length bs)\<rparr>))"

definition pq_writeint8 :: "StringInfoData \<Rightarrow> byte \<Rightarrow> StringInfoData pg_result" where
  "pq_writeint8 buf i = pq_writebytes buf (le_bytes 1 i)"

definition pq_writeint16 :: "StringInfoData \<Rightarrow> word16 \<Rightarrow> StringInfoData pg_result" where
  "pq_writeint16 buf i = pq_writebytes buf (le_bytes 2 (pg_hton16 i))"

definition pq_writeint32 :: "StringInfoData \<Rightarrow> word32 \<Rightarrow> StringInfoData pg_result" where
  "pq_writeint32 buf i = pq_writebytes buf (le_bytes 4 (pg_hton32 i))"

definition pq_writeint64 :: "StringInfoData \<Rightarrow> word64 \<Rightarrow> StringInfoData pg_result" where
  "pq_writeint64 buf i = pq_writebytes buf (le_bytes 8 (pg_hton64 i))"

definition pq_sendint8 :: "(nat \<Rightarrow> byte) \<Rightarrow> StringInfoData \<Rightarrow> byte \<Rightarrow> StringInfoData fueled" where
  "pq_sendint8 junk buf i = fbind (enlargeStringInfo junk buf 1) (\<lambda>buf. Some (pq_writeint8 buf i))"

definition pq_sendint16 :: "(nat \<Rightarrow> byte) \<Rightarrow> StringInfoData \<Rightarrow> word16 \<Rightarrow> StringInfoData fueled" where
  "pq_sendint16 junk buf i = fbind (enlargeStringInfo junk buf 2) (\<lambda>buf. Some (pq_writeint16 buf i))"

definition pq_sendint32 :: "(nat \<Rightarrow> byte) \<Rightarrow> StringInfoData \<Rightarrow> word32 \<Rightarrow> StringInfoData fueled" where
  "pq_sendint32 junk buf i = fbind (enlargeStringInfo junk buf 4) (\<lambda>buf. Some (pq_writeint32 buf i))"

definition pq_sendint64 :: "(nat \<Rightarrow> byte) \<Rightarrow> StringInfoData \<Rightarrow> word64 \<Rightarrow> StringInfoData fueled" where
  "pq_sendint64 junk buf i = fbind (enlargeStringInfo junk buf 8) (\<lambda>buf. Some (pq_writeint64 buf i))"

definition pq_sendbyte :: "(nat \<Rightarrow> byte) \<Rightarrow> StringInfoData \<Rightarrow> byte \<Rightarrow> StringInfoData fueled" where
  "pq_sendbyte junk buf byt = pq_sendint8 junk buf byt"

definition pq_sendint :: "(nat \<Rightarrow> byte) \<Rightarrow> StringInfoData \<Rightarrow> word32 \<Rightarrow> int \<Rightarrow> StringInfoData fueled" where
  "pq_sendint junk buf i b =
     (if b = 1 then pq_sendint8 junk buf (ucast i)
      else if b = 2 then pq_sendint16 junk buf (ucast i)
      else if b = 4 then pq_sendint32 junk buf i
      else Some (elog_error ''unsupported integer size''))"

definition pq_sendfloat4 :: "(nat \<Rightarrow> byte) \<Rightarrow> StringInfoData \<Rightarrow> word32 \<Rightarrow> StringInfoData fueled" where
  "pq_sendfloat4 junk buf f = pq_sendint32 junk buf f"

definition pq_sendfloat8 :: "(nat \<Rightarrow> byte) \<Rightarrow> StringInfoData \<Rightarrow> word64 \<Rightarrow> StringInfoData fueled" where
  "pq_sendfloat8 junk buf f = pq_sendint64 junk buf f"

text \<open>Text: the bytes after conversion, up to the terminator of a converted copy.\<close>

definition converted :: "(byte list \<Rightarrow> byte list option) \<Rightarrow> byte list \<Rightarrow> byte list" where
  "converted conv str = (case conv str of Some p \<Rightarrow> take (c_strlen p) p | None \<Rightarrow> str)"

definition pq_sendcountedtext ::
  "(nat \<Rightarrow> byte) \<Rightarrow> (byte list \<Rightarrow> byte list option) \<Rightarrow> StringInfoData \<Rightarrow> byte list \<Rightarrow> bool \<Rightarrow> StringInfoData fueled" where
  "pq_sendcountedtext junk conv buf str countincludesself =
     (let extra = (if countincludesself then 4 else 0); p = converted conv str
      in fbind (pq_sendint32 junk buf (of_int (int (length p) + extra))) (\<lambda>buf.
           appendBinaryStringInfoNT junk buf p))"

definition pq_sendtext ::
  "(nat \<Rightarrow> byte) \<Rightarrow> (byte list \<Rightarrow> byte list option) \<Rightarrow> StringInfoData \<Rightarrow> byte list \<Rightarrow> StringInfoData fueled" where
  "pq_sendtext junk conv buf str = appendBinaryStringInfo junk buf (converted conv str)"

definition pq_sendstring ::
  "(nat \<Rightarrow> byte) \<Rightarrow> (byte list \<Rightarrow> byte list option) \<Rightarrow> StringInfoData \<Rightarrow> byte list \<Rightarrow> StringInfoData fueled" where
  "pq_sendstring junk conv buf str = appendBinaryStringInfoNT junk buf (converted conv str @ [0])"

definition pq_writestring ::
  "(byte list \<Rightarrow> byte list option) \<Rightarrow> StringInfoData \<Rightarrow> byte list \<Rightarrow> StringInfoData pg_result" where
  "pq_writestring conv buf str = pq_writebytes buf (converted conv str @ [0])"

definition IS_HIGHBIT_SET :: "byte \<Rightarrow> bool" where
  "IS_HIGHBIT_SET ch \<longleftrightarrow> ch AND 0x80 \<noteq> 0"

fun send_ascii_loop :: "(nat \<Rightarrow> byte) \<Rightarrow> byte list \<Rightarrow> StringInfoData \<Rightarrow> StringInfoData fueled" where
  "send_ascii_loop junk [] buf = Some (Inr buf)"
| "send_ascii_loop junk (ch # str) buf =
     fbind (appendStringInfoCharMacro junk buf (if IS_HIGHBIT_SET ch then 63 else ch)) (send_ascii_loop junk str)"

definition pq_send_ascii_string :: "(nat \<Rightarrow> byte) \<Rightarrow> StringInfoData \<Rightarrow> byte list \<Rightarrow> StringInfoData fueled" where
  "pq_send_ascii_string junk buf str =
     fbind (send_ascii_loop junk str buf) (\<lambda>buf. appendStringInfoChar junk buf 0)"

text \<open>The type and body that \<^verbatim>\<open>pq_putmessage\<close> is given.\<close>

type_synonym message = "byte \<times> byte list"

definition pq_endmessage :: "StringInfoData \<Rightarrow> message" where
  "pq_endmessage buf = (of_int (cursor buf), bytes_at buf 0 (nat (len buf)))"

definition pq_endmessage_reuse :: "StringInfoData \<Rightarrow> message" where
  "pq_endmessage_reuse buf = (of_int (cursor buf), bytes_at buf 0 (nat (len buf)))"

definition pq_puttextmessage :: "(byte list \<Rightarrow> byte list option) \<Rightarrow> byte \<Rightarrow> byte list \<Rightarrow> message" where
  "pq_puttextmessage conv msgtype str = (msgtype, converted conv str @ [0])"

definition pq_putemptymessage :: "byte \<Rightarrow> message" where
  "pq_putemptymessage msgtype = (msgtype, [])"

definition pq_begintypsend :: "(nat \<Rightarrow> byte) \<Rightarrow> StringInfoData fueled" where
  "pq_begintypsend junk =
     fbind (Some (initStringInfo junk)) (\<lambda>buf.
     fbind (appendStringInfoCharMacro junk buf 0) (\<lambda>buf.
     fbind (appendStringInfoCharMacro junk buf 0) (\<lambda>buf.
     fbind (appendStringInfoCharMacro junk buf 0) (\<lambda>buf.
       appendStringInfoCharMacro junk buf 0))))"

text \<open>The length word of a \<^verbatim>\<open>bytea\<close> on a little-endian machine.\<close>

definition SET_VARSIZE :: "StringInfoData \<Rightarrow> int \<Rightarrow> StringInfoData pg_result" where
  "SET_VARSIZE buf n = store buf 0 (le_bytes 4 (push_bit 2 (of_int n :: word32)))"

definition pq_endtypsend :: "StringInfoData \<Rightarrow> byte list pg_result" where
  "pq_endtypsend buf = rbind (SET_VARSIZE buf (len buf)) (\<lambda>buf. Inr (bytes_at buf 0 (nat (len buf))))"

section \<open>Reading\<close>

definition protocol_violation :: "string \<Rightarrow> 'a pg_result" where
  "protocol_violation msg = ereport_error ''ERRCODE_PROTOCOL_VIOLATION'' msg"

text \<open>A load of bytes of the buffer.\<close>

definition load :: "StringInfoData \<Rightarrow> int \<Rightarrow> int \<Rightarrow> byte list pg_result" where
  "load msg off n =
     (if off < 0 \<or> off + n > maxlen msg then c_undefined ''read outside the buffer''
      else Inr (bytes_at msg off (nat n)))"

definition pq_getmsgbyte :: "StringInfoData \<Rightarrow> (byte \<times> StringInfoData) pg_result" where
  "pq_getmsgbyte msg =
     (if cursor msg \<ge> len msg then protocol_violation ''no data left in message''
      else rbind (load msg (cursor msg) 1) (\<lambda>bs. Inr (bs ! 0, msg\<lparr>cursor := cursor msg + 1\<rparr>)))"

definition pq_getmsgbytes :: "StringInfoData \<Rightarrow> int \<Rightarrow> (byte list \<times> StringInfoData) pg_result" where
  "pq_getmsgbytes msg datalen =
     (if datalen < 0 \<or> datalen > len msg - cursor msg then protocol_violation ''insufficient data left in message''
      else rbind (load msg (cursor msg) datalen) (\<lambda>bs. Inr (bs, msg\<lparr>cursor := cursor msg + datalen\<rparr>)))"

definition pq_copymsgbytes :: "StringInfoData \<Rightarrow> int \<Rightarrow> (byte list \<times> StringInfoData) pg_result" where
  "pq_copymsgbytes msg datalen =
     (if datalen < 0 \<or> datalen > len msg - cursor msg then protocol_violation ''insufficient data left in message''
      else rbind (load msg (cursor msg) datalen) (\<lambda>bs. Inr (bs, msg\<lparr>cursor := cursor msg + datalen\<rparr>)))"

definition pq_getmsgint :: "StringInfoData \<Rightarrow> int \<Rightarrow> (word32 \<times> StringInfoData) pg_result" where
  "pq_getmsgint msg b =
     (if b = 1 then rbind (pq_copymsgbytes msg 1) (\<lambda>(bs, msg). Inr (ucast (le_word bs :: byte), msg))
      else if b = 2 then rbind (pq_copymsgbytes msg 2) (\<lambda>(bs, msg). Inr (ucast (pg_ntoh16 (le_word bs)), msg))
      else if b = 4 then rbind (pq_copymsgbytes msg 4) (\<lambda>(bs, msg). Inr (pg_ntoh32 (le_word bs), msg))
      else elog_error ''unsupported integer size'')"

definition pq_getmsgint64 :: "StringInfoData \<Rightarrow> (word64 \<times> StringInfoData) pg_result" where
  "pq_getmsgint64 msg = rbind (pq_copymsgbytes msg 8) (\<lambda>(bs, msg). Inr (pg_ntoh64 (le_word bs), msg))"

definition pq_getmsgfloat4 :: "StringInfoData \<Rightarrow> (word32 \<times> StringInfoData) pg_result" where
  "pq_getmsgfloat4 msg = pq_getmsgint msg 4"

definition pq_getmsgfloat8 :: "StringInfoData \<Rightarrow> (word64 \<times> StringInfoData) pg_result" where
  "pq_getmsgfloat8 msg = pq_getmsgint64 msg"

definition pq_getmsgtext ::
  "(byte list \<Rightarrow> byte list option) \<Rightarrow> StringInfoData \<Rightarrow> int \<Rightarrow> (byte list \<times> StringInfoData) pg_result" where
  "pq_getmsgtext conv msg rawbytes =
     (if rawbytes < 0 \<or> rawbytes > len msg - cursor msg then protocol_violation ''insufficient data left in message''
      else rbind (load msg (cursor msg) rawbytes) (\<lambda>str.
             Inr (converted conv str, msg\<lparr>cursor := cursor msg + rawbytes\<rparr>)))"

text \<open>\<^verbatim>\<open>strlen\<close> of the string that starts at an offset of the buffer.\<close>

definition strlen_at :: "StringInfoData \<Rightarrow> int \<Rightarrow> int pg_result" where
  "strlen_at msg off =
     rbind (load msg off (maxlen msg - off)) (\<lambda>bs.
       if c_strlen bs < length bs then Inr (int (c_strlen bs)) else c_undefined ''read outside the buffer'')"

definition pq_getmsgrawstring :: "StringInfoData \<Rightarrow> (byte list \<times> StringInfoData) pg_result" where
  "pq_getmsgrawstring msg =
     rbind (strlen_at msg (cursor msg)) (\<lambda>slen.
       if cursor msg + slen \<ge> len msg then protocol_violation ''invalid string in message''
       else rbind (load msg (cursor msg) slen) (\<lambda>str. Inr (str, msg\<lparr>cursor := cursor msg + (slen + 1)\<rparr>)))"

definition pq_getmsgstring ::
  "(byte list \<Rightarrow> byte list option) \<Rightarrow> StringInfoData \<Rightarrow> (byte list \<times> StringInfoData) pg_result" where
  "pq_getmsgstring conv msg =
     rbind (strlen_at msg (cursor msg)) (\<lambda>slen.
       if cursor msg + slen \<ge> len msg then protocol_violation ''invalid string in message''
       else rbind (load msg (cursor msg) slen) (\<lambda>str.
              Inr (converted conv str, msg\<lparr>cursor := cursor msg + (slen + 1)\<rparr>)))"

definition pq_getmsgend :: "StringInfoData \<Rightarrow> unit pg_result" where
  "pq_getmsgend msg = (if cursor msg \<noteq> len msg then protocol_violation ''invalid message format'' else Inr ())"

section \<open>Messages being read\<close>

definition msg_ok :: "StringInfoData \<Rightarrow> bool" where
  "msg_ok msg \<longleftrightarrow> si_ok msg \<and> terminated msg \<and> 0 \<le> cursor msg \<and> cursor msg \<le> len msg"

definition unread :: "StringInfoData \<Rightarrow> byte list" where
  "unread msg = drop (nat (cursor msg)) (contents msg)"

definition advance :: "StringInfoData \<Rightarrow> nat \<Rightarrow> StringInfoData" where
  "advance msg n = msg\<lparr>cursor := cursor msg + int n\<rparr>"

text \<open>The network byte order of an integer.\<close>

definition be_bytes :: "nat \<Rightarrow> 'a::len word \<Rightarrow> byte list" where
  "be_bytes n w = rev (le_bytes n w)"

text \<open>Messages as sequences of fields, sent one after the other and read in the same order.\<close>

datatype msg_field = Int8 byte | Int16 word32 | Int32 word32 | Int64 word64 | Str "byte list"

fun send_field ::
  "(nat \<Rightarrow> byte) \<Rightarrow> (byte list \<Rightarrow> byte list option) \<Rightarrow> StringInfoData \<Rightarrow> msg_field \<Rightarrow> StringInfoData fueled" where
  "send_field junk conv buf (Int8 i) = pq_sendint8 junk buf i"
| "send_field junk conv buf (Int16 i) = pq_sendint junk buf i 2"
| "send_field junk conv buf (Int32 i) = pq_sendint junk buf i 4"
| "send_field junk conv buf (Int64 i) = pq_sendint64 junk buf i"
| "send_field junk conv buf (Str s) = pq_sendstring junk conv buf s"

definition send_fields ::
  "(nat \<Rightarrow> byte) \<Rightarrow> (byte list \<Rightarrow> byte list option) \<Rightarrow> msg_field list \<Rightarrow> StringInfoData \<Rightarrow> StringInfoData fueled" where
  "send_fields junk conv fs buf =
     foldl (\<lambda>r f. fbind r (\<lambda>buf. send_field junk conv buf f)) (Some (Inr buf)) fs"

text \<open>Reading a field of the same kind as a given one.\<close>

fun get_field ::
  "(byte list \<Rightarrow> byte list option) \<Rightarrow> msg_field \<Rightarrow> StringInfoData \<Rightarrow> (msg_field \<times> StringInfoData) pg_result" where
  "get_field conv (Int8 _) msg = rbind (pq_getmsgbyte msg) (\<lambda>(i, msg). Inr (Int8 i, msg))"
| "get_field conv (Int16 _) msg = rbind (pq_getmsgint msg 2) (\<lambda>(i, msg). Inr (Int16 i, msg))"
| "get_field conv (Int32 _) msg = rbind (pq_getmsgint msg 4) (\<lambda>(i, msg). Inr (Int32 i, msg))"
| "get_field conv (Int64 _) msg = rbind (pq_getmsgint64 msg) (\<lambda>(i, msg). Inr (Int64 i, msg))"
| "get_field conv (Str _) msg = rbind (pq_getmsgstring conv msg) (\<lambda>(s, msg). Inr (Str s, msg))"

fun get_fields ::
  "(byte list \<Rightarrow> byte list option) \<Rightarrow> msg_field list \<Rightarrow> StringInfoData \<Rightarrow> (msg_field list \<times> StringInfoData) pg_result" where
  "get_fields conv [] msg = Inr ([], msg)"
| "get_fields conv (k # ks) msg =
     rbind (get_field conv k msg) (\<lambda>(f, msg). rbind (get_fields conv ks msg) (\<lambda>(fs, msg). Inr (f # fs, msg)))"

fun field_enc :: "(byte list \<Rightarrow> byte list option) \<Rightarrow> msg_field \<Rightarrow> byte list" where
  "field_enc conv (Int8 i) = [i]"
| "field_enc conv (Int16 i) = be_bytes 2 (ucast i :: word16)"
| "field_enc conv (Int32 i) = be_bytes 4 i"
| "field_enc conv (Int64 i) = be_bytes 8 i"
| "field_enc conv (Str s) = converted conv s @ [0]"

fun field_valid ::
  "(byte list \<Rightarrow> byte list option) \<Rightarrow> (byte list \<Rightarrow> byte list option) \<Rightarrow> msg_field \<Rightarrow> bool" where
  "field_valid to_client to_server (Int16 i) \<longleftrightarrow> unat i < 2 ^ 16"
| "field_valid to_client to_server (Str s) \<longleftrightarrow>
     0 \<notin> set (converted to_client s) \<and> converted to_server (converted to_client s) = s"
| "field_valid to_client to_server _ \<longleftrightarrow> True"

definition example_message :: StringInfoData where
  "example_message =
     \<lparr>data = (\<lambda>i. if i < 6 then [7, 72, 105, 0, 1, 2] ! i else 0), len = 6, maxlen = 8, cursor = 0\<rparr>"

section \<open>Byte order lemmas\<close>

lemma length_le_bytes [simp]: "length (le_bytes n w) = n" "length (be_bytes n w) = n"
  by (simp_all add: le_bytes_def be_bytes_def)

lemma bit_le_bytes: "i < n \<Longrightarrow> bit (le_bytes n w ! i) j \<longleftrightarrow> j < 8 \<and> bit w (8 * i + j)"
  by (auto simp: le_bytes_def bit_simps)

lemma bit_le_word:
  "bit (le_word bs :: 'a::len word) k \<longleftrightarrow> k < LENGTH('a) \<and> k div 8 < length bs \<and> bit (bs ! (k div 8)) (k mod 8)"
proof (induction bs arbitrary: k)
  case (Cons b bs)
  show ?case
  proof (cases "k < 8")
    case True
    then show ?thesis by (auto simp: bit_simps)
  next
    case False
    then have k: "k div 8 = Suc ((k - 8) div 8)" "(k - 8) mod 8 = k mod 8" by (simp_all add: le_div_geq le_mod_geq)
    have "\<not> bit b k" using False by (auto dest: bit_imp_le_length)
    then have "bit (le_word (b # bs) :: 'a word) k \<longleftrightarrow> k < LENGTH('a) \<and> bit (le_word bs :: 'a word) (k - 8)"
      using False by (simp add: bit_or_iff bit_ucast_iff bit_push_bit_iff)
    also have "\<dots> \<longleftrightarrow> k < LENGTH('a) \<and> (k - 8) div 8 < length bs \<and> bit (bs ! ((k - 8) div 8)) (k mod 8)"
      unfolding Cons.IH k(2) by auto
    finally show ?thesis using k(1) by simp
  qed
qed simp

lemma le_word_bytes: "LENGTH('a) \<le> 8 * n \<Longrightarrow> le_word (le_bytes n w) = (w :: 'a::len word)"
  by (rule bit_eqI) (auto simp: bit_le_word bit_le_bytes div_less_iff_less_mult ac_simps dest: bit_imp_le_length)

lemma swap_masks:
  "(0xff00 :: 16 word) = push_bit 8 (mask 8)" "(0xff :: 16 word) = mask 8"
  "(0xff000000 :: 32 word) = push_bit 24 (mask 8)" "(0xff0000 :: 32 word) = push_bit 16 (mask 8)"
  "(0xff00 :: 32 word) = push_bit 8 (mask 8)" "(0xff :: 32 word) = mask 8"
  "(0xff00000000000000 :: 64 word) = push_bit 56 (mask 8)" "(0xff000000000000 :: 64 word) = push_bit 48 (mask 8)"
  "(0xff0000000000 :: 64 word) = push_bit 40 (mask 8)" "(0xff00000000 :: 64 word) = push_bit 32 (mask 8)"
  "(0xff000000 :: 64 word) = push_bit 24 (mask 8)" "(0xff0000 :: 64 word) = push_bit 16 (mask 8)"
  "(0xff00 :: 64 word) = push_bit 8 (mask 8)" "(0xff :: 64 word) = mask 8"
  by (simp_all add: mask_eq_exp_minus_1)

lemma nth_be_bytes: "i < n \<Longrightarrow> be_bytes n w ! i = le_bytes n w ! (n - Suc i)"
  by (simp add: be_bytes_def rev_nth)

lemmas swap_bits = bit_le_bytes nth_be_bytes bit_or_iff bit_and_iff bit_push_bit_iff bit_drop_bit_eq bit_mask_iff

lemma byte_eqI:
  fixes a b :: byte
  assumes "\<And>j. j < 8 \<Longrightarrow> bit a j \<longleftrightarrow> bit b j"
  shows "a = b"
  by (rule bit_eqI) (use assms in auto)

lemma le_bytes_bswap16: "le_bytes 2 (pg_bswap16 w) = be_bytes 2 w"
proof (rule nth_equalityI)
  fix i assume "i < length (le_bytes 2 (pg_bswap16 w))"
  then have i: "i = 0 \<or> i = 1" by auto
  show "le_bytes 2 (pg_bswap16 w) ! i = be_bytes 2 w ! i"
  proof (rule byte_eqI)
    fix j :: nat assume "j < 8"
    with i show "bit (le_bytes 2 (pg_bswap16 w) ! i) j \<longleftrightarrow> bit (be_bytes 2 w ! i) j"
      unfolding pg_bswap16_def swap_masks by (elim disjE) (simp_all add: swap_bits)
  qed
qed simp

lemma le_bytes_bswap32: "le_bytes 4 (pg_bswap32 w) = be_bytes 4 w"
proof (rule nth_equalityI)
  fix i assume "i < length (le_bytes 4 (pg_bswap32 w))"
  then have i: "i = 0 \<or> i = 1 \<or> i = 2 \<or> i = 3" by auto
  show "le_bytes 4 (pg_bswap32 w) ! i = be_bytes 4 w ! i"
  proof (rule byte_eqI)
    fix j :: nat assume "j < 8"
    with i show "bit (le_bytes 4 (pg_bswap32 w) ! i) j \<longleftrightarrow> bit (be_bytes 4 w ! i) j"
      unfolding pg_bswap32_def swap_masks by (elim disjE) (simp_all add: swap_bits)
  qed
qed simp

lemma le_bytes_bswap64: "le_bytes 8 (pg_bswap64 w) = be_bytes 8 w"
proof (rule nth_equalityI)
  fix i assume "i < length (le_bytes 8 (pg_bswap64 w))"
  then have i: "i = 0 \<or> i = 1 \<or> i = 2 \<or> i = 3 \<or> i = 4 \<or> i = 5 \<or> i = 6 \<or> i = 7" by auto
  show "le_bytes 8 (pg_bswap64 w) ! i = be_bytes 8 w ! i"
  proof (rule byte_eqI)
    fix j :: nat assume "j < 8"
    with i show "bit (le_bytes 8 (pg_bswap64 w) ! i) j \<longleftrightarrow> bit (be_bytes 8 w ! i) j"
      unfolding pg_bswap64_def swap_masks by (elim disjE) (simp_all add: swap_bits)
  qed
qed simp

lemma bswap_involution:
  "pg_bswap16 (pg_bswap16 w16) = w16" "pg_bswap32 (pg_bswap32 w32) = w32" "pg_bswap64 (pg_bswap64 w64) = w64"
proof -
  have "le_bytes 2 (pg_bswap16 (pg_bswap16 w16)) = le_bytes 2 w16"
    "le_bytes 4 (pg_bswap32 (pg_bswap32 w32)) = le_bytes 4 w32"
    "le_bytes 8 (pg_bswap64 (pg_bswap64 w64)) = le_bytes 8 w64"
    by (simp_all only: le_bytes_bswap16 le_bytes_bswap32 le_bytes_bswap64 be_bytes_def rev_rev_ident)
  then have "le_word (le_bytes 2 (pg_bswap16 (pg_bswap16 w16))) = (le_word (le_bytes 2 w16) :: word16)"
    "le_word (le_bytes 4 (pg_bswap32 (pg_bswap32 w32))) = (le_word (le_bytes 4 w32) :: word32)"
    "le_word (le_bytes 8 (pg_bswap64 (pg_bswap64 w64))) = (le_word (le_bytes 8 w64) :: word64)"
    by (simp_all only:)
  then show "pg_bswap16 (pg_bswap16 w16) = w16" "pg_bswap32 (pg_bswap32 w32) = w32" "pg_bswap64 (pg_bswap64 w64) = w64"
    by (simp_all add: le_word_bytes)
qed

lemma read_be_bytes:
  "pg_bswap16 (le_word (be_bytes 2 w16)) = w16" "pg_bswap32 (le_word (be_bytes 4 w32)) = w32"
  "pg_bswap64 (le_word (be_bytes 8 w64)) = w64" "le_word (le_bytes 1 w8) = (w8 :: byte)"
  by (simp_all add: le_bytes_bswap16 [symmetric] le_bytes_bswap32 [symmetric] le_bytes_bswap64 [symmetric]
        le_word_bytes bswap_involution)

section \<open>Sending appends\<close>

lemma send_appends:
  assumes "si_ok buf"
  shows "appends bs buf (fbind (enlargeStringInfo junk buf (int (length bs))) (\<lambda>buf. Some (pq_writebytes buf bs)))"
proof -
  have step: "fbind g (\<lambda>buf. Some (pq_writebytes buf bs)) =
      fbind g (\<lambda>str. fbind (Some (store str (len str) bs)) (\<lambda>str. Some (Inr (str\<lparr>len := len str + int (length bs)\<rparr>))))" for g
    by (auto simp: pq_writebytes_def fbind_def rbind_def split: option.split sum.split)
  show ?thesis
    using append_steps(2) [OF assms _ disjI1 [OF refl], of bs junk] enlarge_oom [OF assms, of "int (length bs)" junk]
    unfolding appends_def step by (simp split: if_split)
qed

lemma sendint_appends:
  assumes "si_ok buf"
  shows "appends [w8] buf (pq_sendint8 junk buf w8)" "appends (be_bytes 2 w16) buf (pq_sendint16 junk buf w16)"
    "appends (be_bytes 4 w32) buf (pq_sendint32 junk buf w32)" "appends (be_bytes 8 w64) buf (pq_sendint64 junk buf w64)"
  using send_appends [OF assms, of "[w8]" junk] send_appends [OF assms, of "be_bytes 2 w16" junk]
    send_appends [OF assms, of "be_bytes 4 w32" junk] send_appends [OF assms, of "be_bytes 8 w64" junk]
  by (simp_all add: pq_sendint8_def pq_sendint16_def pq_sendint32_def pq_sendint64_def pq_writeint8_def
        pq_writeint16_def pq_writeint32_def pq_writeint64_def le_bytes_bswap16 le_bytes_bswap32 le_bytes_bswap64)
    (simp add: le_bytes_def)

section \<open>Reading\<close>

lemma length_unread: "msg_ok m \<Longrightarrow> int (length (unread m)) = len m - cursor m"
  by (simp add: msg_ok_def unread_def contents_def si_ok_def of_nat_diff nat_mono)

lemma msg_ok_advance: "msg_ok m \<Longrightarrow> n \<le> length (unread m) \<Longrightarrow> msg_ok (advance m n)"
  using length_unread [of m] by (auto simp: msg_ok_def advance_def si_ok_def terminated_def)

lemma unread_advance: "msg_ok m \<Longrightarrow> unread (advance m n) = drop n (unread m)"
  by (simp add: msg_ok_def unread_def advance_def contents_def bytes_at_def nat_add_distrib ac_simps)

lemma load_unread:
  assumes "msg_ok m" and "n \<le> length (unread m)"
  shows "load m (cursor m) (int n) = Inr (take n (unread m))"
proof -
  have n: "cursor m + int n \<le> len m" using assms length_unread [OF assms(1)] by simp
  have "bytes_at m (cursor m) n = take n (unread m)"
    using n assms(1) by (intro nth_equalityI) (auto simp: bytes_at_def unread_def contents_def msg_ok_def)
  then show ?thesis using n assms(1) by (simp add: load_def msg_ok_def si_ok_def)
qed

lemma copymsgbytes_unread:
  assumes "msg_ok m"
  shows "pq_copymsgbytes m (int n) =
      (if n \<le> length (unread m) then Inr (take n (unread m), advance m n)
       else protocol_violation ''insufficient data left in message'')"
    and "pq_getmsgbytes m (int n) = pq_copymsgbytes m (int n)"
proof -
  have "int n > len m - cursor m \<longleftrightarrow> \<not> n \<le> length (unread m)" using length_unread [OF assms] by linarith
  then show "pq_copymsgbytes m (int n) = (if n \<le> length (unread m) then Inr (take n (unread m), advance m n)
       else protocol_violation ''insufficient data left in message'')"
    using load_unread [OF assms, of n] by (simp add: pq_copymsgbytes_def advance_def)
qed (simp add: pq_copymsgbytes_def pq_getmsgbytes_def)

lemma c_strlen_less: "c_strlen bs < length bs \<longleftrightarrow> 0 \<in> set bs"
  unfolding c_strlen_def by (induction bs) auto

lemma c_strlen_terminated: "c_strlen (u @ 0 # v) = c_strlen u"
  unfolding c_strlen_def by (induction u) auto

text \<open>The string at the cursor ends inside the buffer, because a message has a terminator.\<close>

lemma strlen_unread:
  assumes "msg_ok m"
  shows "strlen_at m (cursor m) = Inr (int (c_strlen (unread m)))"
proof -
  let ?c = "nat (cursor m)" and ?n = "nat (maxlen m - cursor m)"
  note ok = assms [unfolded msg_ok_def si_ok_def]
  let ?bs = "bytes_at m (cursor m) ?n"
  let ?rest = "map (\<lambda>i. data m (Suc (nat (len m)) + i)) [0..<nat (maxlen m - len m) - 1]"
  have bs: "?bs = unread m @ 0 # ?rest"
  proof (rule nth_equalityI)
    show len: "length ?bs = length (unread m @ 0 # ?rest)" using ok length_unread [OF assms] by auto
    fix i assume i: "i < length ?bs"
    then have "?bs ! i = data m (?c + i)" by (simp add: bytes_at_def)
    moreover have "(unread m @ 0 # ?rest) ! i = data m (?c + i)"
    proof (cases "i < length (unread m)")
      case True
      then show ?thesis using ok by (simp add: nth_append) (simp add: unread_def contents_def bytes_at_def)
    next
      case False
      then have c: "?c + i = nat (len m) + (i - length (unread m))" using length_unread [OF assms] ok by linarith
      show ?thesis
      proof (cases "i - length (unread m)")
        case 0
        then show ?thesis using False c ok by (simp add: nth_append terminated_def)
      next
        case (Suc k)
        then have "k < nat (maxlen m - len m) - 1" using i len False by auto
        with Suc False c show ?thesis by (simp add: nth_append ac_simps)
      qed
    qed
    ultimately show "?bs ! i = (unread m @ 0 # ?rest) ! i" by simp
  qed
  have "c_strlen ?bs = c_strlen (unread m)" "c_strlen ?bs < length ?bs"
    unfolding c_strlen_less bs by (simp_all add: c_strlen_terminated)
  then show ?thesis using ok by (simp add: strlen_at_def load_def)
qed

lemma getmsgstring_unread:
  assumes "msg_ok m"
  shows "pq_getmsgstring conv m =
    (if 0 \<in> set (unread m)
     then Inr (converted conv (takeWhile (\<lambda>b. b \<noteq> 0) (unread m)), advance m (c_strlen (unread m) + 1))
     else protocol_violation ''invalid string in message'')"
proof -
  have fits: "cursor m + int (c_strlen (unread m)) \<ge> len m \<longleftrightarrow> 0 \<notin> set (unread m)"
    using length_unread [OF assms] c_strlen_less [of "unread m"] by linarith
  have le: "c_strlen (unread m) \<le> length (unread m)" by (simp add: c_strlen_def length_takeWhile_le)
  have "take (c_strlen (unread m)) (unread m) = takeWhile (\<lambda>b. b \<noteq> 0) (unread m)"
    by (simp add: c_strlen_def takeWhile_eq_take [symmetric])
  with fits load_unread [OF assms le] show ?thesis
    by (simp add: pq_getmsgstring_def strlen_unread [OF assms] advance_def)
qed

section \<open>Fields\<close>

text \<open>
  A routine that reads a field: it returns the value whose encoding comes next and moves the cursor
  behind it; and on any message it stays inside the message or reports a protocol violation.
\<close>

locale reader =
  fixes get :: "StringInfoData \<Rightarrow> ('a \<times> StringInfoData) pg_result"
    and enc :: "'a \<Rightarrow> byte list" and valid :: "'a \<Rightarrow> bool"
  assumes get_next: "msg_ok m \<Longrightarrow> valid x \<Longrightarrow> unread m = enc x @ rest \<Longrightarrow> get m = Inr (x, advance m (length (enc x)))"
    and get_safe: "msg_ok m \<Longrightarrow>
      (\<exists>x n. n \<le> length (unread m) \<and> get m = Inr (x, advance m n)) \<or> (\<exists>e. get m = protocol_violation e)"

locale wire_field = appender send enc + reader get enc valid for send enc get valid
begin

text \<open>What was sent is what is read, wherever the bytes arrive.\<close>

lemma sent_is_read:
  assumes "si_ok buf" and "valid x" and "send junk buf x = Some (Inr buf')"
    and "msg_ok m" and "unread m = drop (length (contents buf)) (contents buf') @ rest"
  shows "get m = Inr (x, advance m (length (enc x))) \<and> unread (advance m (length (enc x))) = rest"
proof -
  have "contents buf' = contents buf @ enc x"
    using app_appends [OF assms(1), of x junk] assms(3) by (auto simp: appends_def split: if_splits)
  then have "unread m = enc x @ rest" using assms(5) by simp
  with get_next [OF assms(4,2)] unread_advance [OF assms(4)] show ?thesis by simp
qed

end

lemma ucast16_id: "unat w < 2 ^ 16 \<Longrightarrow> ucast (ucast (w :: word32) :: word16) = w"
  by (simp add: word_unat_eq_iff unsigned_ucast_eq unsigned_take_bit_eq take_bit_nat_eq_self)

interpretation int8: wire_field pq_sendint8 "\<lambda>i. [i]" pq_getmsgbyte "\<lambda>_. True"
proof
  fix m x rest assume "msg_ok m" "unread m = [x] @ rest"
  then show "pq_getmsgbyte m = Inr (x, advance m (length [x]))"
    using load_unread [of m 1] length_unread [of m] by (simp add: pq_getmsgbyte_def advance_def)
next
  fix m assume "msg_ok m"
  then show "(\<exists>x n. n \<le> length (unread m) \<and> pq_getmsgbyte m = Inr (x, advance m n)) \<or>
      (\<exists>e. pq_getmsgbyte m = protocol_violation e)"
    using load_unread [of m 1] length_unread [of m] by (auto simp: pq_getmsgbyte_def advance_def intro!: exI [of _ 1])
qed (simp add: sendint_appends)

interpretation int16: wire_field "\<lambda>junk buf i. pq_sendint junk buf i 2" "\<lambda>i. be_bytes 2 (ucast i :: word16)"
  "\<lambda>m. pq_getmsgint m 2" "\<lambda>i. unat i < 2 ^ 16"
proof
  fix m rest and x :: word32 assume "msg_ok m" "unat x < 2 ^ 16" "unread m = be_bytes 2 (ucast x :: word16) @ rest"
  then show "pq_getmsgint m 2 = Inr (x, advance m (length (be_bytes 2 (ucast x :: word16))))"
    using copymsgbytes_unread(1) [of m 2] by (simp add: pq_getmsgint_def read_be_bytes ucast16_id)
next
  fix m assume "msg_ok m"
  then show "(\<exists>x n. n \<le> length (unread m) \<and> pq_getmsgint m 2 = Inr (x, advance m n)) \<or>
      (\<exists>e. pq_getmsgint m 2 = protocol_violation e)"
    using copymsgbytes_unread(1) [of m 2] by (auto simp: pq_getmsgint_def protocol_violation_def)
qed (simp add: sendint_appends pq_sendint_def)

interpretation int32: wire_field "\<lambda>junk buf i. pq_sendint junk buf i 4" "be_bytes 4"
  "\<lambda>m. pq_getmsgint m 4" "\<lambda>_. True"
proof
  fix m rest and x :: word32 assume "msg_ok m" "unread m = be_bytes 4 x @ rest"
  then show "pq_getmsgint m 4 = Inr (x, advance m (length (be_bytes 4 x)))"
    using copymsgbytes_unread(1) [of m 4] by (simp add: pq_getmsgint_def read_be_bytes)
next
  fix m assume "msg_ok m"
  then show "(\<exists>x n. n \<le> length (unread m) \<and> pq_getmsgint m 4 = Inr (x, advance m n)) \<or>
      (\<exists>e. pq_getmsgint m 4 = protocol_violation e)"
    using copymsgbytes_unread(1) [of m 4] by (auto simp: pq_getmsgint_def protocol_violation_def)
qed (simp add: sendint_appends pq_sendint_def)

interpretation int64: wire_field pq_sendint64 "be_bytes 8" pq_getmsgint64 "\<lambda>_. True"
proof
  fix m rest and x :: word64 assume "msg_ok m" "unread m = be_bytes 8 x @ rest"
  then show "pq_getmsgint64 m = Inr (x, advance m (length (be_bytes 8 x)))"
    using copymsgbytes_unread(1) [of m 8] by (simp add: pq_getmsgint64_def read_be_bytes)
next
  fix m assume "msg_ok m"
  then show "(\<exists>x n. n \<le> length (unread m) \<and> pq_getmsgint64 m = Inr (x, advance m n)) \<or>
      (\<exists>e. pq_getmsgint64 m = protocol_violation e)"
    using copymsgbytes_unread(1) [of m 8] by (auto simp: pq_getmsgint64_def protocol_violation_def)
qed (simp add: sendint_appends)

interpretation text_string: wire_field "\<lambda>junk. pq_sendstring junk to_client" "\<lambda>s. converted to_client s @ [0]"
  "pq_getmsgstring to_server" "\<lambda>s. 0 \<notin> set (converted to_client s) \<and> converted to_server (converted to_client s) = s"
  for to_client to_server
proof
  fix m x rest assume "msg_ok m" "unread m = (converted to_client x @ [0]) @ rest"
    "0 \<notin> set (converted to_client x) \<and> converted to_server (converted to_client x) = x"
  then show "pq_getmsgstring to_server m = Inr (x, advance m (length (converted to_client x @ [0])))"
    by (simp add: getmsgstring_unread c_strlen_def takeWhile_append)
next
  fix m assume "msg_ok m"
  moreover have "0 \<in> set bs \<Longrightarrow> c_strlen bs + 1 \<le> length bs" for bs
    using c_strlen_less [of bs] by simp
  ultimately show "(\<exists>x n. n \<le> length (unread m) \<and> pq_getmsgstring to_server m = Inr (x, advance m n)) \<or>
      (\<exists>e. pq_getmsgstring to_server m = protocol_violation e)"
    by (auto simp: getmsgstring_unread)
qed (simp add: pq_sendstring_def append_binary)

lemma send_field_appends: "si_ok buf \<Longrightarrow> appends (field_enc conv f) buf (send_field junk conv buf f)"
  by (cases f) (simp_all add: int8.app_appends int16.app_appends int32.app_appends int64.app_appends
                  text_string.app_appends)

interpretation fields: appender "\<lambda>junk. send_field junk conv" "field_enc conv" for conv
  by unfold_locales (rule send_field_appends)

lemma get_field_next:
  assumes "msg_ok m" and "field_valid to_client to_server f" and "unread m = field_enc to_client f @ rest"
  shows "get_field to_server f m = Inr (f, advance m (length (field_enc to_client f)))"
  using assms(2,3) int8.get_next [OF assms(1)] int16.get_next [OF assms(1)] int32.get_next [OF assms(1)]
    int64.get_next [OF assms(1)] text_string.get_next [OF assms(1), where to_client = to_client and to_server = to_server]
  by (cases f) simp_all

lemma advance_advance: "advance (advance m j) k = advance m (j + k)"
  by (simp add: advance_def ac_simps)

lemma get_fields_next:
  "msg_ok m \<Longrightarrow> \<forall>f \<in> set fs. field_valid to_client to_server f \<Longrightarrow>
   unread m = concat (map (field_enc to_client) fs) @ rest \<Longrightarrow>
   get_fields to_server fs m = Inr (fs, advance m (length (concat (map (field_enc to_client) fs))))"
proof (induction fs arbitrary: m)
  case Nil
  then show ?case by (simp add: advance_def)
next
  case (Cons f fs)
  let ?n = "length (field_enc to_client f)"
  have f: "get_field to_server f m = Inr (f, advance m ?n)"
    by (rule get_field_next [OF Cons.prems(1)]) (use Cons.prems in simp_all)
  have m: "msg_ok (advance m ?n)" by (rule msg_ok_advance [OF Cons.prems(1)]) (simp add: Cons.prems(3))
  have "unread (advance m ?n) = concat (map (field_enc to_client) fs) @ rest"
    by (simp add: unread_advance [OF Cons.prems(1)] Cons.prems(3))
  from Cons.IH [OF m _ this] Cons.prems(2) f show ?case by (simp add: advance_advance)
qed

section \<open>Properties\<close>

text \<open>
  C29. Messages survive the wire: when the fields of a message (integers of 1, 2, 4 and 8 bytes and
  strings) are appended by the send routines, and the body arrives at a receiver, the get routines
  return the same fields in the same order and the message is consumed to its end. Strings must
  contain no null byte and be restored by the receiver's character set conversion.
\<close>

theorem message_roundtrip:
  assumes "si_ok buf" and "contents buf = []" and "send_fields junk to_client fs buf = Some (Inr buf')"
    and "\<forall>f \<in> set fs. field_valid to_client to_server f"
    and "msg_ok m" and "cursor m = 0" and "contents m = snd (pq_endmessage buf')"
  shows "\<exists>m'. get_fields to_server fs m = Inr (fs, m') \<and> pq_getmsgend m' = Inr ()"
proof -
  have "contents buf' = concat (map (field_enc to_client) fs)"
    using fields.fold_appends [OF assms(1), of to_client fs junk] assms(2,3)
    by (auto simp: send_fields_def appends_def split: if_splits)
  then have m: "unread m = concat (map (field_enc to_client) fs)"
    using assms(6,7) by (simp add: unread_def pq_endmessage_def contents_def)
  then have "int (length (concat (map (field_enc to_client) fs))) = len m"
    using length_unread [OF assms(5)] assms(6) by simp
  with get_fields_next [OF assms(5,4), of "[]"] m assms(6) show ?thesis
    by (auto simp: pq_getmsgend_def advance_def)
qed

text \<open>
  No message makes the get routines read outside it: each returns a value and leaves the cursor
  inside the message, or reports a protocol violation.
\<close>

theorem getmsg_stays_inside:
  assumes "msg_ok m"
  shows "((\<exists>x n. n \<le> length (unread m) \<and> pq_getmsgbyte m = Inr (x, advance m n)) \<or>
      (\<exists>e. pq_getmsgbyte m = protocol_violation e)) \<and>
    ((\<exists>x n. n \<le> length (unread m) \<and> pq_getmsgint m 2 = Inr (x, advance m n)) \<or>
      (\<exists>e. pq_getmsgint m 2 = protocol_violation e)) \<and>
    ((\<exists>x n. n \<le> length (unread m) \<and> pq_getmsgint m 4 = Inr (x, advance m n)) \<or>
      (\<exists>e. pq_getmsgint m 4 = protocol_violation e)) \<and>
    ((\<exists>x n. n \<le> length (unread m) \<and> pq_getmsgint64 m = Inr (x, advance m n)) \<or>
      (\<exists>e. pq_getmsgint64 m = protocol_violation e)) \<and>
    ((\<exists>x n. n \<le> length (unread m) \<and> pq_getmsgstring conv m = Inr (x, advance m n)) \<or>
      (\<exists>e. pq_getmsgstring conv m = protocol_violation e)) \<and>
    ((\<exists>x n. n \<le> length (unread m) \<and> pq_getmsgbytes m (int k) = Inr (x, advance m n)) \<or>
      (\<exists>e. pq_getmsgbytes m (int k) = protocol_violation e))"
  using int8.get_safe [OF assms] int16.get_safe [OF assms] int32.get_safe [OF assms] int64.get_safe [OF assms]
    text_string.get_safe [OF assms] copymsgbytes_unread [OF assms, of k] by auto

lemma example_message_ok: "msg_ok example_message" "cursor example_message = 0"
  "contents example_message = [7, 72, 105, 0, 1, 2]"
  by code_simp+

theorem message_roundtrip_witness:
  "\<exists>buf' m'. send_fields (\<lambda>_. 9) (\<lambda>_. None) [Int8 7, Str [72, 105], Int16 258] example_buffer = Some (Inr buf') \<and>
     get_fields (\<lambda>_. None) [Int8 7, Str [72, 105], Int16 258] example_message =
       Inr ([Int8 7, Str [72, 105], Int16 258], m') \<and> pq_getmsgend m' = Inr ()"
proof -
  let ?fs = "[Int8 7, Str [72, 105], Int16 258]"
  obtain buf' where run: "send_fields (\<lambda>_. 9) (\<lambda>_. None) ?fs example_buffer = Some (Inr buf')"
      and cont: "contents buf' = concat (map (field_enc (\<lambda>_. None)) ?fs)"
    using fields.fold_appends [OF example_buffer_ok, of "\<lambda>_. None" ?fs "\<lambda>_. 9"]
    by (auto simp: send_fields_def appends_def example_buffer_def MaxAllocSize_def converted_def contents_def bytes_at_def)
  have enc: "concat (map (field_enc (\<lambda>_. None)) ?fs) = [7, 72, 105, 0, 1, 2]" by code_simp
  have "contents example_buffer = []" by code_simp
  moreover have "\<forall>f \<in> set ?fs. field_valid (\<lambda>_. None) (\<lambda>_. None) f" by (simp add: converted_def)
  moreover have "contents example_message = snd (pq_endmessage buf')"
    using cont enc example_message_ok(3) by (simp add: pq_endmessage_def contents_def)
  ultimately show ?thesis
    using message_roundtrip [OF example_buffer_ok _ run _ example_message_ok(1,2)] run by blast
qed

theorem getmsg_stays_inside_witness:
  "msg_ok example_message \<and>
   ((\<exists>x n. n \<le> length (unread example_message) \<and> pq_getmsgint64 example_message = Inr (x, advance example_message n)) \<or>
      (\<exists>e. pq_getmsgint64 example_message = protocol_violation e))"
  using example_message_ok(1) getmsg_stays_inside [OF example_message_ok(1)] by blast

end
