(* ===== verification/Pqcomm.thy ===== *)
theory Pqcomm
  imports Pqformat
begin

text \<open>
  Receiving bytes and messages from the client: the input half of
  \<^verbatim>\<open>src/postgres/src/backend/libpq/pqcomm.c\<close>.

  The connection is the list of the outcomes of \<^verbatim>\<open>secure_read\<close>: bytes that arrived together, an interrupted
  call, or a failed one; after them the client has disconnected. Bytes that exceed the room in the
  receive buffer stay in the connection. The abstraction of a connection is the stream of bytes that
  is still to be read, and the lemmas show that the buffered routines read this stream.
\<close>

section \<open>The receive buffer\<close>

datatype read_event = Received "byte list" | Interrupted | Failed

text \<open>\<^verbatim>\<open>PqRecvLength\<close> is the length of the list of bytes in the buffer.\<close>

record Port =
  PqRecvBuffer :: "byte list"
  PqRecvPointer :: nat
  PqCommReadingMsg :: bool
  net :: "read_event list"

definition PQ_RECV_BUFFER_SIZE :: nat where
  "PQ_RECV_BUFFER_SIZE = 8192"

text \<open>The loop of \<^verbatim>\<open>pq_recvbuf\<close>: the bytes of the next successful read, or \<open>None\<close> for \<^verbatim>\<open>EOF\<close>.\<close>

fun recv_loop :: "nat \<Rightarrow> read_event list \<Rightarrow> byte list option \<times> read_event list" where
  "recv_loop room [] = (None, [])"
| "recv_loop room (Interrupted # evs) = recv_loop room evs"
| "recv_loop room (Failed # evs) = (None, evs)"
| "recv_loop room (Received bs # evs) =
     (if take room bs = [] then (None, Received bs # evs)
      else (Some (take room bs), if room < length bs then Received (drop room bs) # evs else evs))"

text \<open>\<open>True\<close> stands for the return value \<^verbatim>\<open>EOF\<close>.\<close>

definition pq_recvbuf :: "Port \<Rightarrow> bool \<times> Port" where
  "pq_recvbuf p =
     (let p = (if PqRecvPointer p > 0
               then p\<lparr>PqRecvBuffer := drop (PqRecvPointer p) (PqRecvBuffer p), PqRecvPointer := 0\<rparr>
               else p);
          (r, evs) = recv_loop (PQ_RECV_BUFFER_SIZE - length (PqRecvBuffer p)) (net p)
      in case r of
           None \<Rightarrow> (True, p\<lparr>net := evs\<rparr>)
         | Some bs \<Rightarrow> (False, p\<lparr>PqRecvBuffer := PqRecvBuffer p @ bs, net := evs\<rparr>))"

text \<open>The number of bytes that may still arrive.\<close>

fun event_size :: "read_event \<Rightarrow> nat" where
  "event_size (Received bs) = length bs"
| "event_size _ = 0"

definition net_size :: "read_event list \<Rightarrow> nat" where
  "net_size evs = sum_list (map event_size evs)"

lemma recv_loop_net_size:
  "recv_loop room evs = (Some bs, evs') \<Longrightarrow> bs \<noteq> [] \<and> net_size evs = length bs + net_size evs'"
  by (induction room evs rule: recv_loop.induct) (auto simp: net_size_def split: if_splits)

lemma pq_recvbuf_net_size:
  assumes "pq_recvbuf p = (False, p')"
  shows "net_size (net p') < net_size (net p)"
  using assms recv_loop_net_size unfolding pq_recvbuf_def Let_def
  by (fastforce split: prod.splits option.splits if_splits)

text \<open>The loop that waits for a byte in the buffer.\<close>

function fill_buffer :: "Port \<Rightarrow> bool \<times> Port" where
  "fill_buffer p =
     (if PqRecvPointer p \<ge> length (PqRecvBuffer p)
      then (case pq_recvbuf p of (True, p) \<Rightarrow> (True, p) | (False, p) \<Rightarrow> fill_buffer p)
      else (False, p))"
  by pat_completeness auto
termination
  by (relation "measure (\<lambda>p. net_size (net p))") (auto dest: pq_recvbuf_net_size [OF sym])

declare fill_buffer.simps [simp del]

definition pq_getbyte :: "Port \<Rightarrow> byte option \<times> Port" where
  "pq_getbyte p =
     (case fill_buffer p of
        (True, p) \<Rightarrow> (None, p)
      | (False, p) \<Rightarrow>
          (Some (PqRecvBuffer p ! PqRecvPointer p), p\<lparr>PqRecvPointer := PqRecvPointer p + 1\<rparr>))"

definition pq_peekbyte :: "Port \<Rightarrow> byte option \<times> Port" where
  "pq_peekbyte p =
     (case fill_buffer p of
        (True, p) \<Rightarrow> (None, p)
      | (False, p) \<Rightarrow> (Some (PqRecvBuffer p ! PqRecvPointer p), p))"

definition pq_buffer_has_data :: "Port \<Rightarrow> bool" where
  "pq_buffer_has_data p \<longleftrightarrow> PqRecvPointer p < length (PqRecvBuffer p)"

lemma fill_buffer_ready: "fill_buffer p = (False, p') \<Longrightarrow> PqRecvPointer p' < length (PqRecvBuffer p')"
  by (induction p rule: fill_buffer.induct)
    (subst (asm) (2) fill_buffer.simps, auto split: if_splits prod.splits bool.splits)

text \<open>The bytes copied so far are \<open>s\<close>; \<open>None\<close> stands for \<^verbatim>\<open>EOF\<close>.\<close>

function pq_getbytes_loop :: "byte list \<Rightarrow> nat \<Rightarrow> Port \<Rightarrow> byte list option \<times> Port" where
  "pq_getbytes_loop s n p =
     (if n > 0 then
        (case fill_buffer p of
           (True, p) \<Rightarrow> (None, p)
         | (False, p) \<Rightarrow>
             let amount = min (length (PqRecvBuffer p) - PqRecvPointer p) n
             in pq_getbytes_loop (s @ take amount (drop (PqRecvPointer p) (PqRecvBuffer p))) (n - amount)
                  (p\<lparr>PqRecvPointer := PqRecvPointer p + amount\<rparr>))
      else (Some s, p))"
  by pat_completeness auto
termination
  by (relation "measure (\<lambda>(s, n, p). n)") (auto dest: fill_buffer_ready [OF sym])

declare pq_getbytes_loop.simps [simp del]

definition pq_getbytes :: "nat \<Rightarrow> Port \<Rightarrow> byte list option \<times> Port" where
  "pq_getbytes n p = pq_getbytes_loop [] n p"

function pq_discardbytes :: "nat \<Rightarrow> Port \<Rightarrow> bool \<times> Port" where
  "pq_discardbytes n p =
     (if n > 0 then
        (case fill_buffer p of
           (True, p) \<Rightarrow> (True, p)
         | (False, p) \<Rightarrow>
             let amount = min (length (PqRecvBuffer p) - PqRecvPointer p) n
             in pq_discardbytes (n - amount) (p\<lparr>PqRecvPointer := PqRecvPointer p + amount\<rparr>))
      else (False, p))"
  by pat_completeness auto
termination
  by (relation "measure (\<lambda>(n, p). n)") (auto dest: fill_buffer_ready [OF sym])

declare pq_discardbytes.simps [simp del]

section \<open>Messages\<close>

text \<open>\<^verbatim>\<open>None\<close> stands for the fatal report that protocol synchronization was lost.\<close>

definition pq_startmsgread :: "Port \<Rightarrow> Port option" where
  "pq_startmsgread p = (if PqCommReadingMsg p then None else Some (p\<lparr>PqCommReadingMsg := True\<rparr>))"

definition pq_endmsgread :: "Port \<Rightarrow> Port" where
  "pq_endmsgread p = p\<lparr>PqCommReadingMsg := False\<rparr>"

definition pq_is_reading_msg :: "Port \<Rightarrow> bool" where
  "pq_is_reading_msg p = PqCommReadingMsg p"

datatype msg_read = MsgOk StringInfoData | MsgEOF | MsgError pg_error

definition pq_getmessage :: "(nat \<Rightarrow> byte) \<Rightarrow> StringInfoData \<Rightarrow> int \<Rightarrow> Port \<Rightarrow> (msg_read \<times> Port) option" where
  "pq_getmessage junk s maxmsglen p =
     (case resetStringInfo s of
        Inl e \<Rightarrow> Some (MsgError e, p)
      | Inr s \<Rightarrow>
     (case pq_getbytes 4 p of
        (None, p) \<Rightarrow> Some (MsgEOF, p)
      | (Some bs, p) \<Rightarrow>
          let n = sint (pg_ntoh32 (le_word bs))
          in if n < 4 \<or> n > maxmsglen then Some (MsgEOF, p)
             else let n = n - 4
                  in if n > 0 then
                       (case enlargeStringInfo junk s n of
                          None \<Rightarrow> None
                        | Some (Inl e) \<Rightarrow>
                            Some (MsgError e, (snd (pq_discardbytes (nat n) p))\<lparr>PqCommReadingMsg := False\<rparr>)
                        | Some (Inr s) \<Rightarrow>
                            (case pq_getbytes (nat n) p of
                               (None, p) \<Rightarrow> Some (MsgEOF, p)
                             | (Some bs, p) \<Rightarrow>
                                 (case rbind (store s 0 bs) (\<lambda>s. store (s\<lparr>len := n\<rparr>) n [0]) of
                                    Inl e \<Rightarrow> Some (MsgError e, p)
                                  | Inr s \<Rightarrow> Some (MsgOk s, p\<lparr>PqCommReadingMsg := False\<rparr>))))
                     else Some (MsgOk s, p\<lparr>PqCommReadingMsg := False\<rparr>)))"

section \<open>The stream\<close>

fun incoming :: "read_event list \<Rightarrow> byte list" where
  "incoming [] = []"
| "incoming (Interrupted # evs) = incoming evs"
| "incoming (Failed # evs) = []"
| "incoming (Received bs # evs) = (if bs = [] then [] else bs @ incoming evs)"

definition stream :: "Port \<Rightarrow> byte list" where
  "stream p = drop (PqRecvPointer p) (PqRecvBuffer p) @ incoming (net p)"

definition port_ok :: "Port \<Rightarrow> bool" where
  "port_ok p \<longleftrightarrow> PqRecvPointer p \<le> length (PqRecvBuffer p) \<and> length (PqRecvBuffer p) \<le> PQ_RECV_BUFFER_SIZE"

definition example_port :: Port where
  "example_port = \<lparr>PqRecvBuffer = [9, 1], PqRecvPointer = 1, PqCommReadingMsg = True,
     net = [Interrupted, Received [2, 3], Received [4]]\<rparr>"

section \<open>Reading the stream\<close>

lemma recv_loop_incoming:
  "0 < room \<Longrightarrow> recv_loop room evs = (r, evs') \<Longrightarrow>
     (case r of None \<Rightarrow> incoming evs = []
      | Some bs \<Rightarrow> bs \<noteq> [] \<and> length bs \<le> room \<and> incoming evs = bs @ incoming evs')"
proof (induction room evs rule: recv_loop.induct)
  case (4 room bs evs)
  then show ?case using append_take_drop_id [of room bs] by (auto split: if_splits)
qed (auto split: option.splits)

lemma pq_recvbuf_stream:
  assumes "port_ok p" and "PqRecvPointer p \<ge> length (PqRecvBuffer p)" and "pq_recvbuf p = (eof, p')"
  shows "PqCommReadingMsg p' = PqCommReadingMsg p \<and>
    (if eof then stream p = [] else stream p' = stream p \<and> port_ok p')"
proof -
  have empty: "(if PqRecvPointer p > 0
      then p\<lparr>PqRecvBuffer := drop (PqRecvPointer p) (PqRecvBuffer p), PqRecvPointer := 0\<rparr> else p) =
      p\<lparr>PqRecvBuffer := [], PqRecvPointer := 0\<rparr>"
    using assms(1,2) by (cases p) (simp add: port_ok_def)
  obtain r evs where r: "recv_loop 8192 (net p) = (r, evs)" by fastforce
  show ?thesis
    using assms recv_loop_incoming [OF _ r] unfolding pq_recvbuf_def empty
    by (cases r) (auto simp: r Let_def PQ_RECV_BUFFER_SIZE_def stream_def port_ok_def)
qed

lemma fill_buffer_stream:
  "port_ok p \<Longrightarrow> fill_buffer p = (eof, p') \<Longrightarrow>
     PqCommReadingMsg p' = PqCommReadingMsg p \<and>
     (if eof then stream p = []
      else stream p' = stream p \<and> port_ok p' \<and> PqRecvPointer p' < length (PqRecvBuffer p'))"
proof (induction "net_size (net p)" arbitrary: p rule: less_induct)
  case less
  show ?case
  proof (cases "PqRecvPointer p \<ge> length (PqRecvBuffer p)")
    case empty: True
    obtain e q where q: "pq_recvbuf p = (e, q)" by fastforce
    note spec = pq_recvbuf_stream [OF less.prems(1) empty q]
    show ?thesis
    proof (cases e)
      case True
      then show ?thesis using spec less.prems(2) empty q by (subst (asm) fill_buffer.simps) auto
    next
      case False
      with less.prems(2) empty q have "fill_buffer q = (eof, p')" by (subst (asm) fill_buffer.simps) simp
      with less.hyps [of q] pq_recvbuf_net_size [of p q] q False spec show ?thesis by (auto split: if_splits)
    qed
  next
    case False
    then show ?thesis using less.prems by (subst (asm) fill_buffer.simps) auto
  qed
qed

lemma pq_getbyte_stream:
  assumes "port_ok p"
  shows "case stream p of
      [] \<Rightarrow> \<exists>p'. pq_getbyte p = (None, p')
    | b # bs \<Rightarrow> \<exists>p'. pq_getbyte p = (Some b, p') \<and> stream p' = bs \<and> port_ok p' \<and> PqCommReadingMsg p' = PqCommReadingMsg p"
proof -
  obtain eof q where q: "fill_buffer p = (eof, q)" by fastforce
  note spec = fill_buffer_stream [OF assms q]
  show ?thesis
  proof (cases eof)
    case True
    then show ?thesis using spec q by (simp add: pq_getbyte_def)
  next
    case False
    then have "stream p = stream q" "PqRecvPointer q < length (PqRecvBuffer q)" using spec by simp_all
    then have "stream p = PqRecvBuffer q ! PqRecvPointer q # drop (Suc (PqRecvPointer q)) (PqRecvBuffer q) @ incoming (net q)"
      by (simp add: stream_def Cons_nth_drop_Suc [symmetric])
    with False spec q show ?thesis by (auto simp: pq_getbyte_def stream_def port_ok_def)
  qed
qed

lemma chunk_of_stream:
  assumes "stream p = stream q" and "k \<le> length (drop (PqRecvPointer q) (PqRecvBuffer q))"
  shows "stream p = take k (drop (PqRecvPointer q) (PqRecvBuffer q)) @ stream (q\<lparr>PqRecvPointer := PqRecvPointer q + k\<rparr>)"
proof -
  have e: "drop (PqRecvPointer q) (PqRecvBuffer q) =
      take k (drop (PqRecvPointer q) (PqRecvBuffer q)) @ drop (PqRecvPointer q + k) (PqRecvBuffer q)"
    using append_take_drop_id [of k "drop (PqRecvPointer q) (PqRecvBuffer q)"] by (simp add: drop_drop add.commute)
  have "stream q = take k (drop (PqRecvPointer q) (PqRecvBuffer q)) @ stream (q\<lparr>PqRecvPointer := PqRecvPointer q + k\<rparr>)"
    unfolding stream_def using e by simp
  with assms(1) show ?thesis by simp
qed

lemma pq_getbytes_step [consumes 2, case_names eof chunk]:
  assumes "port_ok p" and "n > 0"
  obtains (eof) p' where "stream p = []" "\<And>s. pq_getbytes_loop s n p = (None, p')" "pq_discardbytes n p = (True, p')"
      "PqCommReadingMsg p' = PqCommReadingMsg p"
    | (chunk) c q where "c \<noteq> []" "length c \<le> n" "stream p = c @ stream q" "port_ok q"
      "PqCommReadingMsg q = PqCommReadingMsg p"
      "\<And>s. pq_getbytes_loop s n p = pq_getbytes_loop (s @ c) (n - length c) q"
      "pq_discardbytes n p = pq_discardbytes (n - length c) q"
proof -
  obtain e q where q: "fill_buffer p = (e, q)" by fastforce
  note spec = fill_buffer_stream [OF assms(1) q]
  show thesis
  proof (cases e)
    case True
    show thesis
      by (rule eof [of q])
        (use spec q True assms(2) in \<open>simp_all add: pq_getbytes_loop.simps [of _ n p] pq_discardbytes.simps [of n p]\<close>)
  next
    case False
    let ?k = "min (length (PqRecvBuffer q) - PqRecvPointer q) n"
    let ?c = "take ?k (drop (PqRecvPointer q) (PqRecvBuffer q))"
    have len: "length ?c = ?k" by simp
    have c1: "stream p = ?c @ stream (q\<lparr>PqRecvPointer := PqRecvPointer q + ?k\<rparr>)"
      by (rule chunk_of_stream) (use spec False in simp_all)
    have c2: "?c \<noteq> []" using spec False assms(2) by auto
    have c3: "port_ok (q\<lparr>PqRecvPointer := PqRecvPointer q + ?k\<rparr>)" using spec False by (auto simp: port_ok_def)
    have c4: "pq_getbytes_loop s n p = pq_getbytes_loop (s @ ?c) (n - length ?c) (q\<lparr>PqRecvPointer := PqRecvPointer q + ?k\<rparr>)" for s
      unfolding len using q False assms(2) by (subst pq_getbytes_loop.simps) (simp add: Let_def)
    have c5: "pq_discardbytes n p = pq_discardbytes (n - length ?c) (q\<lparr>PqRecvPointer := PqRecvPointer q + ?k\<rparr>)"
      unfolding len using q False assms(2) by (subst pq_discardbytes.simps) (simp add: Let_def)
    show thesis
      by (rule chunk [OF c2 _ c1 c3 _ c4 c5]) (use spec False in simp_all)
  qed
qed

lemma pq_getbytes_loop_stream:
  "port_ok p \<Longrightarrow>
     (if n \<le> length (stream p)
      then \<exists>p'. pq_getbytes_loop s n p = (Some (s @ take n (stream p)), p') \<and> stream p' = drop n (stream p) \<and>
             port_ok p' \<and> PqCommReadingMsg p' = PqCommReadingMsg p
      else \<exists>p'. pq_getbytes_loop s n p = (None, p') \<and> PqCommReadingMsg p' = PqCommReadingMsg p)"
proof (induction n arbitrary: s p rule: less_induct)
  case (less n)
  show ?case
  proof (cases "n > 0")
    case True
    from less.prems True show ?thesis
    proof (cases rule: pq_getbytes_step)
      case (eof p')
      then show ?thesis using True by simp
    next
      case (chunk c q)
      then have "n - length c < n" by (simp add: True)
      from less.IH [OF this chunk(4), of "s @ c"] chunk show ?thesis by (auto split: if_splits)
    qed
  next
    case False
    then show ?thesis using less.prems by (simp add: pq_getbytes_loop.simps [of _ 0 p])
  qed
qed

lemma pq_getbytes_stream:
  assumes "port_ok p"
  shows "n \<le> length (stream p) \<Longrightarrow> \<exists>p'. pq_getbytes n p = (Some (take n (stream p)), p') \<and>
      stream p' = drop n (stream p) \<and> port_ok p' \<and> PqCommReadingMsg p' = PqCommReadingMsg p"
    and "n > length (stream p) \<Longrightarrow> \<exists>p'. pq_getbytes n p = (None, p')"
  using pq_getbytes_loop_stream [OF assms, of n "[]"] by (auto simp: pq_getbytes_def)

section \<open>Reading messages\<close>

text \<open>The length word and the body of a message, as the client sends them.\<close>

lemma length_word:
  assumes "int (length body) + 4 \<le> INT_MAX"
  shows "sint (pg_ntoh32 (le_word (be_bytes 4 (of_int (int (length body) + 4) :: word32)))) = int (length body) + 4"
proof -
  have "sint (of_int n :: word32) = n" if "0 \<le> n" "n \<le> INT_MAX" for n
    using that by (simp add: signed_of_int signed_take_bit_int_eq_self INT_MAX_def)
  then show ?thesis unfolding read_be_bytes using assms by (meson add_nonneg_nonneg of_nat_0_le_iff zero_le_numeral)
qed

lemma store_body:
  assumes "si_ok s" and "len s = 0" and "int (length body) < maxlen s"
  shows "\<exists>t. rbind (store s 0 body) (\<lambda>s. store (s\<lparr>len := int (length body)\<rparr>) (int (length body)) [0]) = Inr t \<and>
    si_ok t \<and> contents t = body \<and> terminated t \<and> cursor t = cursor s"
proof -
  obtain t where t: "store s (len s) body = Inr t" "si_ok (t\<lparr>len := len t + int (length body)\<rparr>)"
      "contents (t\<lparr>len := len t + int (length body)\<rparr>) = contents s @ body" "cursor t = cursor s" "len t = len s"
    using store_append [OF assms(1,1) refl, of body] assms(2,3) by auto
  let ?t = "t\<lparr>len := int (length body)\<rparr>"
  have ok: "si_ok ?t" "contents ?t = body" using t(2,3,5) assms(2) by (simp_all add: contents_def bytes_at_def)
  obtain u where "store ?t (len ?t) [0] = Inr u" "si_ok u" "contents u = contents ?t" "terminated u" "cursor u = cursor ?t"
    using store_terminator [OF ok(1)] by blast
  with t(1,4) ok(2) assms(2) show ?thesis by simp
qed

lemma pq_getmessage_next:
  assumes s: "si_ok s" and p: "port_ok p"
    and str: "stream p = be_bytes 4 (of_int (int (length body) + 4) :: word32) @ body @ rest"
    and size: "int (length body) + 4 \<le> maxmsglen" "maxmsglen < MaxAllocSize"
  shows "\<exists>m p'. pq_getmessage junk s maxmsglen p = Some (MsgOk m, p') \<and> msg_ok m \<and> cursor m = 0 \<and>
    contents m = body \<and> stream p' = rest \<and> port_ok p' \<and> \<not> PqCommReadingMsg p'"
proof -
  obtain s0 where s0: "resetStringInfo s = Inr s0" "si_ok s0" "contents s0 = []" "terminated s0" "cursor s0 = 0"
      "len s0 = 0"
    using reset_buffer [OF s] by blast
  obtain q where q: "pq_getbytes 4 p = (Some (be_bytes 4 (of_int (int (length body) + 4) :: word32)), q)"
      "stream q = body @ rest" "port_ok q"
    using pq_getbytes_stream(1) [OF p, of 4] str by auto
  have n: "sint (pg_ntoh32 (le_word (be_bytes 4 (of_int (int (length body) + 4) :: word32)))) = int (length body) + 4"
    by (rule length_word) (use size in \<open>simp add: size_defs\<close>)
  show ?thesis
  proof (cases "body = []")
    case True
    then show ?thesis
      using s0 q n size by (simp add: pq_getmessage_def msg_ok_def Let_def) (simp add: stream_def port_ok_def)
  next
    case False
    obtain s1 where s1: "enlargeStringInfo junk s0 (int (length body)) = Some (Inr s1)" "si_ok s1" "len s1 = len s0"
        "cursor s1 = cursor s0" "len s0 + int (length body) < maxlen s1"
      using enlarge_fits [OF s0(2), of "int (length body)" junk] s0(6) size by auto
    obtain q' where q': "pq_getbytes (length body) q = (Some body, q')" "stream q' = rest" "port_ok q'"
      using pq_getbytes_stream(1) [OF q(3), of "length body"] q(2) by auto
    obtain t where t: "rbind (store s1 0 body) (\<lambda>s. store (s\<lparr>len := int (length body)\<rparr>) (int (length body)) [0]) = Inr t"
        "si_ok t" "contents t = body" "terminated t" "cursor t = cursor s1"
      using store_body [OF s1(2), of body] s1(3,5) s0(6) by auto
    have "len t = int (length body)" using length_contents [OF t(2)] t(3) by simp
    then show ?thesis
      using s0 q n size s1 q' t False
      by (simp add: pq_getmessage_def msg_ok_def Let_def) (simp add: stream_def port_ok_def)
  qed
qed

section \<open>Properties\<close>

text \<open>
  C28. However the bytes of the client are cut into pieces by the network, and whether or not reads are
  interrupted, the buffered routines deliver the stream: a byte, or exactly the requested number of
  bytes, in order and without loss; and end-of-file exactly when the stream does not have them.
\<close>

theorem reads_follow_stream:
  assumes "port_ok p"
  shows "(case stream p of
      [] \<Rightarrow> \<exists>p'. pq_getbyte p = (None, p')
    | b # bs \<Rightarrow> \<exists>p'. pq_getbyte p = (Some b, p') \<and> stream p' = bs \<and> port_ok p') \<and>
    (if n \<le> length (stream p)
     then \<exists>p'. pq_getbytes n p = (Some (take n (stream p)), p') \<and> stream p' = drop n (stream p) \<and> port_ok p'
     else \<exists>p'. pq_getbytes n p = (None, p'))"
  using pq_getbyte_stream [OF assms] pq_getbytes_stream [OF assms, of n] by (auto split: list.splits)

theorem reads_follow_stream_witness:
  "port_ok example_port \<and> stream example_port = [1, 2, 3, 4] \<and>
   (\<exists>p'. pq_getbytes 3 example_port = (Some [1, 2, 3], p') \<and> stream p' = [4])"
proof -
  have ok: "port_ok example_port" by (simp add: port_ok_def example_port_def PQ_RECV_BUFFER_SIZE_def)
  have str: "stream example_port = [1, 2, 3, 4]" by (simp add: stream_def example_port_def)
  show ?thesis using ok str reads_follow_stream [OF ok, of 3] by auto
qed

end
