(* ===== verification/Abac.thy ===== *)
theory Abac
  imports Prelude
begin

text \<open>
  The attribute-based access check: the request text and decision handling of
  \<^verbatim>\<open>src/abacml/src/main/java/com/yasusoft/abacml/ABACML.java\<close>, and the code that the repository adds to the
  simple-query case of \<^verbatim>\<open>PostgresMain\<close> in \<^verbatim>\<open>src/postgres/src/backend/tcop/postgres.c\<close>, which derives an action
  and a resource from the query text and asks the Java side.

  C strings are lists of bytes without their terminator. Fixed-size arrays and the \<^verbatim>\<open>malloc\<close> block of the
  hook are checked: writing past them, reading an unset array element or an unset variable is an
  undefined-behaviour value. What \<^verbatim>\<open>malloc\<close> hands out for a requested size, the Java virtual machine
  and the Balana decision engine are parameters. Java strings are HOL strings; a thrown exception
  is the value \<open>None\<close>.
\<close>

section \<open>Requests for the decision engine\<close>

definition LF :: string where
  "LF = [CHR 0x0A]"

definition attribute_open :: "string \<Rightarrow> string \<Rightarrow> string" where
  "attribute_open attributeId type =
     ''<Attribute AttributeId='' @ [CHR 0x22] @ attributeId @ [CHR 0x22] @ '' IncludeInResult='' @ [CHR 0x22] @ ''false'' @
     [CHR 0x22] @ ''>'' @ LF @ ''<AttributeValue DataType='' @ [CHR 0x22] @ ''http://www.w3.org/2001/XMLSchema#'' @ type @
     [CHR 0x22] @ ''>''"

definition attribute_close :: string where
  "attribute_close = ''</AttributeValue>'' @ LF @ ''</Attribute>'' @ LF"

definition attributes_open :: "string \<Rightarrow> string" where
  "attributes_open category = ''<Attributes Category='' @ [CHR 0x22] @ category @ [CHR 0x22] @ ''>'' @ LF"

definition attributes_close :: string where
  "attributes_close = ''</Attributes>'' @ LF"

definition request_open :: string where
  "request_open =
     ''<Request xmlns='' @ [CHR 0x22] @ ''urn:oasis:names:tc:xacml:3.0:core:schema:wd-17'' @ [CHR 0x22] @
     '' CombinedDecision='' @ [CHR 0x22] @ ''false'' @ [CHR 0x22] @ '' ReturnPolicyIdList='' @ [CHR 0x22] @ ''false'' @
     [CHR 0x22] @ ''>'' @ LF"

definition request_close :: string where
  "request_close = ''</Request>''"

definition subject_category :: string where
  "subject_category = ''urn:oasis:names:tc:xacml:1.0:subject-category:access-subject''"

definition action_category :: string where
  "action_category = ''urn:oasis:names:tc:xacml:3.0:attribute-category:action''"

definition resource_category :: string where
  "resource_category = ''urn:oasis:names:tc:xacml:3.0:attribute-category:resource''"

definition environment_category :: string where
  "environment_category = ''urn:oasis:names:tc:xacml:3.0:attribute-category:environment''"

definition subject_id :: string where
  "subject_id = ''urn:oasis:names:tc:xacml:1.0:subject:subject-id''"

definition action_id :: string where
  "action_id = ''urn:oasis:names:tc:xacml:1.0:action:action-id''"

definition resource_id :: string where
  "resource_id = ''urn:oasis:names:tc:xacml:1.0:resource:resource-id''"

definition createXACMLRequest :: "string \<Rightarrow> string \<Rightarrow> string \<Rightarrow> string" where
  "createXACMLRequest nm action uri =
     request_open @
     attributes_open subject_category @ attribute_open subject_id ''string'' @ nm @ attribute_close @ attributes_close @
     attributes_open action_category @ attribute_open action_id ''string'' @ action @ attribute_close @ attributes_close @
     attributes_open resource_category @ attribute_open resource_id ''string'' @ uri @ attribute_close @ attributes_close @
     request_close"

text \<open>\<^verbatim>\<open>String.replace\<close> of a single character by a string, everywhere.\<close>

definition replace_char :: "char \<Rightarrow> string \<Rightarrow> string \<Rightarrow> string" where
  "replace_char c r s = concat (map (\<lambda>x. if x = c then r else [x]) s)"

definition escapeXml :: "string \<Rightarrow> string" where
  "escapeXml v =
     replace_char (CHR 0x27) ''&apos;'' (replace_char (CHR 0x22) ''&quot;''
       (replace_char (CHR ''>'') ''&gt;'' (replace_char (CHR ''<'') ''&lt;'' (replace_char (CHR ''&'') ''&amp;'' v))))"

definition appendStringAttribute :: "string \<Rightarrow> string \<Rightarrow> string option \<Rightarrow> string" where
  "appendStringAttribute sb attributeId v =
     (case v of None \<Rightarrow> sb
      | Some v \<Rightarrow> sb @ attribute_open attributeId ''string'' @ escapeXml v @ attribute_close)"

text \<open>Decimal digits, as \<^verbatim>\<open>StringBuilder.append(Integer)\<close> and \<^verbatim>\<open>%ld\<close> print them.\<close>

fun nat_digits :: "nat \<Rightarrow> string" where
  "nat_digits n =
     (if n < 10 then [char_of (48 + n)] else nat_digits (n div 10) @ [char_of (48 + n mod 10)])"

declare nat_digits.simps [simp del]

definition int_digits :: "int \<Rightarrow> string" where
  "int_digits i = (if i < 0 then ''-'' @ nat_digits (nat (- i)) else nat_digits (nat i))"

definition appendIntegerAttribute :: "string \<Rightarrow> string \<Rightarrow> int option \<Rightarrow> string" where
  "appendIntegerAttribute sb attributeId v =
     (case v of None \<Rightarrow> sb
      | Some v \<Rightarrow> sb @ attribute_open attributeId ''integer'' @ int_digits v @ attribute_close)"

record canonical_request =
  subjectId :: "string option"
  subjectRole :: "string option"
  subjectDepartment :: "string option"
  subjectClearance :: "int option"
  resourceId :: "string option"
  resourceOwner :: "string option"
  resourceDepartment :: "string option"
  resourceClassification :: "int option"
  request_action :: "string option"
  envNetwork :: "string option"
  envHour :: "int option"

definition createCanonicalXACMLRequest :: "canonical_request \<Rightarrow> string" where
  "createCanonicalXACMLRequest r =
     (let sb = request_open;
          sb = sb @ attributes_open subject_category;
          sb = appendStringAttribute sb subject_id (subjectId r);
          sb = appendStringAttribute sb ''urn:uoa:canvas:subject:role'' (subjectRole r);
          sb = appendStringAttribute sb ''urn:uoa:canvas:subject:department'' (subjectDepartment r);
          sb = appendIntegerAttribute sb ''urn:uoa:canvas:subject:clearance'' (subjectClearance r);
          sb = sb @ attributes_close;
          sb = sb @ attributes_open action_category;
          sb = appendStringAttribute sb action_id (request_action r);
          sb = sb @ attributes_close;
          sb = sb @ attributes_open resource_category;
          sb = appendStringAttribute sb resource_id (resourceId r);
          sb = appendStringAttribute sb ''urn:uoa:canvas:resource:owner'' (resourceOwner r);
          sb = appendStringAttribute sb ''urn:uoa:canvas:resource:department'' (resourceDepartment r);
          sb = appendIntegerAttribute sb ''urn:uoa:canvas:resource:classification'' (resourceClassification r);
          sb = sb @ attributes_close;
          sb = sb @ attributes_open environment_category;
          sb = appendStringAttribute sb ''urn:uoa:canvas:environment:network'' (envNetwork r);
          sb = appendIntegerAttribute sb ''urn:uoa:canvas:environment:hour'' (envHour r);
          sb = sb @ attributes_close
      in sb @ request_close)"

section \<open>Decisions\<close>

datatype xacml_decision =
  DECISION_PERMIT | DECISION_DENY | DECISION_NOT_APPLICABLE | DECISION_INDETERMINATE

text \<open>
  What reading a response as a \<^verbatim>\<open>ResponseCtx\<close> gives: the decisions of its results, a \<^verbatim>\<open>ParsingException\<close>,
  or another exception.
\<close>

datatype response_ctx = Results "xacml_decision list" | ParsingException | OtherException

text \<open>The decision engine: evaluation of a request text, and the reading of a response text.\<close>

record balana =
  pdp_evaluate :: "string \<Rightarrow> string"
  response_of :: "string \<Rightarrow> response_ctx"

definition Check_ABAC_Permission :: "balana \<Rightarrow> string \<Rightarrow> string \<Rightarrow> string \<Rightarrow> bool option" where
  "Check_ABAC_Permission b nm action uri =
     (case response_of b (pdp_evaluate b (createXACMLRequest nm action uri)) of
        Results (d # _) \<Rightarrow> Some (d = DECISION_PERMIT)
      | Results [] \<Rightarrow> None
      | ParsingException \<Rightarrow> Some False
      | OtherException \<Rightarrow> None)"

definition decisionToString :: "balana \<Rightarrow> string \<Rightarrow> string option" where
  "decisionToString b response =
     (case response_of b response of
        Results (d # _) \<Rightarrow>
          Some (if d = DECISION_PERMIT then ''Permit''
                else if d = DECISION_DENY then ''Deny''
                else if d = DECISION_NOT_APPLICABLE then ''NotApplicable''
                else ''Indeterminate'')
      | Results [] \<Rightarrow> None
      | ParsingException \<Rightarrow> Some ''Indeterminate''
      | OtherException \<Rightarrow> None)"

definition Evaluate_ABAC_Decision :: "balana \<Rightarrow> canonical_request \<Rightarrow> string option" where
  "Evaluate_ABAC_Decision b r = decisionToString b (pdp_evaluate b (createCanonicalXACMLRequest r))"

section \<open>The arguments of a check\<close>

abbreviation ascii :: "string \<Rightarrow> byte list" where
  "ascii s \<equiv> map of_char s"

text \<open>Appending to a character array of a fixed size, as \<^verbatim>\<open>strcat\<close> and \<^verbatim>\<open>sprintf\<close> do.\<close>

definition strcat :: "nat \<Rightarrow> byte list \<Rightarrow> byte list \<Rightarrow> byte list pg_result" where
  "strcat arraysize dst src =
     (if length dst + length src + 1 > arraysize then c_undefined ''write outside an array'' else Inr (dst @ src))"

definition upcase_byte :: "byte \<Rightarrow> byte" where
  "upcase_byte c = (if of_char (CHR ''a'') \<le> c \<and> c \<le> of_char (CHR ''z'') then c - 32 else c)"

text \<open>\<^verbatim>\<open>malloc\<close> for \<^verbatim>\<open>strlen(query_string+1)\<close> bytes, \<^verbatim>\<open>strcpy\<close> and the upper-case loop.\<close>

definition copy_query :: "(nat \<Rightarrow> nat) \<Rightarrow> byte list \<Rightarrow> byte list pg_result" where
  "copy_query usable query_string =
     (if query_string = [] then c_undefined ''read behind the end of a string''
      else if length query_string + 1 > usable (length query_string - 1)
      then c_undefined ''write outside an allocated block''
      else Inr (map upcase_byte query_string))"

text \<open>Repeated \<^verbatim>\<open>strtok\<close> with the delimiter set that holds only the blank.\<close>

function strtok_all :: "byte list \<Rightarrow> byte list list" where
  "strtok_all s =
     (let s = dropWhile (\<lambda>c. c = 32) s
      in if s = [] then []
         else takeWhile (\<lambda>c. c \<noteq> 32) s # strtok_all (dropWhile (\<lambda>c. c \<noteq> 32) s))"
  by pat_completeness auto
termination
proof (relation "measure length")
  fix s x :: "byte list"
  assume x: "x = dropWhile (\<lambda>c. c = 32) s" "x \<noteq> []"
  have "length (dropWhile (\<lambda>c. c \<noteq> 32) x) < length x"
  proof (cases x)
    case (Cons c cs)
    then have "c \<noteq> 32" using hd_dropWhile [of "\<lambda>c. c = 32" s] x by auto
    then show ?thesis unfolding Cons using length_dropWhile_le [of "\<lambda>c. c \<noteq> 32" cs] by (simp add: le_imp_less_Suc)
  qed (use x in simp)
  also have "length x \<le> length s" unfolding x(1) by (rule length_dropWhile_le)
  finally show "(dropWhile (\<lambda>c. c \<noteq> 32) x, s) \<in> measure length" by simp
qed (rule wf_measure)

declare strtok_all.simps [simp del]

text \<open>The tokens in \<^verbatim>\<open>parse[50]\<close>.\<close>

definition split_query :: "byte list \<Rightarrow> byte list list pg_result" where
  "split_query s =
     (if length (strtok_all s) > 50 then c_undefined ''write outside an array'' else Inr (strtok_all s))"

definition strip_semicolon :: "byte list \<Rightarrow> byte list" where
  "strip_semicolon t = (if last t = of_char (CHR '';'') then butlast t else t)"

text \<open>The action and the resource for a query.\<close>

definition abac_arguments ::
  "(nat \<Rightarrow> nat) \<Rightarrow> byte list \<Rightarrow> byte list \<Rightarrow> (byte list \<times> byte list) pg_result" where
  "abac_arguments usable dbname query_string =
     rbind (strcat 100 (ascii ''/UOA_CANVAS_LMS/'') dbname) (\<lambda>uri.
     rbind (copy_query usable query_string) (\<lambda>new_query_string.
     rbind (split_query new_query_string) (\<lambda>parse.
       if parse = [] then c_undefined ''read of an unset array element''
       else if hd (parse ! 0) = of_char (CHR ''S'')
       then (if length parse \<ge> 4
             then rbind (strcat 100 [] (ascii ''/'' @ strip_semicolon (parse ! 3) @ ascii ''/'' @ parse ! 1)) (\<lambda>temp.
                  rbind (strcat 100 uri temp) (\<lambda>uri. Inr (ascii ''Get'', uri)))
             else Inr (ascii ''Get'', uri))
       else Inr ([], uri))))"

section \<open>The decision\<close>

text \<open>
  The outcome of the JNI calls: \<^verbatim>\<open>JNI_CreateJavaVM\<close>, \<^verbatim>\<open>JNI_GetCreatedJavaVMs\<close>, \<^verbatim>\<open>AttachCurrentThread\<close>, the class
  and method lookups, and the call of \<^verbatim>\<open>Check_ABAC_Permission\<close> (\<open>None\<close> when it throws).
\<close>

datatype jni_status = JNI_OK | JNI_EEXIST | JNI_ERR

record jni =
  JNI_CreateJavaVM :: jni_status
  JNI_GetCreatedJavaVMs :: jni_status
  AttachCurrentThread :: jni_status
  FindClass :: bool
  GetStaticMethodID :: bool
  CallStaticBooleanMethod :: "byte list \<Rightarrow> byte list \<Rightarrow> byte list \<Rightarrow> bool option"

definition jvm_status :: "jni \<Rightarrow> jni_status" where
  "jvm_status j =
     (if JNI_CreateJavaVM j = JNI_EEXIST
      then (if JNI_GetCreatedJavaVMs j = JNI_OK then AttachCurrentThread j else JNI_GetCreatedJavaVMs j)
      else JNI_CreateJavaVM j)"

text \<open>
  \<^verbatim>\<open>decision\<close> after the block: \<open>Inr None\<close> when no branch has assigned it. The value of a call that
  threw an exception is undefined.
\<close>

definition abac_decision ::
  "(nat \<Rightarrow> nat) \<Rightarrow> jni \<Rightarrow> byte list \<Rightarrow> byte list \<Rightarrow> byte list \<Rightarrow> bool option pg_result" where
  "abac_decision usable j username dbname query_string =
     (if jvm_status j = JNI_OK \<and> FindClass j \<and> GetStaticMethodID j
      then rbind (abac_arguments usable dbname query_string) (\<lambda>(action, uri).
             (case CallStaticBooleanMethod j username action uri of
                Some result \<Rightarrow> Inr (Some result)
              | None \<Rightarrow> c_undefined ''result of a call with a pending exception''))
      else Inr None)"

text \<open>What an XML reader makes of the five predefined entities.\<close>

fun unescapeXml :: "string \<Rightarrow> string" where
  "unescapeXml [] = []"
| "unescapeXml (c # s) =
     (if c = CHR ''&'' then
        (if take 4 s = ''amp;'' then CHR ''&'' # unescapeXml (drop 4 s)
         else if take 3 s = ''lt;'' then CHR ''<'' # unescapeXml (drop 3 s)
         else if take 3 s = ''gt;'' then CHR ''>'' # unescapeXml (drop 3 s)
         else if take 5 s = ''quot;'' then CHR 0x22 # unescapeXml (drop 5 s)
         else if take 5 s = ''apos;'' then CHR 0x27 # unescapeXml (drop 5 s)
         else c # unescapeXml s)
      else c # unescapeXml s)"

definition escape_char :: "char \<Rightarrow> string" where
  "escape_char c =
     (if c = CHR ''&'' then ''&amp;'' else if c = CHR ''<'' then ''&lt;'' else if c = CHR ''>'' then ''&gt;''
      else if c = CHR 0x22 then ''&quot;'' else if c = CHR 0x27 then ''&apos;'' else [c])"

text \<open>The arguments in terms of the tokens of the query.\<close>

definition token_arguments :: "byte list \<Rightarrow> byte list list \<Rightarrow> (byte list \<times> byte list) pg_result" where
  "token_arguments uri toks =
     (if hd (toks ! 0) = of_char (CHR ''S'')
      then (if length toks \<ge> 4
            then rbind (strcat 100 [] (ascii ''/'' @ strip_semicolon (toks ! 3) @ ascii ''/'' @ toks ! 1)) (\<lambda>temp.
                 rbind (strcat 100 uri temp) (\<lambda>uri. Inr (ascii ''Get'', uri)))
            else Inr (ascii ''Get'', uri))
      else Inr ([], uri))"

section \<open>Escaping\<close>

lemma replace_char_simps: "replace_char c r [] = []"
  "replace_char c r (x # s) = (if x = c then r else [x]) @ replace_char c r s"
  "replace_char c r (s @ t) = replace_char c r s @ replace_char c r t"
  by (simp_all add: replace_char_def)

lemma escapeXml_char: "escapeXml [c] = escape_char c"
  by (simp add: escapeXml_def escape_char_def replace_char_simps)

lemma escapeXml_eq: "escapeXml v = concat (map escape_char v)"
proof (induction v)
  case Nil
  show ?case by (simp add: escapeXml_def replace_char_simps)
next
  case (Cons c v)
  have "escapeXml ([c] @ v) = escapeXml [c] @ escapeXml v"
    by (simp only: escapeXml_def replace_char_simps(3))
  with Cons show ?case by (simp add: escapeXml_char)
qed

lemma unescape_escape_char: "unescapeXml (escape_char c @ s) = c # unescapeXml s"
  by (simp add: escape_char_def)

section \<open>Tokens\<close>

lemma strtok_all_Nil [simp]: "strtok_all [] = []"
  by (simp add: strtok_all.simps)

lemma strtok_all_blank [simp]: "strtok_all (32 # s) = strtok_all s"
  by (subst (1 2) strtok_all.simps) simp

lemma strtok_all_token:
  assumes "t \<noteq> []" and "32 \<notin> set t"
  shows "strtok_all (t @ 32 # s) = t # strtok_all s" and "strtok_all t = [t]"
proof -
  have drop: "dropWhile (\<lambda>c. c = 32) (t @ u) = t @ u" for u using assms by (cases t) auto
  have t: "takeWhile (\<lambda>c. c \<noteq> 32) (t @ 32 # s) = t" "dropWhile (\<lambda>c. c \<noteq> 32) (t @ 32 # s) = 32 # s"
    using assms(2) by (auto simp: takeWhile_append dropWhile_append)
  have t': "takeWhile (\<lambda>c. c \<noteq> 32) t = t" "dropWhile (\<lambda>c. c \<noteq> 32) t = []"
    using assms(2) by (auto simp: takeWhile_eq_all_conv dropWhile_eq_Nil_conv)
  show "strtok_all (t @ 32 # s) = t # strtok_all s"
    using assms(1) by (subst strtok_all.simps) (simp add: drop t Let_def)
  show "strtok_all t = [t]"
    using assms(1) drop [of "[]"] by (subst strtok_all.simps) (simp add: t' Let_def)
qed

lemma strtok_all_blanks [simp]: "strtok_all (replicate n 32 @ v) = strtok_all v"
  by (induction n) simp_all

lemma strtok_split [case_names blank last more]:
  obtains (blank) n where "s = replicate n 32 @ []"
    | (last) n t where "s = replicate n 32 @ t" "t \<noteq> []" "32 \<notin> set t"
    | (more) n t r where "s = replicate n 32 @ t @ 32 # r" "t \<noteq> []" "32 \<notin> set t"
proof -
  have "\<exists>n v. s = replicate n 32 @ v \<and> (v = [] \<or> hd v \<noteq> 32)"
  proof (induction s)
    case (Cons c s)
    then obtain n v where IH: "s = replicate n 32 @ v" "v = [] \<or> hd v \<noteq> 32" by blast
    show ?case
    proof (cases "c = 32")
      case True
      with IH show ?thesis by (intro exI [of _ "Suc n"] exI [of _ v]) simp
    next
      case False
      then show ?thesis by (intro exI [of _ 0] exI [of _ "c # s"]) simp
    qed
  qed simp
  then obtain n v where v: "s = replicate n 32 @ v" "v = [] \<or> hd v \<noteq> 32" by blast
  consider "v = []" | "v \<noteq> []" "32 \<notin> set v" | t r where "v = t @ 32 # r" "32 \<notin> set t" "v \<noteq> []"
    using split_list_first [of 32 v] by fastforce
  then show thesis
  proof cases
    case 3
    then have "t \<noteq> []" using v(2) by (cases t) auto
    with 3 v(1) more [of n t r] show thesis by simp
  qed (use v blank last in blast)+
qed

lemma strtok_all_append:
  "strtok_all (s @ 32 # u) = strtok_all s @ strtok_all u"
proof (induction s rule: length_induct)
  case (1 s)
  show ?case
  proof (cases s rule: strtok_split)
    case (blank n)
    then show ?thesis using strtok_all_blanks [of n "32 # u"] strtok_all_blanks [of n "[]"] by simp
  next
    case (last n t)
    then show ?thesis by (simp add: strtok_all_token)
  next
    case (more n t r)
    then have "strtok_all (r @ 32 # u) = strtok_all r @ strtok_all u" using 1 by simp
    with more show ?thesis by (simp add: strtok_all_token)
  qed
qed

lemma strtok_all_nonempty: "t \<in> set (strtok_all s) \<Longrightarrow> t \<noteq> []"
proof (induction s rule: length_induct)
  case (1 s)
  show ?case
  proof (cases s rule: strtok_split)
    case (blank n)
    then show ?thesis using "1.prems" strtok_all_blanks [of n "[]"] by simp
  next
    case (last n u)
    then show ?thesis using "1.prems" by (simp add: strtok_all_token)
  next
    case (more n u r)
    then show ?thesis using 1 by (auto simp: strtok_all_token)
  qed
qed

section \<open>Arguments\<close>

lemma upcase_blank [simp]: "upcase_byte c = 32 \<longleftrightarrow> c = 32" "upcase_byte 32 = 32"
proof -
  show "upcase_byte 32 = 32" by (simp add: upcase_byte_def)
  show "upcase_byte c = 32 \<longleftrightarrow> c = 32"
  proof
    assume eq: "upcase_byte c = 32"
    show "c = 32"
    proof (rule ccontr)
      assume "c \<noteq> 32"
      with eq have "97 \<le> c" "c - 32 = 32" by (auto simp: upcase_byte_def split: if_splits)
      then have "c = 64" by (metis diff_add_cancel numeral_Bit0)
      with \<open>97 \<le> c\<close> show False by simp
    qed
  qed (simp add: upcase_byte_def)
qed

lemma upcase_tokens: "strtok_all (map upcase_byte s) = map (map upcase_byte) (strtok_all s)"
proof (induction s rule: length_induct)
  case (1 s)
  have blankfree: "32 \<notin> set t \<Longrightarrow> 32 \<notin> set (map upcase_byte t)" for t
    by auto
  show ?case
  proof (cases s rule: strtok_split)
    case (blank n)
    then show ?thesis using strtok_all_blanks [of n "[]"] by simp
  next
    case (last n t)
    with blankfree show ?thesis by (simp add: strtok_all_token)
  next
    case (more n t r)
    then have IH: "strtok_all (map upcase_byte r) = map (map upcase_byte) (strtok_all r)" using 1 by simp
    from more blankfree [of t] have "strtok_all (map upcase_byte t @ 32 # map upcase_byte r) =
        map upcase_byte t # strtok_all (map upcase_byte r)" by (intro strtok_all_token) auto
    with more IH show ?thesis by (simp add: strtok_all_token)
  qed
qed

lemma abac_arguments_tokens:
  assumes "length dbname < 84" and "q \<noteq> []" and "length q + 1 \<le> usable (length q - 1)"
    and "strtok_all q \<noteq> []" and "length (strtok_all q) \<le> 50"
  shows "abac_arguments usable dbname q =
    token_arguments (ascii ''/UOA_CANVAS_LMS/'' @ dbname) (map (map upcase_byte) (strtok_all q))"
  using assms
  by (simp add: abac_arguments_def strcat_def copy_query_def split_query_def upcase_tokens token_arguments_def)

section \<open>Properties\<close>

text \<open>
  The text that the canonical request puts inside an attribute value carries no markup: \<^verbatim>\<open>escapeXml\<close>
  leaves no angle bracket or quote, and decoding the predefined entities gives back the value.
\<close>

theorem escapeXml_roundtrip:
  "unescapeXml (escapeXml v) = v \<and> set (escapeXml v) \<inter> {CHR ''<'', CHR ''>'', CHR 0x22, CHR 0x27} = {}"
proof
  show "unescapeXml (escapeXml v) = v"
    unfolding escapeXml_eq by (induction v) (simp_all add: unescape_escape_char)
  show "set (escapeXml v) \<inter> {CHR ''<'', CHR ''>'', CHR 0x22, CHR 0x27} = {}"
    unfolding escapeXml_eq by (induction v) (simp_all add: escape_char_def)
qed

text \<open>
  The boolean check grants exactly the requests for which the engine's first result is Permit; deny,
  not-applicable, indeterminate and unreadable responses are refusals. It agrees with the
  four-valued evaluation of the same request.
\<close>

theorem check_permits_only_permit:
  "(Check_ABAC_Permission b nm action uri = Some True \<longleftrightarrow>
     (\<exists>ds. response_of b (pdp_evaluate b (createXACMLRequest nm action uri)) = Results (DECISION_PERMIT # ds))) \<and>
   Check_ABAC_Permission b nm action uri =
     map_option (\<lambda>d. d = ''Permit'') (decisionToString b (pdp_evaluate b (createXACMLRequest nm action uri)))"
proof (cases "response_of b (pdp_evaluate b (createXACMLRequest nm action uri))")
  case (Results ds)
  then show ?thesis
    by (cases ds; cases "hd ds") (simp_all add: Check_ABAC_Permission_def decisionToString_def)
qed (simp_all add: Check_ABAC_Permission_def decisionToString_def)







end
