(* ===== verification/Backend.thy ===== *)
theory Backend
  imports Pqcomm Abac
begin

text \<open>
  The command loop of a backend: \<^verbatim>\<open>SocketBackend\<close> and the loop of \<^verbatim>\<open>PostgresMain\<close> in
  \<^verbatim>\<open>src/postgres/src/backend/tcop/postgres.c\<close>, with the attribute-based check in front of simple queries, the
  error recovery at the loop's head and skipping to the next Sync.

  The routines the loop calls to do the work (\<^verbatim>\<open>exec_simple_query\<close>, \<^verbatim>\<open>exec_execute_message\<close> and so on) are
  recorded as calls in a trace, in order. Whether a call raises an error, and the answers the loop
  needs from other parts of the server, are functions of the trace so far, given in an environment
  about which nothing is assumed. The client is connected over a socket (\<^verbatim>\<open>DestRemote\<close>). Signals,
  timeouts, statistics and memory contexts are not modelled.
\<close>

section \<open>Calls, environment and state\<close>

datatype backend_call =
  ReadyForQuery
| Notice string
| CheckAbac "byte list" "byte list" "byte list" bool
| ExecSimpleQuery "byte list"
| ExecReplicationCommand "byte list"
| ExecParseMessage "byte list" "byte list" "word32 list"
| ExecBindMessage "byte list"
| ExecExecuteMessage "byte list" int
| StartXactCommand
| FinishXactCommand
| HandleFunctionRequest "byte list"
| DropPreparedStatement "byte list"
| DropUnnamedStmt
| PortalDrop "byte list"
| CloseComplete
| DescribeStatement "byte list"
| DescribePortal "byte list"
| Flush
| AbortCurrentTransaction pg_error

record backend_env =
  am_walsender :: bool
  dbname :: "byte list"
  username :: "byte list"
  usable :: "nat \<Rightarrow> nat"
  junk :: "nat \<Rightarrow> byte"
  client_to_server :: "byte list \<Rightarrow> byte list option"
  jni_now :: "backend_call list \<Rightarrow> jni"
  raises :: "backend_call list \<Rightarrow> pg_error option"
  replication_handled :: "backend_call list \<Rightarrow> bool"
  portal_valid :: "backend_call list \<Rightarrow> byte list \<Rightarrow> bool"

record backend =
  port :: Port
  doing_extended_query_message :: bool
  ignore_till_sync :: bool
  send_ready_for_query :: bool
  trace :: "backend_call list"

text \<open>
  How a step of the loop can end early: an error that is caught at the loop's head, the end of the
  process, or undefined behaviour.
\<close>

datatype leave = ERROR pg_error | FATAL string | PROC_EXIT | UNDEFINED string

type_synonym 'a act = "backend \<Rightarrow> (leave + 'a) \<times> backend"

definition act_return :: "'a \<Rightarrow> 'a act" where
  "act_return x = (\<lambda>st. (Inr x, st))"

definition act_leave :: "leave \<Rightarrow> 'a act" where
  "act_leave l = (\<lambda>st. (Inl l, st))"

definition act_bind :: "'a act \<Rightarrow> ('a \<Rightarrow> 'b act) \<Rightarrow> 'b act" where
  "act_bind m f = (\<lambda>st. case m st of (Inl l, st) \<Rightarrow> (Inl l, st) | (Inr x, st) \<Rightarrow> f x st)"

definition act_result :: "'a pg_result \<Rightarrow> 'a act" where
  "act_result r =
     (case r of
        Inr x \<Rightarrow> act_return x
      | Inl e \<Rightarrow> act_leave (if sqlerrcode e = ''undefined behaviour'' then UNDEFINED (errmsg e) else ERROR e))"

definition set_ready :: "unit act" where
  "set_ready = (\<lambda>st. (Inr (), st\<lparr>send_ready_for_query := True\<rparr>))"

text \<open>Calling another part of the server.\<close>

definition call :: "backend_env \<Rightarrow> backend_call \<Rightarrow> unit act" where
  "call env c =
     (\<lambda>st. let st = st\<lparr>trace := trace st @ [c]\<rparr>
           in case raises env (trace st) of
                None \<Rightarrow> (Inr (), st)
              | Some e \<Rightarrow> (Inl (ERROR e), st))"

definition get_trace :: "backend_call list act" where
  "get_trace = (\<lambda>st. (Inr (trace st), st))"

section \<open>Reading a command\<close>

definition PQ_SMALL_MESSAGE_LIMIT :: int where
  "PQ_SMALL_MESSAGE_LIMIT = 10000"

definition PQ_LARGE_MESSAGE_LIMIT :: int where
  "PQ_LARGE_MESSAGE_LIMIT = MaxAllocSize - 1"

abbreviation msgchar :: "char \<Rightarrow> byte" where
  "msgchar c \<equiv> of_char c"

text \<open>The length limit of a message type and the flags it sets; \<open>None\<close> for an unknown type.\<close>

definition message_type :: "byte \<Rightarrow> (int \<times> bool \<times> bool) option" where
  "message_type qtype =
     (if qtype = msgchar (CHR ''Q'') \<or> qtype = msgchar (CHR ''F'') then Some (PQ_LARGE_MESSAGE_LIMIT, False, False)
      else if qtype = msgchar (CHR ''X'') then Some (PQ_SMALL_MESSAGE_LIMIT, False, True)
      else if qtype = msgchar (CHR ''B'') \<or> qtype = msgchar (CHR ''P'') then Some (PQ_LARGE_MESSAGE_LIMIT, True, False)
      else if qtype = msgchar (CHR ''C'') \<or> qtype = msgchar (CHR ''D'') \<or> qtype = msgchar (CHR ''E'') \<or>
              qtype = msgchar (CHR ''H'')
      then Some (PQ_SMALL_MESSAGE_LIMIT, True, False)
      else if qtype = msgchar (CHR ''S'') then Some (PQ_SMALL_MESSAGE_LIMIT, False, True)
      else if qtype = msgchar (CHR ''d'') then Some (PQ_LARGE_MESSAGE_LIMIT, False, False)
      else if qtype = msgchar (CHR ''c'') \<or> qtype = msgchar (CHR ''f'') then Some (PQ_SMALL_MESSAGE_LIMIT, False, False)
      else None)"

definition invalid_type :: string where
  "invalid_type = ''invalid frontend message type''"

text \<open>\<open>None\<close> stands for \<^verbatim>\<open>EOF\<close>.\<close>

definition SocketBackend :: "backend_env \<Rightarrow> StringInfoData \<Rightarrow> (byte \<times> StringInfoData) option act" where
  "SocketBackend env inBuf =
     (\<lambda>st. case pq_startmsgread (port st) of
        None \<Rightarrow> (Inl (FATAL ''terminating connection because protocol synchronization was lost''), st)
      | Some p \<Rightarrow>
          (case pq_getbyte p of
             (None, p) \<Rightarrow> (Inr None, st\<lparr>port := p\<rparr>)
           | (Some qtype, p) \<Rightarrow>
               (case message_type qtype of
                  None \<Rightarrow> (Inl (FATAL invalid_type), st\<lparr>port := p\<rparr>)
                | Some (maxmsglen, extended, stop_skip) \<Rightarrow>
                    let st = st\<lparr>doing_extended_query_message := extended,
                                ignore_till_sync := (if stop_skip then False else ignore_till_sync st)\<rparr>
                    in case pq_getmessage (junk env) inBuf maxmsglen p of
                         None \<Rightarrow> (Inl (UNDEFINED ''endless loop''), st\<lparr>port := p\<rparr>)
                       | Some (MsgOk m, p) \<Rightarrow> (Inr (Some (qtype, m)), st\<lparr>port := p\<rparr>)
                       | Some (MsgEOF, p) \<Rightarrow> (Inr None, st\<lparr>port := p\<rparr>)
                       | Some (MsgError e, p) \<Rightarrow> act_result (Inl e) (st\<lparr>port := p\<rparr>))))"

section \<open>The commands\<close>

definition forbidden_in_wal_sender :: "backend_env \<Rightarrow> byte \<Rightarrow> unit act" where
  "forbidden_in_wal_sender env firstchar =
     (if am_walsender env then
        act_leave (ERROR (PgError ''ERRCODE_PROTOCOL_VIOLATION''
          (if firstchar = msgchar (CHR ''F'')
           then ''fastpath function calls not supported in a replication connection''
           else ''extended query protocol not supported in a replication connection'')))
      else act_return ())"

text \<open>The reports of the check when the Java side cannot be reached.\<close>

definition abac_notices :: "jni \<Rightarrow> string list" where
  "abac_notices j =
     (if JNI_CreateJavaVM j = JNI_EEXIST \<and> JNI_GetCreatedJavaVMs j = JNI_OK \<and> AttachCurrentThread j \<noteq> JNI_OK
      then [''Failed to get jvm env.''] else []) @
     (if jvm_status j \<noteq> JNI_OK then [''JVM Created failed!'']
      else if \<not> FindClass j then [''Class not found!'']
      else if \<not> GetStaticMethodID j then [''Method not found!'']
      else [])"

fun notices :: "backend_env \<Rightarrow> string list \<Rightarrow> unit act" where
  "notices env [] = act_return ()"
| "notices env (m # ms) = act_bind (call env (Notice m)) (\<lambda>_. notices env ms)"

text \<open>The check of a simple query: the value of \<^verbatim>\<open>decision\<close> when it is read.\<close>

definition abac_check :: "backend_env \<Rightarrow> byte list \<Rightarrow> bool act" where
  "abac_check env query_string =
     act_bind get_trace (\<lambda>tr.
       let j = jni_now env tr in
       act_bind (act_result (abac_decision (usable env) j (username env) (dbname env) query_string)) (\<lambda>decision.
       act_bind (case (decision, abac_arguments (usable env) (dbname env) query_string) of
                   (Some d, Inr (action, uri)) \<Rightarrow> call env (CheckAbac (username env) action uri d)
                 | _ \<Rightarrow> act_return ()) (\<lambda>_.
       act_bind (notices env (abac_notices j @ [''ABAC execution time''])) (\<lambda>_.
         case decision of
           None \<Rightarrow> act_leave (UNDEFINED ''read of an unset variable'')
         | Some d \<Rightarrow> act_return d))))"

text \<open>A replication connection tries the replication command parser first.\<close>

definition exec_query :: "backend_env \<Rightarrow> byte list \<Rightarrow> unit act" where
  "exec_query env query_string =
     (if am_walsender env
      then act_bind (call env (ExecReplicationCommand query_string)) (\<lambda>_.
           act_bind get_trace (\<lambda>tr.
             if \<not> replication_handled env tr then call env (ExecSimpleQuery query_string)
             else act_return ()))
      else call env (ExecSimpleQuery query_string))"

definition simple_query :: "backend_env \<Rightarrow> StringInfoData \<Rightarrow> unit act" where
  "simple_query env msg =
     act_bind (act_result (pq_getmsgstring (client_to_server env) msg)) (\<lambda>(query_string, msg).
     act_bind (act_result (pq_getmsgend msg)) (\<lambda>_.
     act_bind (abac_check env query_string) (\<lambda>decision.
       if \<not> decision
       then act_bind (call env (Notice ''ABACML: Permission Denied.'')) (\<lambda>_. set_ready)
       else act_bind (exec_query env query_string) (\<lambda>_. set_ready))))"

fun get_param_types :: "nat \<Rightarrow> StringInfoData \<Rightarrow> (word32 list \<times> StringInfoData) pg_result" where
  "get_param_types 0 msg = Inr ([], msg)"
| "get_param_types (Suc n) msg =
     rbind (pq_getmsgint msg 4) (\<lambda>(t, msg). rbind (get_param_types n msg) (\<lambda>(ts, msg). Inr (t # ts, msg)))"

definition parse_command :: "backend_env \<Rightarrow> StringInfoData \<Rightarrow> unit act" where
  "parse_command env msg =
     act_bind (forbidden_in_wal_sender env (msgchar (CHR ''P''))) (\<lambda>_.
     act_bind (act_result (pq_getmsgstring (client_to_server env) msg)) (\<lambda>(stmt_name, msg).
     act_bind (act_result (pq_getmsgstring (client_to_server env) msg)) (\<lambda>(query_string, msg).
     act_bind (act_result (pq_getmsgint msg 2)) (\<lambda>(numParams, msg).
     act_bind (act_result (get_param_types (unat numParams) msg)) (\<lambda>(paramTypes, msg).
     act_bind (act_result (pq_getmsgend msg)) (\<lambda>_.
       call env (ExecParseMessage query_string stmt_name paramTypes)))))))"

definition bind_command :: "backend_env \<Rightarrow> StringInfoData \<Rightarrow> unit act" where
  "bind_command env msg =
     act_bind (forbidden_in_wal_sender env (msgchar (CHR ''B''))) (\<lambda>_. call env (ExecBindMessage (contents msg)))"

definition execute_command :: "backend_env \<Rightarrow> StringInfoData \<Rightarrow> unit act" where
  "execute_command env msg =
     act_bind (forbidden_in_wal_sender env (msgchar (CHR ''E''))) (\<lambda>_.
     act_bind (act_result (pq_getmsgstring (client_to_server env) msg)) (\<lambda>(portal_name, msg).
     act_bind (act_result (pq_getmsgint msg 4)) (\<lambda>(max_rows, msg).
     act_bind (act_result (pq_getmsgend msg)) (\<lambda>_.
       call env (ExecExecuteMessage portal_name (sint max_rows))))))"

definition function_command :: "backend_env \<Rightarrow> StringInfoData \<Rightarrow> unit act" where
  "function_command env msg =
     act_bind (forbidden_in_wal_sender env (msgchar (CHR ''F''))) (\<lambda>_.
     act_bind (call env StartXactCommand) (\<lambda>_.
     act_bind (call env (HandleFunctionRequest (contents msg))) (\<lambda>_.
     act_bind (call env FinishXactCommand) (\<lambda>_. set_ready))))"

definition close_command :: "backend_env \<Rightarrow> StringInfoData \<Rightarrow> unit act" where
  "close_command env msg =
     act_bind (forbidden_in_wal_sender env (msgchar (CHR ''C''))) (\<lambda>_.
     act_bind (act_result (pq_getmsgbyte msg)) (\<lambda>(close_type, msg).
     act_bind (act_result (pq_getmsgstring (client_to_server env) msg)) (\<lambda>(close_target, msg).
     act_bind (act_result (pq_getmsgend msg)) (\<lambda>_.
     act_bind
       (if close_type = msgchar (CHR ''S'')
        then (if close_target \<noteq> [] then call env (DropPreparedStatement close_target) else call env DropUnnamedStmt)
        else if close_type = msgchar (CHR ''P'')
        then act_bind get_trace (\<lambda>tr.
               if portal_valid env tr close_target then call env (PortalDrop close_target) else act_return ())
        else act_leave (ERROR (PgError ''ERRCODE_PROTOCOL_VIOLATION'' ''invalid CLOSE message subtype''))) (\<lambda>_.
       call env CloseComplete)))))"

definition describe_command :: "backend_env \<Rightarrow> StringInfoData \<Rightarrow> unit act" where
  "describe_command env msg =
     act_bind (forbidden_in_wal_sender env (msgchar (CHR ''D''))) (\<lambda>_.
     act_bind (act_result (pq_getmsgbyte msg)) (\<lambda>(describe_type, msg).
     act_bind (act_result (pq_getmsgstring (client_to_server env) msg)) (\<lambda>(describe_target, msg).
     act_bind (act_result (pq_getmsgend msg)) (\<lambda>_.
       if describe_type = msgchar (CHR ''S'') then call env (DescribeStatement describe_target)
       else if describe_type = msgchar (CHR ''P'') then call env (DescribePortal describe_target)
       else act_leave (ERROR (PgError ''ERRCODE_PROTOCOL_VIOLATION'' ''invalid DESCRIBE message subtype''))))))"

definition flush_command :: "backend_env \<Rightarrow> StringInfoData \<Rightarrow> unit act" where
  "flush_command env msg = act_bind (act_result (pq_getmsgend msg)) (\<lambda>_. call env Flush)"

definition sync_command :: "backend_env \<Rightarrow> StringInfoData \<Rightarrow> unit act" where
  "sync_command env msg =
     act_bind (act_result (pq_getmsgend msg)) (\<lambda>_. act_bind (call env FinishXactCommand) (\<lambda>_. set_ready))"

text \<open>Step (7): process the command.\<close>

definition process_command :: "backend_env \<Rightarrow> byte \<Rightarrow> StringInfoData \<Rightarrow> unit act" where
  "process_command env firstchar msg =
     (if firstchar = msgchar (CHR ''Q'') then simple_query env msg
      else if firstchar = msgchar (CHR ''P'') then parse_command env msg
      else if firstchar = msgchar (CHR ''B'') then bind_command env msg
      else if firstchar = msgchar (CHR ''E'') then execute_command env msg
      else if firstchar = msgchar (CHR ''F'') then function_command env msg
      else if firstchar = msgchar (CHR ''C'') then close_command env msg
      else if firstchar = msgchar (CHR ''D'') then describe_command env msg
      else if firstchar = msgchar (CHR ''H'') then flush_command env msg
      else if firstchar = msgchar (CHR ''S'') then sync_command env msg
      else if firstchar = msgchar (CHR ''X'') then act_leave PROC_EXIT
      else if firstchar = msgchar (CHR ''d'') \<or> firstchar = msgchar (CHR ''c'') \<or> firstchar = msgchar (CHR ''f'')
      then act_return ()
      else act_leave (FATAL invalid_type))"

section \<open>The loop\<close>

text \<open>One iteration up to its regular end.\<close>

definition loop_body :: "backend_env \<Rightarrow> unit act" where
  "loop_body env =
     (\<lambda>st. let st = st\<lparr>doing_extended_query_message := False\<rparr>
      in act_bind (act_result (initStringInfo (junk env))) (\<lambda>input_message.
         act_bind (if send_ready_for_query st
                   then act_bind (call env ReadyForQuery) (\<lambda>_ st. (Inr (), st\<lparr>send_ready_for_query := False\<rparr>))
                   else act_return ()) (\<lambda>_.
         act_bind (SocketBackend env input_message) (\<lambda>cmd.
           case cmd of
             None \<Rightarrow> act_leave PROC_EXIT
           | Some (firstchar, msg) \<Rightarrow>
               (\<lambda>st. if ignore_till_sync st then (Inr (), st) else process_command env firstchar msg st)))) st)"

datatype outcome = Running backend | Exited backend | Undefined string

text \<open>The error recovery at the head of the loop.\<close>

definition recover :: "pg_error \<Rightarrow> backend \<Rightarrow> outcome" where
  "recover e st =
     (let st = st\<lparr>trace := trace st @ [AbortCurrentTransaction e],
                  ignore_till_sync := (ignore_till_sync st \<or> doing_extended_query_message st)\<rparr>
      in if pq_is_reading_msg (port st) then Exited st
         else Running (if \<not> ignore_till_sync st then st\<lparr>send_ready_for_query := True\<rparr> else st))"

definition main_step :: "backend_env \<Rightarrow> backend \<Rightarrow> outcome" where
  "main_step env st =
     (case loop_body env st of
        (Inr _, st) \<Rightarrow> Running st
      | (Inl (ERROR e), st) \<Rightarrow> recover e st
      | (Inl (FATAL _), st) \<Rightarrow> Exited st
      | (Inl PROC_EXIT, st) \<Rightarrow> Exited st
      | (Inl (UNDEFINED what), st) \<Rightarrow> Undefined what)"

text \<open>The state when the loop is entered, the states it reaches, and those in which the process may end.\<close>

definition initial_backend :: "read_event list \<Rightarrow> backend" where
  "initial_backend evs =
     \<lparr>port = \<lparr>PqRecvBuffer = [], PqRecvPointer = 0, PqCommReadingMsg = False, net = evs\<rparr>,
      doing_extended_query_message = False, ignore_till_sync = False, send_ready_for_query = True, trace = []\<rparr>"

inductive reachable :: "backend_env \<Rightarrow> read_event list \<Rightarrow> backend \<Rightarrow> bool" for env evs where
  start: "reachable env evs (initial_backend evs)"
| running: "reachable env evs st \<Longrightarrow> main_step env st = Running st' \<Longrightarrow> reachable env evs st'"

inductive observed :: "backend_env \<Rightarrow> read_event list \<Rightarrow> backend \<Rightarrow> bool" for env evs where
  "reachable env evs st \<Longrightarrow> observed env evs st"
| "reachable env evs st \<Longrightarrow> main_step env st = Exited st' \<Longrightarrow> observed env evs st'"

text \<open>A message as the client sends it.\<close>

definition frame :: "byte \<Rightarrow> byte list \<Rightarrow> byte list" where
  "frame t body = t # be_bytes 4 (of_int (int (length body) + 4) :: word32) @ body"

text \<open>The calls that execute the text of a simple query.\<close>

fun query_of :: "backend_call \<Rightarrow> byte list option" where
  "query_of (ExecSimpleQuery q) = Some q"
| "query_of (ExecReplicationCommand q) = Some q"
| "query_of _ = None"

definition permits :: "backend_env \<Rightarrow> byte list \<Rightarrow> backend_call \<Rightarrow> bool" where
  "permits env q c \<longleftrightarrow> (\<exists>action uri. c = CheckAbac (username env) action uri True \<and>
     abac_arguments (usable env) (dbname env) q = Inr (action, uri) \<and>
     (\<exists>tr. CallStaticBooleanMethod (jni_now env tr) (username env) action uri = Some True))"

definition between :: "byte list \<Rightarrow> backend_call \<Rightarrow> bool" where
  "between q c \<longleftrightarrow> (\<exists>m. c = Notice m) \<or> c = ExecReplicationCommand q"

text \<open>
  Every executed query comes after a check that asked the Java side and was told that the user may do
  the action derived from the query's text on the resource derived from it, with only notices (and the
  replication parser's attempt) between.
\<close>

definition gated :: "backend_env \<Rightarrow> backend_call list \<Rightarrow> bool" where
  "gated env tr \<longleftrightarrow> (\<forall>pre c post q. tr = pre @ c # post \<and> query_of c = Some q \<longrightarrow>
     (\<exists>pre' chk ms. pre = pre' @ chk # ms \<and> permits env q chk \<and> list_all (between q) ms))"

text \<open>Whatever the state, the action adds to the trace a segment with the property.\<close>

definition adds :: "(backend_call list \<Rightarrow> bool) \<Rightarrow> 'a act \<Rightarrow> bool" where
  "adds P m \<longleftrightarrow> (\<forall>st. \<exists>seg. P seg \<and> trace (snd (m st)) = trace st @ seg)"

abbreviation quiet :: "backend_call list \<Rightarrow> bool" where
  "quiet \<equiv> list_all (\<lambda>c. query_of c = None)"

text \<open>A connection between two messages; what the next iteration sends before it reads.\<close>

definition idle :: "backend \<Rightarrow> bool" where
  "idle st \<longleftrightarrow> port_ok (port st) \<and> \<not> PqCommReadingMsg (port st)"

definition greeting :: "backend \<Rightarrow> backend_call list" where
  "greeting st = (if send_ready_for_query st then [ReadyForQuery] else [])"

fun run_steps :: "nat \<Rightarrow> backend_env \<Rightarrow> backend \<Rightarrow> outcome" where
  "run_steps 0 env st = Running st"
| "run_steps (Suc n) env st = (case main_step env st of Running st \<Rightarrow> run_steps n env st | r \<Rightarrow> r)"

text \<open>A server that raises no errors and converts no text.\<close>

definition plain_env :: "backend_env \<Rightarrow> bool" where
  "plain_env env \<longleftrightarrow> \<not> am_walsender env \<and> raises env = (\<lambda>_. None) \<and> client_to_server env = (\<lambda>_. None)"

definition example_env :: "(byte list \<Rightarrow> byte list \<Rightarrow> byte list \<Rightarrow> bool) \<Rightarrow> backend_env" where
  "example_env permit =
     \<lparr>am_walsender = False, dbname = ascii ''lms'', username = ascii ''alice'', usable = (\<lambda>n. n + 16), junk = (\<lambda>_. 0),
      client_to_server = (\<lambda>_. None),
      jni_now = (\<lambda>tr. \<lparr>JNI_CreateJavaVM = JNI_EEXIST, JNI_GetCreatedJavaVMs = JNI_OK, AttachCurrentThread = JNI_OK,
        FindClass = True, GetStaticMethodID = True, CallStaticBooleanMethod = (\<lambda>u a r. Some (permit u a r))\<rparr>),
      raises = (\<lambda>_. None), replication_handled = (\<lambda>_. False), portal_valid = (\<lambda>_ _. False)\<rparr>"

section \<open>Traces\<close>

lemma act_simps [simp]:
  "act_bind (act_return x) f = f x" "act_bind (act_leave l) f = act_leave l"
  "act_result (Inr x) = act_return x"
  by (simp_all add: act_bind_def act_return_def act_leave_def act_result_def)

lemma act_apply: "act_return x st = (Inr x, st)" "act_leave l st = (Inl l, st)"
  by (simp_all add: act_return_def act_leave_def)

lemma act_bind_apply: "m st = (Inr x, st') \<Longrightarrow> act_bind m f st = f x st'" "m st = (Inl l, st') \<Longrightarrow> act_bind m f st = (Inl l, st')"
  by (simp_all add: act_bind_def)

text \<open>
  A property of trace segments that concatenation preserves holds of what a composed action adds when it
  holds of what its parts add.
\<close>

locale segments =
  fixes P :: "backend_call list \<Rightarrow> bool"
  assumes seg_Nil: "P []" and seg_append: "P xs \<Longrightarrow> P ys \<Longrightarrow> P (xs @ ys)"
begin

lemma adds_same: "(\<And>st. trace (snd (m st)) = trace st) \<Longrightarrow> adds P m"
  unfolding adds_def using seg_Nil by (metis append_Nil2)

lemma adds_basic [intro]: "adds P (act_return x)" "adds P (act_leave l)" "adds P (act_result r)" "adds P get_trace" "adds P set_ready"
  by (rule adds_same; simp add: act_result_def get_trace_def set_ready_def act_apply split: sum.split)+

lemma adds_bind [intro]:
  assumes "adds P m" and "\<And>x. adds P (f x)"
  shows "adds P (act_bind m f)"
  unfolding adds_def
proof
  fix st
  obtain r st1 where m: "m st = (r, st1)" by fastforce
  obtain seg1 where seg1: "P seg1" "trace st1 = trace st @ seg1"
    using assms(1) m unfolding adds_def by (metis snd_conv)
  show "\<exists>seg. P seg \<and> trace (snd (act_bind m f st)) = trace st @ seg"
  proof (cases r)
    case (Inl l)
    then show ?thesis using m seg1 by (auto simp: act_bind_def)
  next
    case (Inr x)
    obtain seg2 where "P seg2" "trace (snd (f x st1)) = trace st1 @ seg2"
      using assms(2) unfolding adds_def by blast
    with seg1 m Inr show ?thesis by (intro exI [of _ "seg1 @ seg2"]) (simp add: act_bind_def seg_append)
  qed
qed

lemma adds_call: "P [c] \<Longrightarrow> adds P (call env c)"
  unfolding adds_def call_def by (auto simp: Let_def split: option.split)

lemma adds_if [intro]: "adds P m \<Longrightarrow> adds P m' \<Longrightarrow> adds P (if b then m else m')"
  by simp

end

interpretation quiet: segments quiet
  by unfold_locales simp_all

lemma gated_append: "gated env xs \<Longrightarrow> gated env ys \<Longrightarrow> gated env (xs @ ys)"
  unfolding gated_def
proof (intro allI impI)
  fix pre c post q
  assume xs: "\<forall>pre c post q. xs = pre @ c # post \<and> query_of c = Some q \<longrightarrow>
      (\<exists>pre' chk ms. pre = pre' @ chk # ms \<and> permits env q chk \<and> list_all (between q) ms)"
    and ys: "\<forall>pre c post q. ys = pre @ c # post \<and> query_of c = Some q \<longrightarrow>
      (\<exists>pre' chk ms. pre = pre' @ chk # ms \<and> permits env q chk \<and> list_all (between q) ms)"
    and split: "xs @ ys = pre @ c # post \<and> query_of c = Some q"
  then consider us where "pre = xs @ us" "ys = us @ c # post" | us where "xs = pre @ c # us"
    by (auto simp: append_eq_append_conv2 append_eq_Cons_conv)
  then show "\<exists>pre' chk ms. pre = pre' @ chk # ms \<and> permits env q chk \<and> list_all (between q) ms"
  proof cases
    case 1
    then obtain pre' chk ms where "us = pre' @ chk # ms" "permits env q chk" "list_all (between q) ms"
      using ys split by blast
    with 1(1) show ?thesis by (intro exI [of _ "xs @ pre'"] exI [of _ chk] exI [of _ ms]) simp
  next
    case 2
    then show ?thesis using xs split by blast
  qed
qed

lemma quiet_gated: "quiet seg \<Longrightarrow> gated env seg"
  by (auto simp: gated_def)

interpretation gate: segments "gated env" for env
  by unfold_locales (simp_all add: gated_append quiet_gated)

lemma adds_mono: "adds P m \<Longrightarrow> (\<And>seg. P seg \<Longrightarrow> Q seg) \<Longrightarrow> adds Q m"
  unfolding adds_def by meson

lemma quiet_calls: "query_of c = None \<Longrightarrow> adds quiet (call env c)"
  by (rule quiet.adds_call) simp

lemma quiet_notices: "adds quiet (notices env ms)"
  by (induction ms) (auto intro!: quiet.adds_bind quiet_calls)

lemma quiet_wal: "adds quiet (forbidden_in_wal_sender env t)"
  unfolding forbidden_in_wal_sender_def by auto

lemma quiet_case_prod [intro]: "(\<And>a b. adds quiet (f a b)) \<Longrightarrow> adds quiet (case x of (a, b) \<Rightarrow> f a b)"
  by (cases x) simp

lemma quiet_commands:
  "adds quiet (parse_command env msg)" "adds quiet (bind_command env msg)" "adds quiet (execute_command env msg)"
  "adds quiet (function_command env msg)" "adds quiet (close_command env msg)" "adds quiet (describe_command env msg)"
  "adds quiet (flush_command env msg)" "adds quiet (sync_command env msg)"
  unfolding parse_command_def bind_command_def execute_command_def function_command_def close_command_def
    describe_command_def flush_command_def sync_command_def
  by (auto intro!: quiet.adds_bind quiet.adds_if quiet_wal quiet_calls)

lemma quiet_socket: "adds quiet (SocketBackend env inBuf)"
  by (rule quiet.adds_same)
    (auto simp: SocketBackend_def Let_def act_result_def act_apply split: option.split prod.split msg_read.split)

section \<open>The gate\<close>

text \<open>A chain of calls appends them in order, up to the first that raises an error.\<close>

lemma call_cases:
  obtains "call env c st = (Inr (), st\<lparr>trace := trace st @ [c]\<rparr>)"
    | e where "call env c st = (Inl (ERROR e), st\<lparr>trace := trace st @ [c]\<rparr>)"
  by (cases "raises env (trace st @ [c])") (auto simp: call_def Let_def)

lemma notices_trace:
  "\<exists>ks. trace (snd (notices env ms st)) = trace st @ map Notice ks"
proof (induction ms arbitrary: st)
  case Nil
  then show ?case by (simp add: act_apply)
next
  case (Cons m ms)
  show ?case
  proof (cases rule: call_cases [of env "Notice m" st])
    case 1
    with Cons.IH [of "st\<lparr>trace := trace st @ [Notice m]\<rparr>"] show ?thesis
      by (auto simp: act_bind_def) (metis append_Cons append_Nil list.map(2))
  next
    case (2 e)
    then show ?thesis by (auto simp: act_bind_def intro!: exI [of _ "[m]"])
  qed
qed

lemma abac_check_trace:
  assumes "abac_check env q st = (r, st')"
  shows "\<exists>seg. trace st' = trace st @ seg \<and> quiet seg \<and>
    (r = Inr True \<longrightarrow> (\<exists>chk ks. seg = chk # map Notice ks \<and> permits env q chk))"
proof -
  let ?j = "jni_now env (trace st)"
  let ?ns = "notices env (abac_notices ?j @ [''ABAC execution time''])"
  let ?d = "abac_decision (usable env) ?j (username env) (dbname env) q"
  have quiet_map: "quiet (map Notice ks)" for ks by (induction ks) simp_all
  show ?thesis
  proof (cases ?d)
    case (Inl e)
    then have "st' = st" "\<exists>l. r = Inl l"
      using assms by (auto simp: abac_check_def Let_def act_bind_def get_trace_def act_result_def act_apply split: if_splits)
    then show ?thesis by auto
  next
    case (Inr decision)
    show ?thesis
    proof (cases decision)
      case None
      obtain r1 st1 where ns: "?ns st = (r1, st1)" by fastforce
      with notices_trace [of env _ st] obtain ks where "trace st1 = trace st @ map Notice ks" by (metis snd_conv)
      moreover have "st' = st1" "\<exists>l. r = Inl l"
        using assms ns Inr None
        by (auto simp: abac_check_def Let_def act_bind_def get_trace_def act_apply split: sum.splits prod.splits)
      ultimately show ?thesis using quiet_map by auto
    next
      case (Some d)
      then obtain action uri where args: "abac_arguments (usable env) (dbname env) q = Inr (action, uri)"
          and java: "CallStaticBooleanMethod ?j (username env) action uri = Some d"
        using Inr by (auto simp: abac_decision_def result_iff split: if_splits option.splits)
      let ?c = "CheckAbac (username env) action uri d"
      let ?st = "st\<lparr>trace := trace st @ [?c]\<rparr>"
      show ?thesis
      proof (cases rule: call_cases [of env ?c st])
        case 1
        obtain r1 st1 where ns: "?ns ?st = (r1, st1)" by fastforce
        with notices_trace [of env _ ?st] obtain ks where ks: "trace st1 = trace ?st @ map Notice ks" by (metis snd_conv)
        have "st' = st1" "r = Inr True \<longrightarrow> d"
          using assms ns 1 Inr Some args
          by (auto simp: abac_check_def Let_def act_bind_def get_trace_def act_apply split: sum.splits prod.splits)
        with ks quiet_map args java show ?thesis by (auto simp: permits_def)
      next
        case (2 e)
        then have "st' = ?st" "\<exists>l. r = Inl l"
          using assms Inr Some args by (auto simp: abac_check_def Let_def act_bind_def get_trace_def act_apply)
        then show ?thesis by auto
      qed
    qed
  qed
qed

lemma gated_exec:
  assumes "permits env q chk" and "es \<in> {[ExecSimpleQuery q], [ExecReplicationCommand q], [ExecReplicationCommand q, ExecSimpleQuery q]}"
  shows "gated env (chk # map Notice ks @ es)"
  unfolding gated_def
proof (intro allI impI)
  fix pre c post p
  assume split: "chk # map Notice ks @ es = pre @ c # post \<and> query_of c = Some p"
  have head: "query_of chk = None" using assms(1) by (auto simp: permits_def)
  from split head obtain pre1 where pre1: "pre = chk # pre1" "map Notice ks @ es = pre1 @ c # post"
    by (cases pre) auto
  have len: "length (map Notice ks) \<le> length pre1"
  proof (rule ccontr)
    assume "\<not> length (map Notice ks) \<le> length pre1"
    then have "(map Notice ks @ es) ! length pre1 = Notice (ks ! length pre1)" by (simp add: nth_append)
    with pre1(2) split show False by simp
  qed
  obtain us where us: "pre1 = map Notice ks @ us" "es = us @ c # post"
  proof
    have "take (length ks) pre1 = map Notice ks"
      using len arg_cong [OF pre1(2), of "take (length ks)"] by simp
    then show "pre1 = map Notice ks @ drop (length ks) pre1" using append_take_drop_id [of "length ks" pre1] by simp
    show "es = drop (length ks) pre1 @ c # post"
      using len arg_cong [OF pre1(2), of "drop (length ks)"] by simp
  qed
  have "list_all (between q) us \<and> p = q"
    using assms(2) us(2) split by (auto simp: between_def append_eq_Cons_conv)
  moreover have "list_all (between q) (map Notice ks)" by (induction ks) (simp_all add: between_def)
  ultimately show "\<exists>pre' chk ms. pre = pre' @ chk # ms \<and> permits env p chk \<and> list_all (between p) ms"
    using assms(1) pre1(1) us(1) by (intro exI [of _ "[]"] exI [of _ chk] exI [of _ pre1]) simp
qed

lemma exec_trace:
  assumes "exec_query env q st = (r, st')"
  shows "\<exists>es \<in> {[ExecSimpleQuery q], [ExecReplicationCommand q], [ExecReplicationCommand q, ExecSimpleQuery q]}.
    trace st' = trace st @ es"
  using assms
  by (auto simp: exec_query_def act_bind_def call_def get_trace_def Let_def act_apply split: if_splits option.splits)

lemma gated_simple_query: "adds (gated env) (simple_query env msg)"
proof -
  let ?body = "\<lambda>q. act_bind (abac_check env q) (\<lambda>decision.
      if \<not> decision then act_bind (call env (Notice ''ABACML: Permission Denied.'')) (\<lambda>_. set_ready)
      else act_bind (exec_query env q) (\<lambda>_. set_ready))"
  have body: "adds (gated env) (?body q)" for q
    unfolding adds_def
  proof
    fix st
    obtain r st1 where chk: "abac_check env q st = (r, st1)" by fastforce
    from abac_check_trace [OF chk] obtain seg where seg: "trace st1 = trace st @ seg" "quiet seg"
      "r = Inr True \<longrightarrow> (\<exists>chk ks. seg = chk # map Notice ks \<and> permits env q chk)" by blast
    show "\<exists>seg. gated env seg \<and> trace (snd (?body q st)) = trace st @ seg"
    proof (cases "r = Inr True")
      case True
      then obtain c ks where c: "seg = c # map Notice ks" "permits env q c" using seg(3) by blast
      obtain r2 st2 where ex: "exec_query env q st1 = (r2, st2)" by fastforce
      from exec_trace [OF ex] obtain es where es: "trace st2 = trace st1 @ es"
        "es \<in> {[ExecSimpleQuery q], [ExecReplicationCommand q], [ExecReplicationCommand q, ExecSimpleQuery q]}" by blast
      have "?body q st = act_bind (exec_query env q) (\<lambda>_. set_ready) st1"
        by (subst act_bind_apply(1) [of "abac_check env q" st True st1]) (simp_all add: chk True)
      also have "trace (snd \<dots>) = trace st2"
        by (simp add: act_bind_def ex set_ready_def split: sum.split)
      finally have "trace (snd (?body q st)) = trace st2" .
      then show ?thesis using es seg(1) c gated_exec [OF c(2) es(2)] by (intro exI [of _ "seg @ es"]) simp
    next
      case False
      let ?n = "Notice ''ABACML: Permission Denied.''"
      have "trace (snd (?body q st)) = trace st1 \<or> trace (snd (?body q st)) = trace st1 @ [?n]"
      proof (cases r)
        case (Inl l)
        then show ?thesis by (simp add: act_bind_def [of "abac_check env q"] chk)
      next
        case (Inr d)
        then have "r = Inr False" using False by (cases d) auto
        then have "?body q st = act_bind (call env ?n) (\<lambda>_. set_ready) st1"
          by (subst act_bind_apply(1) [of "abac_check env q" st False st1]) (simp_all add: chk)
        then show ?thesis
          by (cases rule: call_cases [of env ?n st1]) (simp_all add: act_bind_def set_ready_def)
      qed
      moreover have "gated env seg" "gated env (seg @ [?n])" using seg(2) by (simp_all add: quiet_gated)
      ultimately show ?thesis using seg(1) by auto
    qed
  qed
  have "adds (gated env) (act_bind (act_result (pq_getmsgend m)) (\<lambda>_. ?body q))" for m q
    by (rule gate.adds_bind [OF gate.adds_basic(3) body])
  then show ?thesis unfolding simple_query_def
    by (intro gate.adds_bind [OF gate.adds_basic(3)]) (simp split: prod.split)
qed

lemma gated_process: "adds (gated env) (process_command env t msg)"
  unfolding process_command_def
  by (intro gate.adds_if gated_simple_query adds_mono [OF _ quiet_gated] quiet_commands)
    (auto intro: quiet.adds_basic quiet_commands)

lemma gated_loop_body: "\<exists>seg. gated env seg \<and> trace (snd (loop_body env st)) = trace st @ seg"
proof -
  have skip: "adds (gated env) (\<lambda>st. if ignore_till_sync st then (Inr (), st) else process_command env t msg st)" for t msg
    unfolding adds_def using gated_process [of env t msg] gate.seg_Nil [of env] by (auto simp: adds_def)
  have ready: "adds (gated env) (\<lambda>st. (Inr (), st\<lparr>send_ready_for_query := False\<rparr>))"
    by (rule gate.adds_same) simp
  have rq: "adds (gated env) (call env ReadyForQuery)" by (rule gate.adds_call) (simp add: quiet_gated)
  have all: "adds (gated env) (act_bind (act_result (initStringInfo (junk env))) (\<lambda>input_message.
         act_bind (if b then act_bind (call env ReadyForQuery) (\<lambda>_ st. (Inr (), st\<lparr>send_ready_for_query := False\<rparr>))
                   else act_return ()) (\<lambda>_.
         act_bind (SocketBackend env input_message) (\<lambda>cmd.
           case cmd of
             None \<Rightarrow> act_leave PROC_EXIT
           | Some (firstchar, msg) \<Rightarrow>
               (\<lambda>st. if ignore_till_sync st then (Inr (), st) else process_command env firstchar msg st)))))" for b
    by (intro gate.adds_bind gate.adds_if gate.adds_basic rq ready adds_mono [OF quiet_socket quiet_gated])
      (auto simp: skip split: option.split prod.split)
  let ?st = "st\<lparr>doing_extended_query_message := False\<rparr>"
  have "\<exists>seg. gated env seg \<and> trace (snd (loop_body env st)) = trace ?st @ seg"
    unfolding loop_body_def Let_def by (rule all [of "send_ready_for_query ?st", unfolded adds_def, rule_format, of ?st])
  then show ?thesis by simp
qed

lemma gated_main_step:
  assumes "gated env (trace st)"
  shows "main_step env st = Running st' \<Longrightarrow> gated env (trace st')"
    and "main_step env st = Exited st' \<Longrightarrow> gated env (trace st')"
proof -
  obtain r st1 where body: "loop_body env st = (r, st1)" by fastforce
  with gated_loop_body [of env st] assms have st1: "gated env (trace st1)" by (auto simp: gated_append)
  then have abort: "gated env (trace st1 @ [AbortCurrentTransaction e])" for e
    by (simp add: gated_append quiet_gated)
  show "main_step env st = Running st' \<Longrightarrow> gated env (trace st')"
    "main_step env st = Exited st' \<Longrightarrow> gated env (trace st')"
    using st1 abort
    by (auto simp: main_step_def body recover_def Let_def split: sum.splits leave.splits option.splits if_splits)
qed

lemma gated_reachable: "reachable env evs st \<Longrightarrow> gated env (trace st)"
  by (induction rule: reachable.induct) (auto simp: initial_backend_def quiet_gated dest: gated_main_step)

lemma gated_observed: "observed env evs st \<Longrightarrow> gated env (trace st)"
  by (cases rule: observed.cases) (auto dest: gated_reachable gated_main_step(2) [OF gated_reachable])

section \<open>Messages from the client\<close>

lemma SocketBackend_frame:
  assumes "port_ok (port st)" and "\<not> PqCommReadingMsg (port st)" and "stream (port st) = frame t body @ rest"
    and "message_type t = Some (limit, extended, stop_skip)" and "int (length body) + 4 \<le> limit" and "si_ok inBuf"
  shows "\<exists>m p. SocketBackend env inBuf st = (Inr (Some (t, m)),
      st\<lparr>port := p, doing_extended_query_message := extended,
         ignore_till_sync := (if stop_skip then False else ignore_till_sync st)\<rparr>) \<and>
    msg_ok m \<and> cursor m = 0 \<and> contents m = body \<and> stream p = rest \<and> port_ok p \<and> \<not> PqCommReadingMsg p"
proof -
  let ?p = "port st\<lparr>PqCommReadingMsg := True\<rparr>"
  have p: "port_ok ?p" "stream ?p = t # be_bytes 4 (of_int (int (length body) + 4) :: word32) @ body @ rest"
    using assms(1,3) by (simp_all add: port_ok_def stream_def frame_def)
  from pq_getbyte_stream [OF p(1)] p(2) obtain q where q: "pq_getbyte ?p = (Some t, q)"
    "stream q = be_bytes 4 (of_int (int (length body) + 4) :: word32) @ body @ rest" "port_ok q" by auto
  have lim: "limit < MaxAllocSize" using assms(4)
    by (auto simp: message_type_def PQ_LARGE_MESSAGE_LIMIT_def PQ_SMALL_MESSAGE_LIMIT_def MaxAllocSize_def split: if_splits)
  obtain m p' where m: "pq_getmessage (junk env) inBuf limit q = Some (MsgOk m, p')" "msg_ok m" "cursor m = 0"
      "contents m = body" "stream p' = rest" "port_ok p'" "\<not> PqCommReadingMsg p'"
    using pq_getmessage_next [OF assms(6) q(3,2) assms(5) lim, of "junk env"] by blast
  then show ?thesis
    using assms(2,4) q(1)
    by (intro exI [of _ m] exI [of _ p']) (simp add: SocketBackend_def pq_startmsgread_def Let_def)
qed

lemma plain_call: "plain_env env \<Longrightarrow> call env c st = (Inr (), st\<lparr>trace := trace st @ [c]\<rparr>)"
  by (simp add: plain_env_def call_def Let_def)

lemma plain_notices: "plain_env env \<Longrightarrow> notices env ms st = (Inr (), st\<lparr>trace := trace st @ map Notice ms\<rparr>)"
  by (induction ms arbitrary: st) (simp_all add: act_apply act_bind_def plain_call)

lemma plain_conv: "plain_env env \<Longrightarrow> client_to_server env = (\<lambda>_. None)" "plain_env env \<Longrightarrow> \<not> am_walsender env"
  by (simp_all add: plain_env_def)

lemma loop_body_frame:
  assumes "plain_env env" and "idle st" and "stream (port st) = frame t body @ rest"
    and "message_type t = Some (limit, extended, stop_skip)" and "int (length body) + 4 \<le> limit"
  obtains m p where "loop_body env st =
      (let st1 = st\<lparr>send_ready_for_query := False, trace := trace st @ greeting st, port := p,
         doing_extended_query_message := extended,
         ignore_till_sync := (if stop_skip then False else ignore_till_sync st)\<rparr>
       in if ignore_till_sync st1 then (Inr (), st1) else process_command env t m st1)"
    "msg_ok m" "cursor m = 0" "contents m = body" "stream p = rest" "port_ok p" "\<not> PqCommReadingMsg p"
proof -
  obtain b where b: "initStringInfo (junk env) = Inr b" "si_ok b" using init_buffer by blast
  let ?st = "st\<lparr>doing_extended_query_message := False, send_ready_for_query := False, trace := trace st @ greeting st\<rparr>"
  have ready: "(if send_ready_for_query st
      then act_bind (call env ReadyForQuery) (\<lambda>_ st. (Inr (), st\<lparr>send_ready_for_query := False\<rparr>))
      else act_return ()) (st\<lparr>doing_extended_query_message := False\<rparr>) = (Inr (), ?st)"
    by (simp add: act_bind_def plain_call [OF assms(1)] act_apply greeting_def)
  from SocketBackend_frame [of ?st t body rest limit extended stop_skip b env] assms(2-5) b(2)
  obtain m p where m: "SocketBackend env b ?st = (Inr (Some (t, m)), ?st\<lparr>port := p, doing_extended_query_message := extended,
         ignore_till_sync := (if stop_skip then False else ignore_till_sync ?st)\<rparr>)" "msg_ok m" "cursor m = 0"
      "contents m = body" "stream p = rest" "port_ok p" "\<not> PqCommReadingMsg p"
    unfolding idle_def by auto
  show thesis
    by (rule that [OF _ m(2-)])
      (use b(1) m(1) ready in \<open>simp add: loop_body_def Let_def act_bind_def [of "SocketBackend _ _"] act_bind_def [of "if _ then _ else _"]\<close>)
qed

lemma skip_step:
  assumes "plain_env env" and "idle st" and "ignore_till_sync st" and "stream (port st) = frame t body @ rest"
    and "message_type t = Some (limit, extended, False)" and "int (length body) + 4 \<le> limit"
  shows "\<exists>st'. main_step env st = Running st' \<and> idle st' \<and> ignore_till_sync st' \<and> stream (port st') = rest \<and>
    trace st' = trace st @ greeting st \<and> \<not> send_ready_for_query st'"
proof -
  obtain m p where m: "loop_body env st =
      (let st1 = st\<lparr>send_ready_for_query := False, trace := trace st @ greeting st, port := p,
         doing_extended_query_message := extended,
         ignore_till_sync := (if False then False else ignore_till_sync st)\<rparr>
       in if ignore_till_sync st1 then (Inr (), st1) else process_command env t m st1)"
      "stream p = rest" "port_ok p" "\<not> PqCommReadingMsg p"
    using loop_body_frame [OF assms(1,2,4-6)] .
  then show ?thesis using assms(3) by (simp add: idle_def main_step_def Let_def)
qed

lemma command_step:
  assumes "plain_env env" and "idle st" and "\<not> ignore_till_sync st \<or> stop_skip" and "stream (port st) = frame t body @ rest"
    and "message_type t = Some (limit, extended, stop_skip)" and "int (length body) + 4 \<le> limit"
    and step: "\<And>m s. msg_ok m \<Longrightarrow> cursor m = 0 \<Longrightarrow> contents m = body \<Longrightarrow> trace s = trace st @ greeting st \<Longrightarrow>
      process_command env t m s = (Inr (), s\<lparr>trace := trace s @ cs, send_ready_for_query := ready \<or> send_ready_for_query s\<rparr>)"
  shows "\<exists>st'. main_step env st = Running st' \<and> stream (port st') = rest \<and> trace st' = trace st @ greeting st @ cs \<and>
    idle st' \<and> \<not> ignore_till_sync st' \<and> (send_ready_for_query st' \<longleftrightarrow> ready)"
proof -
  let ?st = "\<lambda>p. st\<lparr>send_ready_for_query := False, trace := trace st @ greeting st, port := p,
      doing_extended_query_message := extended,
      ignore_till_sync := (if stop_skip then False else ignore_till_sync st)\<rparr>"
  obtain m p where m: "loop_body env st = (let st1 = ?st p
       in if ignore_till_sync st1 then (Inr (), st1) else process_command env t m st1)"
      "msg_ok m" "cursor m = 0" "contents m = body" "stream p = rest" "port_ok p" "\<not> PqCommReadingMsg p"
    using loop_body_frame [OF assms(1,2,4-6)] .
  have "process_command env t m (?st p) =
      (Inr (), (?st p)\<lparr>trace := (trace st @ greeting st) @ cs, send_ready_for_query := ready\<rparr>)"
    using step [OF m(2,3,4), of "?st p"] by simp
  with m assms(3) show ?thesis by (auto simp: main_step_def Let_def idle_def)
qed

lemma msg_types:
  "message_type (msgchar (CHR ''Q'')) = Some (PQ_LARGE_MESSAGE_LIMIT, False, False)"
  "message_type (msgchar (CHR ''P'')) = Some (PQ_LARGE_MESSAGE_LIMIT, True, False)"
  "message_type (msgchar (CHR ''B'')) = Some (PQ_LARGE_MESSAGE_LIMIT, True, False)"
  "message_type (msgchar (CHR ''E'')) = Some (PQ_SMALL_MESSAGE_LIMIT, True, False)"
  "message_type (msgchar (CHR ''S'')) = Some (PQ_SMALL_MESSAGE_LIMIT, False, True)"
  by code_simp+

text \<open>Reading a string at the cursor, when no conversion takes place.\<close>

lemma get_plain_string:
  assumes "msg_ok m" and "unread m = s @ 0 # rest" and "0 \<notin> set s"
  obtains m' where "pq_getmsgstring (\<lambda>_. None) m = Inr (s, m')" "msg_ok m'" "unread m' = rest"
  using text_string.get_next [OF assms(1), of "\<lambda>_. None" s "\<lambda>_. None" rest] assms
    msg_ok_advance [OF assms(1), of "length s + 1"] unread_advance [OF assms(1), of "length s + 1"]
  by (simp add: converted_def)

lemma get_plain_int:
  assumes "msg_ok m"
  shows "unread m = be_bytes 4 w @ rest \<Longrightarrow> \<exists>m'. pq_getmsgint m 4 = Inr (w, m') \<and> msg_ok m' \<and> unread m' = rest"
    and "unread m = [0, 0] @ rest \<Longrightarrow> \<exists>m'. pq_getmsgint m 2 = Inr (0, m') \<and> msg_ok m' \<and> unread m' = rest"
proof -
  have be: "be_bytes 2 (0 :: word16) = [0, 0]" by code_simp
  show "unread m = be_bytes 4 w @ rest \<Longrightarrow> \<exists>m'. pq_getmsgint m 4 = Inr (w, m') \<and> msg_ok m' \<and> unread m' = rest"
    using int32.get_next [OF assms, of w rest] msg_ok_advance [OF assms, of 4] unread_advance [OF assms, of 4] by auto
  show "unread m = [0, 0] @ rest \<Longrightarrow> \<exists>m'. pq_getmsgint m 2 = Inr (0, m') \<and> msg_ok m' \<and> unread m' = rest"
    using int16.get_next [OF assms, of 0 rest] msg_ok_advance [OF assms, of 2] unread_advance [OF assms, of 2]
    by (auto simp: be [unfolded numeral_2_eq_2] numeral_2_eq_2)
qed

lemma getmsgend_unread: "msg_ok m \<Longrightarrow> unread m = [] \<Longrightarrow> pq_getmsgend m = Inr ()"
  using length_unread [of m] by (simp add: pq_getmsgend_def)

lemma abac_check_plain:
  assumes "plain_env env"
    and dec: "abac_decision (usable env) (jni_now env (trace s)) (username env) (dbname env) q = Inr (Some d)"
    and args: "abac_arguments (usable env) (dbname env) q = Inr (action, uri)"
  shows "abac_check env q s =
    (Inr d, s\<lparr>trace := trace s @ [CheckAbac (username env) action uri d, Notice ''ABAC execution time'']\<rparr>)"
proof -
  have "abac_notices (jni_now env (trace s)) = []"
    using dec by (auto simp: abac_decision_def abac_notices_def jvm_status_def split: if_splits)
  with assms show ?thesis
    by (simp add: abac_check_def get_trace_def act_bind_def act_apply Let_def plain_call plain_notices)
qed

lemma process_query:
  assumes env: "plain_env env" and m: "msg_ok m" "cursor m = 0" "contents m = q @ [0]" and q: "0 \<notin> set q"
    and dec: "abac_decision (usable env) (jni_now env (trace s)) (username env) (dbname env) q = Inr (Some d)"
    and args: "abac_arguments (usable env) (dbname env) q = Inr (action, uri)"
  shows "process_command env (msgchar (CHR ''Q'')) m s = (Inr (), s\<lparr>trace := trace s @
      [CheckAbac (username env) action uri d, Notice ''ABAC execution time'',
       if d then ExecSimpleQuery q else Notice ''ABACML: Permission Denied.''], send_ready_for_query := True\<rparr>)"
proof -
  have "unread m = q @ 0 # []" using m(2,3) by (simp add: unread_def)
  from get_plain_string [OF m(1) this q] getmsgend_unread obtain m' where
    str: "pq_getmsgstring (client_to_server env) m = Inr (q, m')" "pq_getmsgend m' = Inr ()"
    using plain_conv(1) [OF env] by metis
  have "process_command env (msgchar (CHR ''Q'')) m s = simple_query env m s" by (simp add: process_command_def)
  also have "\<dots> = (Inr (), s\<lparr>trace := trace s @
      [CheckAbac (username env) action uri d, Notice ''ABAC execution time'',
       if d then ExecSimpleQuery q else Notice ''ABACML: Permission Denied.''], send_ready_for_query := True\<rparr>)"
    using abac_check_plain [OF env dec args] plain_conv(2) [OF env]
    by (cases d) (simp_all add: simple_query_def str act_bind_def [of "abac_check env q"] exec_query_def
        act_bind_def [of "call env _"] plain_call [OF env] set_ready_def)
  finally show ?thesis .
qed

lemma process_parse:
  assumes env: "plain_env env" and m: "msg_ok m" "cursor m = 0" "contents m = nm @ 0 # q @ 0 # [0, 0]"
    and nul: "0 \<notin> set nm" "0 \<notin> set q"
  shows "process_command env (msgchar (CHR ''P'')) m s = (Inr (), s\<lparr>trace := trace s @ [ExecParseMessage q nm []]\<rparr>)"
proof -
  have "unread m = nm @ 0 # q @ 0 # [0, 0]" using m(2,3) by (simp add: unread_def)
  from get_plain_string [OF m(1) this nul(1)] obtain m1 where
    1: "pq_getmsgstring (\<lambda>_. None) m = Inr (nm, m1)" "msg_ok m1" "unread m1 = q @ 0 # [0, 0]" .
  from get_plain_string [OF 1(2,3) nul(2)] obtain m2 where
    2: "pq_getmsgstring (\<lambda>_. None) m1 = Inr (q, m2)" "msg_ok m2" "unread m2 = [0, 0]" .
  from get_plain_int(2) [OF 2(2), of "[]"] 2(3) obtain m3 where
    3: "pq_getmsgint m2 2 = Inr (0, m3)" "msg_ok m3" "unread m3 = []" by auto
  show ?thesis
    using plain_conv [OF env]
    by (simp add: process_command_def parse_command_def forbidden_in_wal_sender_def 1(1) 2(1) 3(1)
        getmsgend_unread [OF 3(2,3)] plain_call [OF env])
qed

lemma process_execute:
  fixes rows :: word32
  assumes env: "plain_env env" and m: "msg_ok m" "cursor m = 0" "contents m = nm @ 0 # be_bytes 4 rows"
    and nul: "0 \<notin> set nm"
  shows "process_command env (msgchar (CHR ''E'')) m s =
    (Inr (), s\<lparr>trace := trace s @ [ExecExecuteMessage nm (sint rows)]\<rparr>)"
proof -
  have "unread m = nm @ 0 # be_bytes 4 rows" using m(2,3) by (simp add: unread_def)
  from get_plain_string [OF m(1) this nul] obtain m1 where
    1: "pq_getmsgstring (\<lambda>_. None) m = Inr (nm, m1)" "msg_ok m1" "unread m1 = be_bytes 4 rows" .
  from get_plain_int(1) [OF 1(2), of rows "[]"] 1(3) obtain m2 where
    2: "pq_getmsgint m1 4 = Inr (rows, m2)" "msg_ok m2" "unread m2 = []" by auto
  show ?thesis
    using plain_conv [OF env]
    by (simp add: process_command_def execute_command_def forbidden_in_wal_sender_def 1(1) 2(1)
        getmsgend_unread [OF 2(2,3)] plain_call [OF env])
qed

lemma process_bind:
  assumes "plain_env env"
  shows "process_command env (msgchar (CHR ''B'')) m s = (Inr (), s\<lparr>trace := trace s @ [ExecBindMessage (contents m)]\<rparr>)"
  using plain_conv [OF assms] by (simp add: process_command_def bind_command_def forbidden_in_wal_sender_def plain_call [OF assms])

lemma process_sync:
  assumes "plain_env env" and "msg_ok m" and "cursor m = 0" and "contents m = []"
  shows "process_command env (msgchar (CHR ''S'')) m s =
    (Inr (), s\<lparr>trace := trace s @ [FinishXactCommand], send_ready_for_query := True\<rparr>)"
  using getmsgend_unread [OF assms(2)] assms(3,4)
  by (simp add: process_command_def sync_command_def unread_def act_bind_def [of "call env _"] plain_call [OF assms(1)] set_ready_def)

lemma query_message:
  assumes "plain_env env" and "idle st" and "\<not> ignore_till_sync st"
    and "stream (port st) = frame (msgchar (CHR ''Q'')) (q @ [0]) @ rest"
    and "0 \<notin> set q" and "int (length q) + 5 \<le> PQ_LARGE_MESSAGE_LIMIT"
    and "abac_decision (usable env) (jni_now env (trace st @ greeting st)) (username env) (dbname env) q = Inr (Some d)"
  shows "\<exists>st' action uri. main_step env st = Running st' \<and>
    abac_arguments (usable env) (dbname env) q = Inr (action, uri) \<and>
    trace st' = trace st @ greeting st @ [CheckAbac (username env) action uri d, Notice ''ABAC execution time'',
      if d then ExecSimpleQuery q else Notice ''ABACML: Permission Denied.''] \<and>
    send_ready_for_query st' \<and> stream (port st') = rest"
proof -
  obtain action uri where args: "abac_arguments (usable env) (dbname env) q = Inr (action, uri)"
    using assms(7) by (auto simp: abac_decision_def result_iff split: if_splits)
  have "\<exists>st'. main_step env st = Running st' \<and> stream (port st') = rest \<and>
      trace st' = trace st @ greeting st @ [CheckAbac (username env) action uri d, Notice ''ABAC execution time'',
        if d then ExecSimpleQuery q else Notice ''ABACML: Permission Denied.''] \<and>
      idle st' \<and> \<not> ignore_till_sync st' \<and> (send_ready_for_query st' \<longleftrightarrow> True)"
    by (rule command_step [OF assms(1,2) _ assms(4) msg_types(1)])
      (use assms process_query [OF assms(1) _ _ _ assms(5) _ args] in simp_all)
  then show ?thesis using args by auto
qed

section \<open>Properties\<close>


text \<open>
  C18. A simple query message makes the backend ask for a decision about exactly this query and then
  execute it when the decision is to permit; when it is to deny, it sends a notice and is ready for the
  next command without executing anything.
\<close>

theorem query_step:
  assumes "plain_env env" and "idle st" and "\<not> ignore_till_sync st"
    and "stream (port st) = frame (msgchar (CHR ''Q'')) (q @ [0]) @ rest"
    and "0 \<notin> set q" and "int (length q) + 5 \<le> PQ_LARGE_MESSAGE_LIMIT"
    and "abac_decision (usable env) (jni_now env (trace st @ greeting st)) (username env) (dbname env) q = Inr (Some d)"
  shows "\<exists>st' action uri. main_step env st = Running st' \<and>
    abac_arguments (usable env) (dbname env) q = Inr (action, uri) \<and>
    trace st' = trace st @ greeting st @ [CheckAbac (username env) action uri d, Notice ''ABAC execution time'',
      if d then ExecSimpleQuery q else Notice ''ABACML: Permission Denied.''] \<and>
    send_ready_for_query st' \<and> stream (port st') = rest"
  by (rule query_message [OF assms])

text \<open>
  C19. The extended query protocol is not checked: a client that sends Parse, Bind and Execute messages has
  any statement prepared and executed, whatever the decision engine would answer.
\<close>

theorem extended_query_unchecked:
  fixes rows :: word32
  assumes "plain_env env" and "idle st" and "\<not> ignore_till_sync st"
    and "stream (port st) = frame (msgchar (CHR ''P'')) (nm @ 0 # q @ 0 # [0, 0]) @
      frame (msgchar (CHR ''B'')) b @ frame (msgchar (CHR ''E'')) (portal @ 0 # be_bytes 4 rows) @ rest"
    and "0 \<notin> set nm" and "0 \<notin> set q" and "0 \<notin> set portal"
    and "int (length nm) + int (length q) + 8 \<le> PQ_LARGE_MESSAGE_LIMIT"
    and "int (length b) + 4 \<le> PQ_LARGE_MESSAGE_LIMIT" and "int (length portal) + 9 \<le> PQ_SMALL_MESSAGE_LIMIT"
  shows "\<exists>st'. run_steps 3 env st = Running st' \<and> stream (port st') = rest \<and>
    trace st' = trace st @ greeting st @ [ExecParseMessage q nm [], ExecBindMessage b, ExecExecuteMessage portal (sint rows)]"
proof -
  obtain st1 where 1: "main_step env st = Running st1" "trace st1 = trace st @ greeting st @ [ExecParseMessage q nm []]"
      "stream (port st1) = frame (msgchar (CHR ''B'')) b @ frame (msgchar (CHR ''E'')) (portal @ 0 # be_bytes 4 rows) @ rest"
      "idle st1" "\<not> ignore_till_sync st1" "\<not> send_ready_for_query st1"
    using command_step [OF assms(1,2) _ assms(4) msg_types(2), where cs = "[ExecParseMessage q nm []]" and ready = False]
      process_parse [OF assms(1) _ _ _ assms(5,6)] assms(3,8) by auto
  obtain st2 where 2: "main_step env st1 = Running st2" "trace st2 = trace st1 @ [ExecBindMessage b]"
      "stream (port st2) = frame (msgchar (CHR ''E'')) (portal @ 0 # be_bytes 4 rows) @ rest"
      "idle st2" "\<not> ignore_till_sync st2" "\<not> send_ready_for_query st2"
    using command_step [OF assms(1) 1(4) _ 1(3) msg_types(3), where cs = "[ExecBindMessage b]" and ready = False]
      process_bind [OF assms(1)] 1(5,6) assms(9) by (auto simp: greeting_def)
  obtain st3 where 3: "main_step env st2 = Running st3" "stream (port st3) = rest"
      "trace st3 = trace st2 @ [ExecExecuteMessage portal (sint rows)]"
    using command_step [OF assms(1) 2(4) _ 2(3) msg_types(4), where cs = "[ExecExecuteMessage portal (sint rows)]" and ready = False]
      process_execute [OF assms(1) _ _ _ assms(7)] 2(5,6) assms(10) by (auto simp: greeting_def)
  from 1 2 3 show ?thesis by (simp add: numeral_3_eq_3)
qed


lemma example_env_plain: "plain_env (example_env permit)"
  by (simp add: plain_env_def example_env_def)

lemma example_start:
  assumes "bytes \<noteq> []"
  shows "idle (initial_backend [Received bytes]) \<and> \<not> ignore_till_sync (initial_backend [Received bytes]) \<and>
    stream (port (initial_backend [Received bytes])) = bytes \<and> trace (initial_backend [Received bytes]) = [] \<and>
    greeting (initial_backend [Received bytes]) = [ReadyForQuery]"
  using assms by (simp add: initial_backend_def idle_def port_ok_def stream_def greeting_def)

lemma example_query_step:
  "0 \<notin> set (ascii ''SELECT mark FROM scores;'')"
  "int (length (ascii ''SELECT mark FROM scores;'')) + 5 \<le> PQ_LARGE_MESSAGE_LIMIT"
  "abac_decision (usable (example_env (\<lambda>_ _ _. d))) (jni_now (example_env (\<lambda>_ _ _. d)) tr)
     (username (example_env (\<lambda>_ _ _. d))) (dbname (example_env (\<lambda>_ _ _. d))) (ascii ''SELECT mark FROM scores;'') = Inr (Some d)"
proof -
  show "0 \<notin> set (ascii ''SELECT mark FROM scores;'')" by code_simp
  show "int (length (ascii ''SELECT mark FROM scores;'')) + 5 \<le> PQ_LARGE_MESSAGE_LIMIT"
    by (simp add: PQ_LARGE_MESSAGE_LIMIT_def MaxAllocSize_def)
  have "isl (abac_arguments (\<lambda>n. n + 16) (ascii ''lms'') (ascii ''SELECT mark FROM scores;'')) = False" by code_simp
  then obtain r where "abac_arguments (\<lambda>n. n + 16) (ascii ''lms'') (ascii ''SELECT mark FROM scores;'') = Inr r"
    by (cases "abac_arguments (\<lambda>n. n + 16) (ascii ''lms'') (ascii ''SELECT mark FROM scores;'')") simp_all
  then show "abac_decision (usable (example_env (\<lambda>_ _ _. d))) (jni_now (example_env (\<lambda>_ _ _. d)) tr)
     (username (example_env (\<lambda>_ _ _. d))) (dbname (example_env (\<lambda>_ _ _. d))) (ascii ''SELECT mark FROM scores;'') = Inr (Some d)"
    by (auto simp: abac_decision_def example_env_def jvm_status_def)
qed

theorem query_step_witness:
  "\<exists>st'. main_step (example_env (\<lambda>_ _ _. False))
       (initial_backend [Received (frame (msgchar (CHR ''Q'')) (ascii ''SELECT mark FROM scores;'' @ [0]))]) = Running st' \<and>
     ExecSimpleQuery (ascii ''SELECT mark FROM scores;'') \<notin> set (trace st') \<and> send_ready_for_query st'"
proof -
  let ?m = "frame (msgchar (CHR ''Q'')) (ascii ''SELECT mark FROM scores;'' @ [0])"
  have "?m \<noteq> []" by (simp add: frame_def)
  note start = example_start [OF this]
  show ?thesis
    using query_step [OF example_env_plain _ _ _ example_query_step, of "initial_backend [Received ?m]" "[]" False] start
    by auto
qed


theorem extended_query_unchecked_witness:
  "\<exists>st'. run_steps 3 (example_env (\<lambda>_ _ _. False)) (initial_backend [Received
       (frame (msgchar (CHR ''P'')) ([] @ 0 # ascii ''DELETE FROM scores'' @ 0 # [0, 0]) @ frame (msgchar (CHR ''B'')) [0, 0, 0, 0, 0, 0, 0, 0] @
        frame (msgchar (CHR ''E'')) ([] @ 0 # be_bytes 4 (0 :: word32)) @ [])]) = Running st' \<and>
     trace st' = [ReadyForQuery, ExecParseMessage (ascii ''DELETE FROM scores'') [] [], ExecBindMessage [0, 0, 0, 0, 0, 0, 0, 0],
       ExecExecuteMessage [] 0]"
proof -
  let ?m = "frame (msgchar (CHR ''P'')) ([] @ 0 # ascii ''DELETE FROM scores'' @ 0 # [0, 0]) @ frame (msgchar (CHR ''B'')) [0, 0, 0, 0, 0, 0, 0, 0] @
        frame (msgchar (CHR ''E'')) ([] @ 0 # be_bytes 4 (0 :: word32)) @ []"
  have "?m \<noteq> []" by (simp add: frame_def)
  note start = example_start [OF this]
  have "0 \<notin> set (ascii ''DELETE FROM scores'')" by code_simp
  moreover have "int (length ([] :: byte list)) + int (length (ascii ''DELETE FROM scores'')) + 8 \<le> PQ_LARGE_MESSAGE_LIMIT"
    by (simp add: PQ_LARGE_MESSAGE_LIMIT_def MaxAllocSize_def)
  ultimately show ?thesis
    using extended_query_unchecked [OF example_env_plain _ _ _ _ _ _ _ _ _, of "initial_backend [Received ?m]" "[]"
        "ascii ''DELETE FROM scores''" "[0, 0, 0, 0, 0, 0, 0, 0]" "[]" 0 "[]" "\<lambda>_ _ _. False"] start
    by (simp add: PQ_LARGE_MESSAGE_LIMIT_def PQ_SMALL_MESSAGE_LIMIT_def MaxAllocSize_def) blast
qed


end
