(* ===== verification/Policy.thy ===== *)
theory Policy
  imports Abac
begin

text \<open>
  The policies of the repository: the XACML 3.0 and 2.0 reference policies and the Casbin model under
  \<^verbatim>\<open>src/benchmark/corpus/reference-policies\<close>, the policy that the database check uses
  (\<^verbatim>\<open>src/abacml/resources/abacmlpolicy.xml\<close>), the policy of the unit test, and the ten canonical scenarios.

  The policies are written in the XACML and Casbin policy languages, whose constructs are modelled as
  far as these files use them: policies are values of a datatype and the evaluation functions follow
  the tables of the standards (XACML 3.0 section 7 and appendix C, XACML 2.0 section 7 and appendix C).
  Where the standard leaves a choice, namely whether \<^verbatim>\<open>and\<close> and \<^verbatim>\<open>or\<close> look at the arguments after one that
  is Indeterminate, the choice is the parameter \<open>keep\<close> and the theorems hold for both.
\<close>

section \<open>The policy language\<close>

datatype attr_value = StringValue string | IntegerValue int

datatype data_type = XString | XInteger

fun type_of :: "attr_value \<Rightarrow> data_type" where
  "type_of (StringValue _) = XString"
| "type_of (IntegerValue _) = XInteger"

text \<open>The attributes of a request: category, attribute identifier and value.\<close>

type_synonym attributes = "(string \<times> string \<times> attr_value) list"

text \<open>Category, attribute identifier, data type and \<^verbatim>\<open>MustBePresent\<close>.\<close>

datatype designator = AttributeDesignator string string data_type bool

fun bag_of :: "attributes \<Rightarrow> designator \<Rightarrow> attr_value list option" where
  "bag_of as (AttributeDesignator cat aid t must) =
     (let vs = map (snd \<circ> snd) (filter (\<lambda>(c, a, v). c = cat \<and> a = aid \<and> type_of v = t) as)
      in if vs = [] \<and> must then None else Some vs)"

datatype function_id =
  string_equal | integer_less_than | integer_less_than_or_equal | integer_greater_than_or_equal
| string_one_and_only | integer_one_and_only | logical_and | logical_or

datatype expression =
  AttributeValue attr_value
| Designator designator
| Apply function_id "expression list"

datatype xvalue = Value attr_value | Boolean bool | Bag "attr_value list"

text \<open>\<open>None\<close> is Indeterminate.\<close>

fun eval_and :: "bool \<Rightarrow> xvalue option list \<Rightarrow> bool option" where
  "eval_and keep [] = Some True"
| "eval_and keep (Some (Boolean b) # xs) = (if b then eval_and keep xs else Some False)"
| "eval_and keep (_ # xs) = (if keep \<and> eval_and keep xs = Some False then Some False else None)"

fun eval_or :: "bool \<Rightarrow> xvalue option list \<Rightarrow> bool option" where
  "eval_or keep [] = Some False"
| "eval_or keep (Some (Boolean b) # xs) = (if b then Some True else eval_or keep xs)"
| "eval_or keep (_ # xs) = (if keep \<and> eval_or keep xs = Some True then Some True else None)"

fun int_relation :: "(int \<Rightarrow> int \<Rightarrow> bool) \<Rightarrow> xvalue option list \<Rightarrow> xvalue option" where
  "int_relation R [Some (Value (IntegerValue a)), Some (Value (IntegerValue b))] = Some (Boolean (R a b))"
| "int_relation R _ = None"

fun str_equal :: "xvalue option list \<Rightarrow> xvalue option" where
  "str_equal [Some (Value (StringValue a)), Some (Value (StringValue b))] = Some (Boolean (a = b))"
| "str_equal _ = None"

fun one_and_only :: "data_type \<Rightarrow> xvalue option list \<Rightarrow> xvalue option" where
  "one_and_only t [Some (Bag [v])] = (if type_of v = t then Some (Value v) else None)"
| "one_and_only t _ = None"

fun apply_function :: "bool \<Rightarrow> function_id \<Rightarrow> xvalue option list \<Rightarrow> xvalue option" where
  "apply_function keep string_equal xs = str_equal xs"
| "apply_function keep integer_less_than xs = int_relation (<) xs"
| "apply_function keep integer_less_than_or_equal xs = int_relation (\<le>) xs"
| "apply_function keep integer_greater_than_or_equal xs = int_relation (\<ge>) xs"
| "apply_function keep string_one_and_only xs = one_and_only XString xs"
| "apply_function keep integer_one_and_only xs = one_and_only XInteger xs"
| "apply_function keep logical_and xs = map_option Boolean (eval_and keep xs)"
| "apply_function keep logical_or xs = map_option Boolean (eval_or keep xs)"

fun evaluate :: "bool \<Rightarrow> attributes \<Rightarrow> expression \<Rightarrow> xvalue option" where
  "evaluate keep as (AttributeValue v) = Some (Value v)"
| "evaluate keep as (Designator d) = map_option Bag (bag_of as d)"
| "evaluate keep as (Apply f args) = apply_function keep f (map (evaluate keep as) args)"

section \<open>Targets, rules and policies\<close>

datatype matching = Matched | NoMatch | IndeterminateMatch

definition all_match :: "matching list \<Rightarrow> matching" where
  "all_match ms =
     (if NoMatch \<in> set ms then NoMatch
      else if IndeterminateMatch \<in> set ms then IndeterminateMatch else Matched)"

definition any_match :: "matching list \<Rightarrow> matching" where
  "any_match ms =
     (if Matched \<in> set ms then Matched
      else if IndeterminateMatch \<in> set ms then IndeterminateMatch else NoMatch)"

datatype xmatch = Match function_id attr_value designator

fun match_value :: "function_id \<Rightarrow> attr_value \<Rightarrow> attr_value \<Rightarrow> matching" where
  "match_value f v x =
     (case apply_function False f [Some (Value v), Some (Value x)] of
        Some (Boolean True) \<Rightarrow> Matched
      | Some (Boolean False) \<Rightarrow> NoMatch
      | _ \<Rightarrow> IndeterminateMatch)"

fun match_result :: "attributes \<Rightarrow> xmatch \<Rightarrow> matching" where
  "match_result as (Match f v d) =
     (case bag_of as d of
        None \<Rightarrow> IndeterminateMatch
      | Some vs \<Rightarrow> any_match (map (match_value f v) vs))"

text \<open>A target is a list of \<^verbatim>\<open>AnyOf\<close> elements, these of \<^verbatim>\<open>AllOf\<close> elements, and these of matches.\<close>

type_synonym target = "xmatch list list list"

definition target_result :: "attributes \<Rightarrow> target \<Rightarrow> matching" where
  "target_result as t =
     all_match (map (\<lambda>anyof. any_match (map (\<lambda>allof. all_match (map (match_result as) allof)) anyof)) t)"

datatype effect = Permit | Deny

datatype rule = Rule (rule_effect: effect) (rule_id: string) (rule_target: target) (rule_condition: "expression option")

text \<open>Decisions with the extended Indeterminate values.\<close>

datatype extended_decision =
  XPermit | XDeny | XNotApplicable | XIndeterminateP | XIndeterminateD | XIndeterminateDP

fun of_effect :: "effect \<Rightarrow> extended_decision" where
  "of_effect Permit = XPermit"
| "of_effect Deny = XDeny"

fun indeterminate :: "effect \<Rightarrow> extended_decision" where
  "indeterminate Permit = XIndeterminateP"
| "indeterminate Deny = XIndeterminateD"

definition rule_decision :: "bool \<Rightarrow> attributes \<Rightarrow> rule \<Rightarrow> extended_decision" where
  "rule_decision keep as r =
     (case target_result as (rule_target r) of
        NoMatch \<Rightarrow> XNotApplicable
      | IndeterminateMatch \<Rightarrow> indeterminate (rule_effect r)
      | Matched \<Rightarrow>
          (case rule_condition r of
             None \<Rightarrow> of_effect (rule_effect r)
           | Some c \<Rightarrow>
               (case evaluate keep as c of
                  Some (Boolean True) \<Rightarrow> of_effect (rule_effect r)
                | Some (Boolean False) \<Rightarrow> XNotApplicable
                | _ \<Rightarrow> indeterminate (rule_effect r))))"

text \<open>
  The combining algorithms: permit-overrides of XACML 3.0 (\<^verbatim>\<open>urn:...:3.0:...\<close>), of XACML 2.0
  (\<^verbatim>\<open>urn:...:1.0:...\<close>), and first-applicable.
\<close>

datatype combining = permit_overrides | legacy_permit_overrides | first_applicable

fun combine_first :: "extended_decision list \<Rightarrow> extended_decision" where
  "combine_first [] = XNotApplicable"
| "combine_first (d # ds) = (if d = XNotApplicable then combine_first ds else d)"

fun combine :: "combining \<Rightarrow> extended_decision list \<Rightarrow> extended_decision" where
  "combine permit_overrides ds =
     (if XPermit \<in> set ds then XPermit
      else if XIndeterminateDP \<in> set ds then XIndeterminateDP
      else if XIndeterminateP \<in> set ds \<and> (XIndeterminateD \<in> set ds \<or> XDeny \<in> set ds) then XIndeterminateDP
      else if XIndeterminateP \<in> set ds then XIndeterminateP
      else if XDeny \<in> set ds then XDeny
      else if XIndeterminateD \<in> set ds then XIndeterminateD
      else XNotApplicable)"
| "combine legacy_permit_overrides ds =
     (if XPermit \<in> set ds then XPermit
      else if XIndeterminateP \<in> set ds then XIndeterminateP
      else if XDeny \<in> set ds then XDeny
      else if XIndeterminateD \<in> set ds then XIndeterminateD
      else XNotApplicable)"
| "combine first_applicable ds = combine_first ds"

record xpolicy =
  policy_id :: string
  policy_combining :: combining
  policy_target :: target
  policy_rules :: "rule list"

text \<open>An Indeterminate target weakens the combined decision.\<close>

fun weaken :: "extended_decision \<Rightarrow> extended_decision" where
  "weaken XPermit = XIndeterminateP"
| "weaken XDeny = XIndeterminateD"
| "weaken d = d"

definition policy_decision :: "bool \<Rightarrow> xpolicy \<Rightarrow> attributes \<Rightarrow> extended_decision" where
  "policy_decision keep p as =
     (case target_result as (policy_target p) of
        NoMatch \<Rightarrow> XNotApplicable
      | Matched \<Rightarrow> combine (policy_combining p) (map (rule_decision keep as) (policy_rules p))
      | IndeterminateMatch \<Rightarrow> weaken (combine (policy_combining p) (map (rule_decision keep as) (policy_rules p))))"

fun response_decision :: "extended_decision \<Rightarrow> xacml_decision" where
  "response_decision XPermit = DECISION_PERMIT"
| "response_decision XDeny = DECISION_DENY"
| "response_decision XNotApplicable = DECISION_NOT_APPLICABLE"
| "response_decision _ = DECISION_INDETERMINATE"

section \<open>Requests\<close>

definition string_attribute :: "string \<Rightarrow> string \<Rightarrow> string option \<Rightarrow> attributes" where
  "string_attribute cat aid v = (case v of None \<Rightarrow> [] | Some s \<Rightarrow> [(cat, aid, StringValue s)])"

definition integer_attribute :: "string \<Rightarrow> string \<Rightarrow> int option \<Rightarrow> attributes" where
  "integer_attribute cat aid v = (case v of None \<Rightarrow> [] | Some i \<Rightarrow> [(cat, aid, IntegerValue i)])"

text \<open>The attributes that \<^verbatim>\<open>createCanonicalXACMLRequest\<close> puts into a request, and those of \<^verbatim>\<open>createXACMLRequest\<close>.\<close>

definition canonical_attributes :: "canonical_request \<Rightarrow> attributes" where
  "canonical_attributes r =
     string_attribute subject_category subject_id (subjectId r) @
     string_attribute subject_category ''urn:uoa:canvas:subject:role'' (subjectRole r) @
     string_attribute subject_category ''urn:uoa:canvas:subject:department'' (subjectDepartment r) @
     integer_attribute subject_category ''urn:uoa:canvas:subject:clearance'' (subjectClearance r) @
     string_attribute action_category action_id (request_action r) @
     string_attribute resource_category resource_id (resourceId r) @
     string_attribute resource_category ''urn:uoa:canvas:resource:owner'' (resourceOwner r) @
     string_attribute resource_category ''urn:uoa:canvas:resource:department'' (resourceDepartment r) @
     integer_attribute resource_category ''urn:uoa:canvas:resource:classification'' (resourceClassification r) @
     string_attribute environment_category ''urn:uoa:canvas:environment:network'' (envNetwork r) @
     integer_attribute environment_category ''urn:uoa:canvas:environment:hour'' (envHour r)"

definition check_attributes :: "string \<Rightarrow> string \<Rightarrow> string \<Rightarrow> attributes" where
  "check_attributes nm action uri =
     [(subject_category, subject_id, StringValue nm), (action_category, action_id, StringValue action),
      (resource_category, resource_id, StringValue uri)]"

section \<open>The reference policies\<close>

text \<open>
  \<open>must\<close> is \<^verbatim>\<open>MustBePresent\<close>: the XACML 3.0 policy sets it on every designator, the XACML 2.0 policy has the
  default \<^verbatim>\<open>false\<close>.
\<close>

definition action_designator :: "bool \<Rightarrow> designator" where
  "action_designator must = AttributeDesignator action_category action_id XString must"

definition subject_id_designator :: "bool \<Rightarrow> designator" where
  "subject_id_designator must = AttributeDesignator subject_category subject_id XString must"

definition role_designator :: "bool \<Rightarrow> designator" where
  "role_designator must = AttributeDesignator subject_category ''urn:uoa:canvas:subject:role'' XString must"

definition subject_department_designator :: "bool \<Rightarrow> designator" where
  "subject_department_designator must =
     AttributeDesignator subject_category ''urn:uoa:canvas:subject:department'' XString must"

definition clearance_designator :: "bool \<Rightarrow> designator" where
  "clearance_designator must = AttributeDesignator subject_category ''urn:uoa:canvas:subject:clearance'' XInteger must"

definition owner_designator :: "bool \<Rightarrow> designator" where
  "owner_designator must = AttributeDesignator resource_category ''urn:uoa:canvas:resource:owner'' XString must"

definition resource_department_designator :: "bool \<Rightarrow> designator" where
  "resource_department_designator must =
     AttributeDesignator resource_category ''urn:uoa:canvas:resource:department'' XString must"

definition classification_designator :: "bool \<Rightarrow> designator" where
  "classification_designator must =
     AttributeDesignator resource_category ''urn:uoa:canvas:resource:classification'' XInteger must"

definition network_designator :: "bool \<Rightarrow> designator" where
  "network_designator must = AttributeDesignator environment_category ''urn:uoa:canvas:environment:network'' XString must"

definition hour_designator :: "bool \<Rightarrow> designator" where
  "hour_designator must = AttributeDesignator environment_category ''urn:uoa:canvas:environment:hour'' XInteger must"

abbreviation the_string :: "designator \<Rightarrow> expression" where
  "the_string d \<equiv> Apply string_one_and_only [Designator d]"

abbreviation the_integer :: "designator \<Rightarrow> expression" where
  "the_integer d \<equiv> Apply integer_one_and_only [Designator d]"

abbreviation string_is :: "designator \<Rightarrow> string \<Rightarrow> xmatch" where
  "string_is d s \<equiv> Match string_equal (StringValue s) d"

definition network_condition :: "bool \<Rightarrow> expression" where
  "network_condition must =
     Apply logical_or
       [Apply string_equal [the_string (network_designator must), AttributeValue (StringValue ''campus'')],
        Apply string_equal [the_string (network_designator must), AttributeValue (StringValue ''vpn'')]]"

definition hour_condition :: "bool \<Rightarrow> expression" where
  "hour_condition must =
     Apply logical_and
       [Apply integer_greater_than_or_equal [the_integer (hour_designator must), AttributeValue (IntegerValue 8)],
        Apply integer_less_than_or_equal [the_integer (hour_designator must), AttributeValue (IntegerValue 20)]]"

definition admin_override :: "bool \<Rightarrow> rule" where
  "admin_override must =
     Rule Permit ''admin-override'' [[[string_is (role_designator must) ''admin'']]]
       (Some (Apply logical_and [network_condition must, hour_condition must]))"

definition owner_select :: "bool \<Rightarrow> rule" where
  "owner_select must =
     Rule Permit ''owner-select'' [[[string_is (action_designator must) ''SELECT'']]]
       (Some (Apply logical_and
          [Apply string_equal [the_string (owner_designator must), the_string (subject_id_designator must)],
           Apply logical_and [network_condition must, hour_condition must]]))"

definition lecturer_department_clearance :: "bool \<Rightarrow> rule" where
  "lecturer_department_clearance must =
     Rule Permit ''lecturer-department-clearance''
       [[[string_is (role_designator must) ''lecturer'']],
        [[string_is (action_designator must) ''SELECT''], [string_is (action_designator must) ''UPDATE'']]]
       (Some (Apply logical_and
          [Apply string_equal [the_string (subject_department_designator must), the_string (resource_department_designator must)],
           Apply logical_and
             [Apply integer_greater_than_or_equal
                [the_integer (clearance_designator must), the_integer (classification_designator must)],
              Apply logical_and [network_condition must, hour_condition must]]]))"

definition default_deny :: rule where
  "default_deny = Rule Deny ''default-deny'' [] None"

definition course_score_target :: "bool \<Rightarrow> target" where
  "course_score_target must =
     [[[string_is (action_designator must) ''SELECT''], [string_is (action_designator must) ''UPDATE''],
       [string_is (action_designator must) ''DELETE'']]]"

definition xacml3_course_score_policy :: xpolicy where
  "xacml3_course_score_policy =
     \<lparr>policy_id = ''uoa_course_score_policy'', policy_combining = permit_overrides,
      policy_target = course_score_target True,
      policy_rules = [admin_override True, owner_select True, lecturer_department_clearance True, default_deny]\<rparr>"

definition xacml2_course_score_policy :: xpolicy where
  "xacml2_course_score_policy =
     \<lparr>policy_id = ''uoa_course_score_policy'', policy_combining = legacy_permit_overrides,
      policy_target = course_score_target False,
      policy_rules = [admin_override False, owner_select False, lecturer_department_clearance False, default_deny]\<rparr>"

section \<open>The Casbin model\<close>

text \<open>The request as \<^verbatim>\<open>buildDataMap\<close> passes it: \<^verbatim>\<open>r.sub\<close>, \<^verbatim>\<open>r.obj\<close> and \<^verbatim>\<open>r.env\<close> are objects, \<^verbatim>\<open>r.act\<close> is a string.\<close>

record casbin_request =
  r_sub :: "string \<rightharpoonup> attr_value"
  r_obj :: "string \<rightharpoonup> attr_value"
  r_act :: string
  r_env :: "string \<rightharpoonup> attr_value"

text \<open>
  The operators of the matcher on values that may be missing from the request. What the expression
  engine does with a missing value is not known here and is the value \<open>None\<close>.
\<close>

definition c_and :: "bool option \<Rightarrow> bool option \<Rightarrow> bool option" where
  "c_and a b = (case (a, b) of (Some x, Some y) \<Rightarrow> Some (x \<and> y) | _ \<Rightarrow> None)"

definition c_or :: "bool option \<Rightarrow> bool option \<Rightarrow> bool option" where
  "c_or a b = (case (a, b) of (Some x, Some y) \<Rightarrow> Some (x \<or> y) | _ \<Rightarrow> None)"

fun c_eq :: "attr_value option \<Rightarrow> attr_value option \<Rightarrow> bool option" where
  "c_eq (Some (StringValue a)) (Some (StringValue b)) = Some (a = b)"
| "c_eq _ _ = None"

fun c_ge :: "attr_value option \<Rightarrow> attr_value option \<Rightarrow> bool option" where
  "c_ge (Some (IntegerValue a)) (Some (IntegerValue b)) = Some (a \<ge> b)"
| "c_ge _ _ = None"

fun inrange :: "int \<Rightarrow> attr_value option \<Rightarrow> int \<Rightarrow> bool option" where
  "inrange lo (Some (IntegerValue i)) hi = Some (lo \<le> i \<and> i \<le> hi)"
| "inrange lo _ hi = None"

abbreviation c_str :: "string \<Rightarrow> attr_value option" where
  "c_str s \<equiv> Some (StringValue s)"

definition casbin_place :: "casbin_request \<Rightarrow> bool option" where
  "casbin_place r =
     c_and (c_or (c_eq (r_env r ''network'') (c_str ''campus'')) (c_eq (r_env r ''network'') (c_str ''vpn'')))
       (inrange 8 (r_env r ''hour'') 20)"

definition matcher :: "casbin_request \<Rightarrow> bool option" where
  "matcher r =
     c_or (c_or
       (c_and (c_and (c_eq (r_sub r ''role'') (c_str ''admin''))
                (c_or (c_eq (c_str (r_act r)) (c_str ''SELECT'')) (c_eq (c_str (r_act r)) (c_str ''UPDATE''))))
          (casbin_place r))
       (c_and (c_and (c_eq (r_obj r ''owner'') (r_sub r ''id'')) (c_eq (c_str (r_act r)) (c_str ''SELECT'')))
          (casbin_place r)))
       (c_and (c_and (c_and (c_and (c_eq (r_sub r ''role'') (c_str ''lecturer''))
                (c_eq (r_sub r ''department'') (r_obj r ''department'')))
              (c_ge (r_sub r ''clearance'') (r_obj r ''classification'')))
            (c_or (c_eq (c_str (r_act r)) (c_str ''SELECT'')) (c_eq (c_str (r_act r)) (c_str ''UPDATE''))))
          (casbin_place r))"

text \<open>
  A policy row has a subject, an object and an action, which the matcher does not look at. The effect
  expression allows a request when the matcher holds for some row.
\<close>

type_synonym casbin_row = "string \<times> string \<times> string"

definition casbin_policy :: "casbin_row list" where
  "casbin_policy = [(''any_sub'', ''any_obj'', ''any_act'')]"

fun Enforce :: "casbin_row list \<Rightarrow> casbin_request \<Rightarrow> bool option" where
  "Enforce [] r = Some False"
| "Enforce (row # rows) r = c_or (matcher r) (Enforce rows r)"

definition casbin_attributes :: "canonical_request \<Rightarrow> casbin_request" where
  "casbin_attributes r =
     \<lparr>r_sub = map_of [(''id'', StringValue (the (subjectId r))), (''role'', StringValue (the (subjectRole r))),
                (''department'', StringValue (the (subjectDepartment r))),
                (''clearance'', IntegerValue (the (subjectClearance r)))],
      r_obj = map_of [(''id'', StringValue (the (resourceId r))), (''owner'', StringValue (the (resourceOwner r))),
                (''department'', StringValue (the (resourceDepartment r))),
                (''classification'', IntegerValue (the (resourceClassification r)))],
      r_act = the (request_action r),
      r_env = map_of [(''network'', StringValue (the (envNetwork r))), (''hour'', IntegerValue (the (envHour r)))]\<rparr>"

section \<open>The policy of the database check\<close>

definition abacmlpolicy :: xpolicy where
  "abacmlpolicy =
     \<lparr>policy_id = ''sample_policy_8'', policy_combining = first_applicable,
      policy_target = [[[string_is (subject_id_designator True) ''ubuntu'']]],
      policy_rules = [Rule Permit ''rule1'' [] None]\<rparr>"

text \<open>The policy of \<^verbatim>\<open>UOACanonicalDecisionTest\<close>.\<close>

definition uoa_canonical_test_policy :: xpolicy where
  "uoa_canonical_test_policy =
     \<lparr>policy_id = ''uoa_canvas_department_clearance_policy'', policy_combining = first_applicable,
      policy_target = [[[string_is (action_designator True) ''SELECT'']]],
      policy_rules =
        [Rule Permit ''permit-same-department-sufficient-clearance'' []
           (Some (Apply logical_and
              [Apply string_equal
                 [the_string (subject_department_designator True), the_string (resource_department_designator True)],
               Apply integer_greater_than_or_equal
                 [the_integer (clearance_designator True), the_integer (classification_designator True)]])),
         Rule Deny ''deny-default'' [] None]\<rparr>"

text \<open>
  A decision engine that answers a request text, whose attributes are given, with the decision of a
  policy.
\<close>

definition answers :: "balana \<Rightarrow> bool \<Rightarrow> xpolicy \<Rightarrow> string \<Rightarrow> attributes \<Rightarrow> bool" where
  "answers b keep p request as \<longleftrightarrow>
     response_of b (pdp_evaluate b request) = Results [response_decision (policy_decision keep p as)]"

section \<open>Specification\<close>

text \<open>All attributes are present.\<close>

definition complete :: "canonical_request \<Rightarrow> bool" where
  "complete r \<longleftrightarrow>
     subjectId r \<noteq> None \<and> subjectRole r \<noteq> None \<and> subjectDepartment r \<noteq> None \<and> subjectClearance r \<noteq> None \<and>
     resourceId r \<noteq> None \<and> resourceOwner r \<noteq> None \<and> resourceDepartment r \<noteq> None \<and>
     resourceClassification r \<noteq> None \<and> request_action r \<noteq> None \<and> envNetwork r \<noteq> None \<and> envHour r \<noteq> None"

text \<open>
  The ground truth that the description of the XACML 3.0 policy states. \<open>admin_actions\<close> are the actions
  of the administrators: the description says \<^verbatim>\<open>SELECT\<close> and \<^verbatim>\<open>UPDATE\<close>.
\<close>

definition at_work :: "canonical_request \<Rightarrow> bool" where
  "at_work r \<longleftrightarrow> the (envNetwork r) \<in> {''campus'', ''vpn''} \<and> 8 \<le> the (envHour r) \<and> the (envHour r) \<le> 20"

definition may_access :: "string set \<Rightarrow> canonical_request \<Rightarrow> bool" where
  "may_access admin_actions r \<longleftrightarrow>
     at_work r \<and>
     (the (subjectRole r) = ''admin'' \<and> the (request_action r) \<in> admin_actions \<or>
      the (resourceOwner r) = the (subjectId r) \<and> the (request_action r) = ''SELECT'' \<or>
      the (subjectRole r) = ''lecturer'' \<and> the (request_action r) \<in> {''SELECT'', ''UPDATE''} \<and>
        the (subjectDepartment r) = the (resourceDepartment r) \<and>
        the (subjectClearance r) \<ge> the (resourceClassification r))"

definition course_score_spec :: "string set \<Rightarrow> canonical_request \<Rightarrow> xacml_decision" where
  "course_score_spec admin_actions r =
     (if the (request_action r) \<notin> {''SELECT'', ''UPDATE'', ''DELETE''} then DECISION_NOT_APPLICABLE
      else if may_access admin_actions r then DECISION_PERMIT
      else DECISION_DENY)"

text \<open>A request with every attribute: a lecturer reads a score of the own department.\<close>

definition example_request :: canonical_request where
  "example_request =
     \<lparr>subjectId = Some ''prof_smith'', subjectRole = Some ''lecturer'', subjectDepartment = Some ''ComputerScience'',
      subjectClearance = Some 3, resourceId = Some ''COMPSCI101_SCORE'', resourceOwner = Some ''alice'',
      resourceDepartment = Some ''ComputerScience'', resourceClassification = Some 2, request_action = Some ''SELECT'',
      envNetwork = Some ''campus'', envHour = Some 10\<rparr>"

text \<open>An engine for the database check that knows the names it is asked about.\<close>

definition example_balana :: "string list \<Rightarrow> balana" where
  "example_balana permitted =
     \<lparr>pdp_evaluate = (\<lambda>request. if request \<in> set permitted then ''Permit'' else ''NotApplicable''),
      response_of = (\<lambda>response. Results [if response = ''Permit'' then DECISION_PERMIT else DECISION_NOT_APPLICABLE])\<rparr>"

section \<open>Evaluation of the reference policies\<close>

lemma category_distinct [simp]:
  "subject_category \<noteq> action_category" "action_category \<noteq> subject_category"
  "subject_category \<noteq> resource_category" "resource_category \<noteq> subject_category"
  "subject_category \<noteq> environment_category" "environment_category \<noteq> subject_category"
  "action_category \<noteq> resource_category" "resource_category \<noteq> action_category"
  "action_category \<noteq> environment_category" "environment_category \<noteq> action_category"
  "resource_category \<noteq> environment_category" "environment_category \<noteq> resource_category"
  by (simp_all add: subject_category_def action_category_def resource_category_def environment_category_def)

lemma bag_of_append:
  "bag_of (as @ bs) (AttributeDesignator cat aid t must) =
     (let vs = the (bag_of as (AttributeDesignator cat aid t False)) @ the (bag_of bs (AttributeDesignator cat aid t False))
      in if vs = [] \<and> must then None else Some vs)"
  by (simp add: Let_def)

lemma bag_of_attribute:
  "bag_of (string_attribute c a v) (AttributeDesignator cat aid t False) =
     Some (if c = cat \<and> a = aid \<and> t = XString then (case v of None \<Rightarrow> [] | Some s \<Rightarrow> [StringValue s]) else [])"
  "bag_of (integer_attribute c a w) (AttributeDesignator cat aid t False) =
     Some (if c = cat \<and> a = aid \<and> t = XInteger then (case w of None \<Rightarrow> [] | Some i \<Rightarrow> [IntegerValue i]) else [])"
  by (auto simp: string_attribute_def integer_attribute_def split: option.split)

lemma bag_canonical:
  "bag_of (canonical_attributes r) (action_designator must) =
     (case request_action r of None \<Rightarrow> if must then None else Some [] | Some s \<Rightarrow> Some [StringValue s])"
  "bag_of (canonical_attributes r) (subject_id_designator must) =
     (case subjectId r of None \<Rightarrow> if must then None else Some [] | Some s \<Rightarrow> Some [StringValue s])"
  "bag_of (canonical_attributes r) (role_designator must) =
     (case subjectRole r of None \<Rightarrow> if must then None else Some [] | Some s \<Rightarrow> Some [StringValue s])"
  "bag_of (canonical_attributes r) (subject_department_designator must) =
     (case subjectDepartment r of None \<Rightarrow> if must then None else Some [] | Some s \<Rightarrow> Some [StringValue s])"
  "bag_of (canonical_attributes r) (clearance_designator must) =
     (case subjectClearance r of None \<Rightarrow> if must then None else Some [] | Some i \<Rightarrow> Some [IntegerValue i])"
  "bag_of (canonical_attributes r) (owner_designator must) =
     (case resourceOwner r of None \<Rightarrow> if must then None else Some [] | Some s \<Rightarrow> Some [StringValue s])"
  "bag_of (canonical_attributes r) (resource_department_designator must) =
     (case resourceDepartment r of None \<Rightarrow> if must then None else Some [] | Some s \<Rightarrow> Some [StringValue s])"
  "bag_of (canonical_attributes r) (classification_designator must) =
     (case resourceClassification r of None \<Rightarrow> if must then None else Some [] | Some i \<Rightarrow> Some [IntegerValue i])"
  "bag_of (canonical_attributes r) (network_designator must) =
     (case envNetwork r of None \<Rightarrow> if must then None else Some [] | Some s \<Rightarrow> Some [StringValue s])"
  "bag_of (canonical_attributes r) (hour_designator must) =
     (case envHour r of None \<Rightarrow> if must then None else Some [] | Some i \<Rightarrow> Some [IntegerValue i])"
  by (simp_all add: canonical_attributes_def bag_of_append bag_of_attribute Let_def subject_id_def del: bag_of.simps
      add: action_designator_def subject_id_designator_def role_designator_def subject_department_designator_def
        clearance_designator_def owner_designator_def resource_department_designator_def
        classification_designator_def network_designator_def hour_designator_def resource_id_def
      split: option.split)

lemma match_lists [simp]:
  "any_match [] = NoMatch" "all_match [] = Matched"
  "any_match (Matched # ms) = Matched" "all_match (NoMatch # ms) = NoMatch"
  "any_match (NoMatch # ms) = any_match ms" "all_match (Matched # ms) = all_match ms"
  by (auto simp: any_match_def all_match_def)

lemma match_booleans:
  "any_match ((if a then Matched else NoMatch) # ms) = (if a then Matched else any_match ms)"
  "all_match ((if a then Matched else NoMatch) # ms) = (if a then all_match ms else NoMatch)"
  "(if a then Matched else if b then Matched else NoMatch) = (if a \<or> b then Matched else NoMatch)"
  "(if a then if b then Matched else NoMatch else NoMatch) = (if a \<and> b then Matched else NoMatch)"
  by simp_all

lemma match_single:
  "match_result (canonical_attributes r) (string_is (action_designator must) s) =
     (case request_action r of None \<Rightarrow> if must then IndeterminateMatch else NoMatch
      | Some x \<Rightarrow> if x = s then Matched else NoMatch)"
  "match_result (canonical_attributes r) (string_is (role_designator must) s) =
     (case subjectRole r of None \<Rightarrow> if must then IndeterminateMatch else NoMatch
      | Some x \<Rightarrow> if x = s then Matched else NoMatch)"
  by (auto simp: bag_canonical any_match_def split: option.split)

declare match_result.simps [simp del] bag_of.simps [simp del]

lemmas policy_eval = target_result_def match_booleans match_single bag_canonical

lemma evaluate_place:
  assumes "complete r"
  shows "evaluate keep (canonical_attributes r) (network_condition must) = Some (Boolean (the (envNetwork r) \<in> {''campus'', ''vpn''}))"
    and "evaluate keep (canonical_attributes r) (hour_condition must) =
      Some (Boolean (8 \<le> the (envHour r) \<and> the (envHour r) \<le> 20))"
  using assms by (auto simp: network_condition_def hour_condition_def policy_eval complete_def)

lemma rule_decision_boolean:
  assumes "target_result as (rule_target rl) = (if t then Matched else NoMatch)"
    and "rule_condition rl = Some c" and "evaluate keep as c = Some (Boolean b)"
  shows "rule_decision keep as rl = (if t \<and> b then of_effect (rule_effect rl) else XNotApplicable)"
  using assms by (simp add: rule_decision_def)

lemma complete_values:
  assumes "complete r"
  obtains sid role dept clearance rid own rdept cls act net hour where
    "subjectId r = Some sid" "subjectRole r = Some role" "subjectDepartment r = Some dept"
    "subjectClearance r = Some clearance" "resourceId r = Some rid" "resourceOwner r = Some own"
    "resourceDepartment r = Some rdept" "resourceClassification r = Some cls" "request_action r = Some act"
    "envNetwork r = Some net" "envHour r = Some hour"
  using assms by (auto simp: complete_def)

lemma admin_override_decision:
  assumes "complete r"
  shows "rule_decision keep (canonical_attributes r) (admin_override must) =
    (if the (subjectRole r) = ''admin'' \<and> at_work r then XPermit else XNotApplicable)"
proof -
  have "target_result (canonical_attributes r) (rule_target (admin_override must)) =
      (if the (subjectRole r) = ''admin'' then Matched else NoMatch)"
    using assms by (elim complete_values) (simp add: admin_override_def policy_eval split del: if_split cong: if_cong)
  then show ?thesis
    by (simp add: rule_decision_boolean [where b = "at_work r"] admin_override_def at_work_def
        evaluate_place [OF assms])
qed

lemma owner_select_decision:
  assumes "complete r"
  shows "rule_decision keep (canonical_attributes r) (owner_select must) =
    (if the (request_action r) = ''SELECT'' \<and> the (resourceOwner r) = the (subjectId r) \<and> at_work r
     then XPermit else XNotApplicable)"
proof -
  have "target_result (canonical_attributes r) (rule_target (owner_select must)) =
      (if the (request_action r) = ''SELECT'' then Matched else NoMatch)"
    using assms by (elim complete_values) (simp add: owner_select_def policy_eval split del: if_split cong: if_cong)
  moreover have "evaluate keep (canonical_attributes r) (the (rule_condition (owner_select must))) =
      Some (Boolean (the (resourceOwner r) = the (subjectId r) \<and> at_work r))"
    using assms by (elim complete_values) (simp add: owner_select_def policy_eval at_work_def evaluate_place [OF assms])
  ultimately show ?thesis
    by (simp add: rule_decision_boolean owner_select_def)
qed

lemma lecturer_decision:
  assumes "complete r"
  shows "rule_decision keep (canonical_attributes r) (lecturer_department_clearance must) =
    (if the (subjectRole r) = ''lecturer'' \<and> the (request_action r) \<in> {''SELECT'', ''UPDATE''} \<and>
        the (subjectDepartment r) = the (resourceDepartment r) \<and>
        the (subjectClearance r) \<ge> the (resourceClassification r) \<and> at_work r
     then XPermit else XNotApplicable)"
proof -
  have "target_result (canonical_attributes r) (rule_target (lecturer_department_clearance must)) =
      (if the (subjectRole r) = ''lecturer'' \<and> the (request_action r) \<in> {''SELECT'', ''UPDATE''} then Matched else NoMatch)"
    using assms by (elim complete_values) (simp add: lecturer_department_clearance_def policy_eval split del: if_split cong: if_cong)
  moreover have "evaluate keep (canonical_attributes r) (the (rule_condition (lecturer_department_clearance must))) =
      Some (Boolean (the (subjectDepartment r) = the (resourceDepartment r) \<and>
        the (subjectClearance r) \<ge> the (resourceClassification r) \<and> at_work r))"
    using assms
    by (elim complete_values) (simp add: lecturer_department_clearance_def policy_eval at_work_def evaluate_place [OF assms])
  ultimately show ?thesis
    by (simp add: rule_decision_boolean lecturer_department_clearance_def)
qed

lemma default_deny_decision: "rule_decision keep as default_deny = XDeny"
  by (simp add: rule_decision_def default_deny_def target_result_def all_match_def)

lemmas rule_decisions = admin_override_decision owner_select_decision lecturer_decision

lemma course_score_target_result:
  "complete r \<Longrightarrow> target_result (canonical_attributes r) (course_score_target must) =
     (if the (request_action r) \<in> {''SELECT'', ''UPDATE'', ''DELETE''} then Matched else NoMatch)"
  by (elim complete_values) (simp add: course_score_target_def policy_eval split del: if_split cong: if_cong)

lemma combine_permits:
  assumes "alg \<noteq> first_applicable"
  shows "combine alg [if a then XPermit else XNotApplicable, if b then XPermit else XNotApplicable,
      if c then XPermit else XNotApplicable, XDeny] = (if a \<or> b \<or> c then XPermit else XDeny)"
  using assms by (cases alg) simp_all

lemma course_score_decision:
  assumes "complete r" and "alg \<noteq> first_applicable"
  shows "response_decision (policy_decision keep
      \<lparr>policy_id = pid, policy_combining = alg, policy_target = course_score_target must,
       policy_rules = [admin_override must, owner_select must, lecturer_department_clearance must, default_deny]\<rparr>
      (canonical_attributes r)) =
    course_score_spec {''SELECT'', ''UPDATE'', ''DELETE''} r"
proof (cases "the (request_action r) \<in> {''SELECT'', ''UPDATE'', ''DELETE''}")
  case True
  then show ?thesis
    unfolding policy_decision_def xpolicy.simps list.map rule_decisions [OF assms(1)] default_deny_decision
      course_score_target_result [OF assms(1)] combine_permits [OF assms(2)]
    by (simp add: course_score_spec_def may_access_def del: insert_iff) blast
next
  case False
  then show ?thesis
    by (simp add: policy_decision_def course_score_target_result [OF assms(1)] course_score_spec_def del: insert_iff)
qed

lemmas course_score_decisions =
  course_score_decision [of _ permit_overrides _ "''uoa_course_score_policy''" True,
    folded xacml3_course_score_policy_def, simplified]
  course_score_decision [of _ legacy_permit_overrides _ "''uoa_course_score_policy''" False,
    folded xacml2_course_score_policy_def, simplified]

lemma matcher_spec:
  assumes "complete r"
  shows "matcher (casbin_attributes r) = Some (may_access {''SELECT'', ''UPDATE''} r)"
  using assms
  by (auto simp: matcher_def casbin_place_def casbin_attributes_def c_and_def c_or_def may_access_def at_work_def complete_def)

lemma Enforce_spec:
  assumes "complete r"
  shows "Enforce rows (casbin_attributes r) = Some (rows \<noteq> [] \<and> may_access {''SELECT'', ''UPDATE''} r)"
  by (induction rows) (auto simp: matcher_spec [OF assms] c_or_def)

section \<open>Adding rules\<close>

text \<open>
  Under either permit-overrides algorithm, Deny rules can be added without effect to a policy that has
  an unconditional Deny rule, whatever they match and even if their evaluation fails.
\<close>

lemma Deny_rule_decision:
  "rule_effect rl = Deny \<Longrightarrow> rule_decision keep as rl \<in> {XDeny, XNotApplicable, XIndeterminateD}"
  by (auto simp: rule_decision_def split: matching.split option.split xvalue.split bool.split)

lemma combine_add_denials:
  assumes "XDeny \<in> set ds" and "set es \<subseteq> {XDeny, XNotApplicable, XIndeterminateD}"
    and "alg \<noteq> first_applicable"
  shows "combine alg (ds @ es) = combine alg ds"
proof -
  have "XPermit \<notin> set es" "XIndeterminateDP \<notin> set es" "XIndeterminateP \<notin> set es" using assms(2) by auto
  with assms show ?thesis by (cases alg) auto
qed

lemma policy_add_denials:
  assumes "default_deny \<in> set (policy_rules p)" and "\<forall>rl \<in> set decoys. rule_effect rl = Deny"
    and "policy_combining p \<noteq> first_applicable"
  shows "policy_decision keep (p\<lparr>policy_rules := policy_rules p @ decoys\<rparr>) as = policy_decision keep p as"
proof -
  have "XDeny \<in> set (map (rule_decision keep as) (policy_rules p))"
    using imageI [OF assms(1), of "rule_decision keep as"] by (simp add: default_deny_decision)
  moreover have "set (map (rule_decision keep as) decoys) \<subseteq> {XDeny, XNotApplicable, XIndeterminateD}"
    using assms(2) Deny_rule_decision by auto
  ultimately show ?thesis
    using combine_add_denials [OF _ _ assms(3)] by (simp add: policy_decision_def split: matching.split)
qed

section \<open>The database check\<close>

lemma subject_id_match:
  "match_result (check_attributes nm action uri) (string_is (subject_id_designator must) s) =
     (if nm = s then Matched else NoMatch)"
  by (auto simp: match_result.simps bag_of.simps check_attributes_def subject_id_designator_def)

lemma abacmlpolicy_decision:
  "policy_decision keep abacmlpolicy (check_attributes nm action uri) =
     (if nm = ''ubuntu'' then XPermit else XNotApplicable)"
  by (simp add: policy_decision_def abacmlpolicy_def target_result_def subject_id_match rule_decision_def)

lemma test_policy_decision:
  assumes "complete r"
  shows "response_decision (policy_decision keep uoa_canonical_test_policy (canonical_attributes r)) =
    (if the (request_action r) \<noteq> ''SELECT'' then DECISION_NOT_APPLICABLE
     else if the (subjectDepartment r) = the (resourceDepartment r) \<and>
       the (subjectClearance r) \<ge> the (resourceClassification r) then DECISION_PERMIT
     else DECISION_DENY)"
  using assms
  by (elim complete_values)
    (auto simp: policy_decision_def uoa_canonical_test_policy_def rule_decision_def policy_eval)

section \<open>Properties\<close>


text \<open>
  C30. The Casbin matcher allows a request with all attributes exactly when the XACML reference policy
  permits it and the action is not \<^verbatim>\<open>DELETE\<close>: an administrator at work who deletes is permitted by XACML
  and refused by Casbin, and this is the only difference.
\<close>

theorem casbin_agrees_but_for_delete:
  assumes "complete r" and "rows \<noteq> []"
  shows "Enforce rows (casbin_attributes r) =
      Some (response_decision (policy_decision keep xacml3_course_score_policy (canonical_attributes r)) = DECISION_PERMIT \<and>
        the (request_action r) \<noteq> ''DELETE'') \<and>
    (response_decision (policy_decision keep xacml3_course_score_policy (canonical_attributes r)) = DECISION_PERMIT \<and>
       the (request_action r) = ''DELETE'' \<longleftrightarrow>
     the (subjectRole r) = ''admin'' \<and> at_work r \<and> the (request_action r) = ''DELETE'')"
  unfolding Enforce_spec [OF assms(1)] course_score_decisions [OF assms(1)]
  using assms(2) by (auto simp: course_score_spec_def may_access_def)

text \<open>
  With an engine that answers by the standard, the check of the database permits the user \<^verbatim>\<open>ubuntu\<close>
  everything and all other users nothing, whatever the action and the resource.
\<close>

theorem database_check_by_name:
  assumes "answers b keep abacmlpolicy (createXACMLRequest nm action uri) (check_attributes nm action uri)"
  shows "Check_ABAC_Permission b nm action uri = Some (nm = ''ubuntu'')"
  using assms by (simp add: answers_def Check_ABAC_Permission_def abacmlpolicy_decision)

text \<open>
  The two reference policies differ when an attribute is missing: a request without a role is
  Indeterminate in XACML 3.0 and denied in XACML 2.0.
\<close>

theorem missing_role_differs:
  "response_decision (policy_decision keep xacml3_course_score_policy
     (canonical_attributes (example_request\<lparr>subjectRole := None\<rparr>))) = DECISION_INDETERMINATE \<and>
   response_decision (policy_decision keep xacml2_course_score_policy
     (canonical_attributes (example_request\<lparr>subjectRole := None\<rparr>))) = DECISION_DENY"
  by (cases keep) code_simp+


theorem casbin_agrees_but_for_delete_witness:
  "complete example_request \<and> Enforce casbin_policy (casbin_attributes example_request) = Some True"
proof -
  have complete: "complete example_request" by (simp add: complete_def example_request_def)
  have "response_decision (policy_decision False xacml3_course_score_policy (canonical_attributes example_request)) = DECISION_PERMIT"
    by code_simp
  then show ?thesis
    using complete casbin_agrees_but_for_delete [OF complete, of casbin_policy False]
    by (simp add: casbin_policy_def example_request_def)
qed

theorem database_check_by_name_witness:
  "Check_ABAC_Permission (example_balana [createXACMLRequest ''ubuntu'' ''Get'' ''/UOA_CANVAS_LMS/lms'']) ''alice'' ''Get'' ''/UOA_CANVAS_LMS/lms'' =
     Some False"
proof -
  let ?b = "example_balana [createXACMLRequest ''ubuntu'' ''Get'' ''/UOA_CANVAS_LMS/lms'']"
  have "answers ?b False abacmlpolicy (createXACMLRequest ''alice'' ''Get'' ''/UOA_CANVAS_LMS/lms'')
      (check_attributes ''alice'' ''Get'' ''/UOA_CANVAS_LMS/lms'')"
    by (simp add: answers_def abacmlpolicy_decision example_balana_def createXACMLRequest_def)
  from database_check_by_name [OF this] show ?thesis by simp
qed

end
