(* ===== verification/Corpus.thy ===== *)
theory Corpus
  imports Policy
begin

text \<open>
  The benchmark corpus: the inputs that \<^verbatim>\<open>src/benchmark/scripts/generate-corpus.py\<close> writes for the engines,
  the decoy rules it adds to the policies, and the programs that read the scenarios back and compare
  decisions (\<^verbatim>\<open>MiddleLayerCorpusRunner.java\<close> and \<^verbatim>\<open>CasbinCorpusRunner.cpp\<close>, correctness mode).

  Files are strings. A scenario of the JSON corpus has optional string and integer attributes. The
  random number generator and the decision engines are parameters; a thrown exception is the value
  \<open>None\<close>. Timing, host names and the JSON result lines are not modelled.
\<close>

section \<open>Scenarios\<close>

record scenario =
  sc_id :: string
  sc_request :: canonical_request
  sc_expected :: string

definition TAB :: char where
  "TAB = CHR 0x09"

definition NL :: char where
  "NL = CHR 0x0A"

definition CR :: char where
  "CR = CHR 0x0D"

definition field_string :: "string option \<Rightarrow> string" where
  "field_string v = (case v of None \<Rightarrow> [] | Some s \<Rightarrow> s)"

definition field_integer :: "int option \<Rightarrow> string" where
  "field_integer v = (case v of None \<Rightarrow> [] | Some i \<Rightarrow> int_digits i)"

definition columns :: "string list" where
  "columns =
     [''id'', ''subject_id'', ''subject_role'', ''subject_department'', ''subject_clearance'',
      ''resource_id'', ''resource_owner'', ''resource_department'', ''resource_classification'',
      ''action'', ''env_network'', ''env_hour'', ''expected'']"

definition scenario_row :: "scenario \<Rightarrow> string list" where
  "scenario_row s =
     (let r = sc_request s
      in [sc_id s, field_string (subjectId r), field_string (subjectRole r),
          field_string (subjectDepartment r), field_integer (subjectClearance r),
          field_string (resourceId r), field_string (resourceOwner r),
          field_string (resourceDepartment r), field_integer (resourceClassification r),
          field_string (request_action r), field_string (envNetwork r), field_integer (envHour r),
          sc_expected s])"

fun join_tab :: "string list \<Rightarrow> string" where
  "join_tab [] = []"
| "join_tab [c] = c"
| "join_tab (c # cs) = c @ TAB # join_tab cs"

definition tsv_line :: "string list \<Rightarrow> string" where
  "tsv_line row = join_tab row @ [NL]"

definition write_scenarios_tsv :: "scenario list \<Rightarrow> string option" where
  "write_scenarios_tsv scenarios =
     (if \<exists>s \<in> set scenarios. \<exists>c \<in> set (scenario_row s). TAB \<in> set c \<or> NL \<in> set c then None
      else Some (concat (map tsv_line (columns # map scenario_row scenarios))))"

section \<open>Reading the scenarios in Java\<close>

text \<open>\<^verbatim>\<open>BufferedReader.readLine\<close> until the end: a line ends with a line feed, a carriage return, or both.\<close>

function java_lines :: "string \<Rightarrow> string list" where
  "java_lines s =
     (if s = [] then []
      else let line = takeWhile (\<lambda>c. c \<noteq> NL \<and> c \<noteq> CR) s
           in case dropWhile (\<lambda>c. c \<noteq> NL \<and> c \<noteq> CR) s of
                [] \<Rightarrow> [line]
              | c # rest \<Rightarrow>
                  line # java_lines (if c = CR \<and> rest \<noteq> [] \<and> hd rest = NL then tl rest else rest))"
  by pat_completeness auto
termination
proof (relation "measure length")
  fix s line c rest
  assume "dropWhile (\<lambda>c. c \<noteq> NL \<and> c \<noteq> CR) s = c # rest"
  then have "length rest < length s"
    using length_dropWhile_le [of "\<lambda>c. c \<noteq> NL \<and> c \<noteq> CR" s] by simp
  then show "((if c = CR \<and> rest \<noteq> [] \<and> hd rest = NL then tl rest else rest), s) \<in> measure length"
    by auto
qed simp

declare java_lines.simps [simp del]

text \<open>\<^verbatim>\<open>line.split("\t", -1)\<close>.\<close>

fun java_split :: "string \<Rightarrow> string list" where
  "java_split [] = [[]]"
| "java_split (c # s) =
     (if c = TAB then [] # java_split s
      else case java_split s of [] \<Rightarrow> [[c]] | cell # cells \<Rightarrow> (c # cell) # cells)"

definition readTsv :: "string \<Rightarrow> string list list" where
  "readTsv file = map java_split (filter (\<lambda>line. line \<noteq> []) (java_lines file))"

definition indexHeader :: "string list \<Rightarrow> string \<rightharpoonup> nat" where
  "indexHeader header = foldl (\<lambda>col (i, h). col(h \<mapsto> i)) Map.empty (enumerate 0 header)"

definition get :: "string list \<Rightarrow> (string \<rightharpoonup> nat) \<Rightarrow> string \<Rightarrow> string" where
  "get row col nm = (case col nm of None \<Rightarrow> [] | Some idx \<Rightarrow> if idx \<ge> length row then [] else row ! idx)"

definition emptyToNull :: "string \<Rightarrow> string option" where
  "emptyToNull s = (if s = [] then None else Some s)"

text \<open>\<^verbatim>\<open>Integer.valueOf\<close>.\<close>

definition is_digit :: "char \<Rightarrow> bool" where
  "is_digit c \<longleftrightarrow> 48 \<le> (of_char c :: nat) \<and> (of_char c :: nat) \<le> 57"

definition digits_value :: "string \<Rightarrow> nat" where
  "digits_value s = foldl (\<lambda>n c. 10 * n + (of_char c - 48)) 0 s"

definition in_int_range :: "int \<Rightarrow> bool" where
  "in_int_range i \<longleftrightarrow> - INT_MAX - 1 \<le> i \<and> i \<le> INT_MAX"

definition parse_digits :: "bool \<Rightarrow> string \<Rightarrow> int option" where
  "parse_digits neg s =
     (let i = (if neg then - int (digits_value s) else int (digits_value s))
      in if s \<noteq> [] \<and> list_all is_digit s \<and> in_int_range i then Some i else None)"

definition Integer_valueOf :: "string \<Rightarrow> int option" where
  "Integer_valueOf s =
     (if s \<noteq> [] \<and> hd s = CHR ''-'' then parse_digits True (tl s)
      else if s \<noteq> [] \<and> hd s = CHR ''+'' then parse_digits False (tl s)
      else parse_digits False s)"

text \<open>The outer \<open>None\<close> is a \<^verbatim>\<open>NumberFormatException\<close>, the inner one \<^verbatim>\<open>null\<close>.\<close>

definition parseIntOrNull :: "string \<Rightarrow> int option option" where
  "parseIntOrNull s = (if s = [] then Some None else map_option Some (Integer_valueOf s))"

definition row_request :: "string list \<Rightarrow> (string \<rightharpoonup> nat) \<Rightarrow> canonical_request option" where
  "row_request row col =
     (case (parseIntOrNull (get row col ''subject_clearance''), parseIntOrNull (get row col ''resource_classification''),
            parseIntOrNull (get row col ''env_hour'')) of
        (Some clearance, Some cls, Some hour) \<Rightarrow>
          Some \<lparr>subjectId = Some (get row col ''subject_id''), subjectRole = emptyToNull (get row col ''subject_role''),
            subjectDepartment = emptyToNull (get row col ''subject_department''), subjectClearance = clearance,
            resourceId = Some (get row col ''resource_id''), resourceOwner = emptyToNull (get row col ''resource_owner''),
            resourceDepartment = emptyToNull (get row col ''resource_department''), resourceClassification = cls,
            request_action = Some (get row col ''action''), envNetwork = emptyToNull (get row col ''env_network''),
            envHour = hour\<rparr>
      | _ \<Rightarrow> None)"

definition evaluateRow :: "balana \<Rightarrow> string list \<Rightarrow> (string \<rightharpoonup> nat) \<Rightarrow> string option" where
  "evaluateRow b row col = Option.bind (row_request row col) (Evaluate_ABAC_Decision b)"

text \<open>The loop of \<^verbatim>\<open>runCorrectness\<close>, and its result: correct answers, scenarios and exit status.\<close>

fun correctness_loop :: "balana \<Rightarrow> (string \<rightharpoonup> nat) \<Rightarrow> string list list \<Rightarrow> nat \<times> nat \<Rightarrow> nat \<times> nat" where
  "correctness_loop b col [] (correct, tot) = (correct, tot)"
| "correctness_loop b col (row # rows) (correct, tot) =
     (let isCorrect = (evaluateRow b row col = Some (get row col ''expected''))
      in correctness_loop b col rows (if isCorrect then correct + 1 else correct, tot + 1))"

definition runCorrectness :: "balana \<Rightarrow> string \<Rightarrow> (nat \<times> nat \<times> nat) option" where
  "runCorrectness b scenariosTsv =
     (case readTsv scenariosTsv of
        header # first # rest \<Rightarrow>
          let col = indexHeader header
          in case evaluateRow b first col of
               None \<Rightarrow> None
             | Some _ \<Rightarrow>
                 let (correct, tot) = correctness_loop b col (first # rest) (0, 0)
                 in Some (correct, tot, if correct = tot then 0 else 1)
      | _ \<Rightarrow> None)"

section \<open>Reading the scenarios in C++\<close>

text \<open>\<^verbatim>\<open>std::getline\<close> until the end of the file.\<close>

function cpp_lines :: "string \<Rightarrow> string list" where
  "cpp_lines s =
     (if s = [] then []
      else takeWhile (\<lambda>c. c \<noteq> NL) s # cpp_lines (drop (length (takeWhile (\<lambda>c. c \<noteq> NL) s) + 1) s))"
  by pat_completeness auto
termination by (relation "measure length") auto

declare cpp_lines.simps [simp del]

function splitTab :: "string \<Rightarrow> string list" where
  "splitTab line =
     (let pos = length (takeWhile (\<lambda>c. c \<noteq> TAB) line)
      in if pos = length line then [line] else take pos line # splitTab (drop (pos + 1) line))"
  by pat_completeness auto
termination
proof (relation "measure length")
  fix line pos
  assume "pos = length (takeWhile (\<lambda>c. c \<noteq> TAB) line)" and "pos \<noteq> length line"
  then show "(drop (pos + 1) line, line) \<in> measure length" by (cases line) auto
qed simp

declare splitTab.simps [simp del]

definition readTsvRows :: "string \<Rightarrow> string list list" where
  "readTsvRows file = map splitTab (filter (\<lambda>line. line \<noteq> []) (cpp_lines file))"

definition row_map :: "string list \<Rightarrow> string list \<Rightarrow> string \<rightharpoonup> string" where
  "row_map header row = foldl (\<lambda>f (h, v). f(h \<mapsto> v)) Map.empty (zip header row)"

text \<open>\<^verbatim>\<open>std::stoi\<close>: leading blanks and a sign are accepted, and text after the digits is ignored.\<close>

definition is_space :: "char \<Rightarrow> bool" where
  "is_space c \<longleftrightarrow> (of_char c :: nat) = 32 \<or> 9 \<le> (of_char c :: nat) \<and> (of_char c :: nat) \<le> 13"

definition stoi :: "string \<Rightarrow> int option" where
  "stoi s =
     (let s = dropWhile is_space s
      in if s \<noteq> [] \<and> hd s = CHR ''-'' then parse_digits True (takeWhile is_digit (tl s))
         else if s \<noteq> [] \<and> hd s = CHR ''+'' then parse_digits False (takeWhile is_digit (tl s))
         else parse_digits False (takeWhile is_digit s))"

text \<open>Fields of the JSON objects: \<open>None\<close> is an exception, an empty list a field that is left out.\<close>

definition json_string :: "(string \<rightharpoonup> string) \<Rightarrow> string \<Rightarrow> string \<Rightarrow> (string \<times> attr_value) list option" where
  "json_string f key nm = map_option (\<lambda>v. if v = [] then [] else [(nm, StringValue v)]) (f key)"

definition json_integer :: "(string \<rightharpoonup> string) \<Rightarrow> string \<Rightarrow> string \<Rightarrow> (string \<times> attr_value) list option" where
  "json_integer f key nm =
     Option.bind (f key) (\<lambda>v. if v = [] then Some [] else map_option (\<lambda>i. [(nm, IntegerValue i)]) (stoi v))"

definition json_object :: "(string \<times> attr_value) list option list \<Rightarrow> (string \<rightharpoonup> attr_value) option" where
  "json_object fs = map_option (\<lambda>fs. map_of (concat fs)) (those fs)"

definition buildDataMap :: "(string \<rightharpoonup> string) \<Rightarrow> casbin_request option" where
  "buildDataMap f =
     (case (json_object [map_option (\<lambda>v. [(''id'', StringValue v)]) (f ''subject_id''), json_string f ''subject_role'' ''role'',
              json_string f ''subject_department'' ''department'', json_integer f ''subject_clearance'' ''clearance''],
            json_object [map_option (\<lambda>v. [(''id'', StringValue v)]) (f ''resource_id''), json_string f ''resource_owner'' ''owner'',
              json_string f ''resource_department'' ''department'', json_integer f ''resource_classification'' ''classification''],
            json_object [json_string f ''env_network'' ''network'', json_integer f ''env_hour'' ''hour''], f ''action'') of
        (Some subJ, Some objJ, Some envJ, Some act) \<Rightarrow> Some \<lparr>r_sub = subJ, r_obj = objJ, r_act = act, r_env = envJ\<rparr>
      | _ \<Rightarrow> None)"

text \<open>
  The loop of \<^verbatim>\<open>runCorrectness\<close> with its counters of correct, supported and all scenarios; \<open>enforce\<close> is
  \<^verbatim>\<open>Enforcer::Enforce\<close>. The value of \<^verbatim>\<open>f["expected"]\<close> is empty when the column is missing.
\<close>

definition casbin_actual :: "(casbin_request \<Rightarrow> bool option) \<Rightarrow> (string \<rightharpoonup> string) \<Rightarrow> string option" where
  "casbin_actual enforce f =
     map_option (\<lambda>result. if result then ''Permit'' else ''Deny'') (Option.bind (buildDataMap f) enforce)"

fun casbin_loop ::
  "(casbin_request \<Rightarrow> bool option) \<Rightarrow> string list \<Rightarrow> string list list \<Rightarrow> nat \<times> nat \<times> nat \<Rightarrow> nat \<times> nat \<times> nat" where
  "casbin_loop enforce header [] counters = counters"
| "casbin_loop enforce header (row # rows) (correct, supportedCount, tot) =
     (let f = row_map header row;
          expected = (case f ''expected'' of None \<Rightarrow> [] | Some e \<Rightarrow> e);
          actual = casbin_actual enforce f;
          supported = (expected \<noteq> ''NotApplicable'' \<and> actual \<noteq> None);
          isCorrect = (supported \<and> actual = Some expected)
      in casbin_loop enforce header rows
           (if isCorrect then correct + 1 else correct, if supported then supportedCount + 1 else supportedCount, tot + 1))"

definition casbin_runCorrectness :: "(casbin_request \<Rightarrow> bool option) \<Rightarrow> string \<Rightarrow> (nat \<times> nat \<times> nat \<times> nat) option" where
  "casbin_runCorrectness enforce scenariosTsv =
     (case readTsvRows scenariosTsv of
        [] \<Rightarrow> None
      | header # rows \<Rightarrow>
          let (correct, supportedCount, tot) = casbin_loop enforce header rows (0, 0, 0)
          in Some (correct, supportedCount, tot, if correct = supportedCount then 0 else 1))"

section \<open>Decoy rules\<close>

datatype decoy = RoleNetwork string string | DeptClearance string int | ActionHour string int

definition DECOY_DEPARTMENTS :: "string list" where
  "DECOY_DEPARTMENTS =
     [''ComputerScience'', ''Engineering'', ''Business'', ''Law'', ''Medicine'', ''Psychology'', ''Chemistry'', ''Physics'',
      ''Mathematics'', ''Biology'', ''ArtsAndHumanities'', ''Architecture'', ''Nursing'', ''Pharmacy'', ''Education'']"

definition DECOY_ROLES :: "string list" where
  "DECOY_ROLES =
     [''student'', ''lecturer'', ''ta'', ''advisor'', ''admin'', ''dean'', ''registrar'', ''researcher'', ''postdoc'',
      ''technician'']"

definition DECOY_NETWORKS :: "string list" where
  "DECOY_NETWORKS = [''campus'', ''vpn'', ''external'', ''mobile-data'', ''guest-wifi'']"

definition DECOY_ACTIONS :: "string list" where
  "DECOY_ACTIONS = [''SELECT'', ''UPDATE'', ''DELETE'']"

text \<open>\<open>randbelow k n\<close> is the \<open>k\<close>-th number that the generator draws, below \<open>n\<close>.\<close>

definition decoy_spec :: "(nat \<Rightarrow> nat \<Rightarrow> nat) \<Rightarrow> nat \<Rightarrow> decoy" where
  "decoy_spec randbelow i =
     (let choice = (\<lambda>k seq. seq ! randbelow k (length seq));
          randint = (\<lambda>k a b. a + int (randbelow k (nat (b - a + 1))))
      in if i mod 3 = 0 then RoleNetwork (choice (2 * i) DECOY_ROLES) (choice (2 * i + 1) DECOY_NETWORKS)
         else if i mod 3 = 1 then DeptClearance (choice (2 * i) DECOY_DEPARTMENTS) (randint (2 * i + 1) 1 4)
         else ActionHour (choice (2 * i) DECOY_ACTIONS) (randint (2 * i + 1) 0 23))"

definition generate_decoy_specs :: "(nat \<Rightarrow> nat \<Rightarrow> nat) \<Rightarrow> nat \<Rightarrow> decoy list" where
  "generate_decoy_specs randbelow num_decoys = map (decoy_spec randbelow) [0..<num_decoys]"

definition pad5 :: "nat \<Rightarrow> string" where
  "pad5 i = replicate (5 - length (nat_digits i)) (CHR ''0'') @ nat_digits i"

text \<open>The rule that the XML text of a decoy denotes; \<open>must\<close> distinguishes the two XACML versions.\<close>

fun decoy_rule :: "bool \<Rightarrow> nat \<times> decoy \<Rightarrow> rule" where
  "decoy_rule must (i, RoleNetwork role network) =
     Rule Deny (''decoy-'' @ pad5 i) [[[string_is (role_designator must) role]]]
       (Some (Apply string_equal [the_string (network_designator must), AttributeValue (StringValue network)]))"
| "decoy_rule must (i, DeptClearance department threshold) =
     Rule Deny (''decoy-'' @ pad5 i) [[[string_is (resource_department_designator must) department]]]
       (Some (Apply integer_less_than [the_integer (clearance_designator must), AttributeValue (IntegerValue threshold)]))"
| "decoy_rule must (i, ActionHour action threshold) =
     Rule Deny (''decoy-'' @ pad5 i) [[[string_is (action_designator must) action]]]
       (Some (Apply integer_greater_than_or_equal [the_integer (hour_designator must), AttributeValue (IntegerValue threshold)]))"

definition decoy_rules :: "bool \<Rightarrow> (nat \<Rightarrow> nat \<Rightarrow> nat) \<Rightarrow> nat \<Rightarrow> rule list" where
  "decoy_rules must randbelow num_decoys =
     map (decoy_rule must) (enumerate 0 (generate_decoy_specs randbelow num_decoys))"

text \<open>The effect of inserting the rules before the closing tag of the policy.\<close>

definition inject_before_closing_policy :: "xpolicy \<Rightarrow> rule list \<Rightarrow> xpolicy" where
  "inject_before_closing_policy p rules = p\<lparr>policy_rules := policy_rules p @ rules\<rparr>"

fun casbin_decoy_row :: "nat \<times> decoy \<Rightarrow> casbin_row" where
  "casbin_decoy_row (i, RoleNetwork role network) =
     (''decoy_'' @ role @ ''_'' @ pad5 i, ''decoy_net_'' @ network @ ''_'' @ pad5 i, ''DECOY'')"
| "casbin_decoy_row (i, DeptClearance department threshold) =
     (''decoy_clr'' @ int_digits threshold @ ''_'' @ pad5 i, ''decoy_'' @ department @ ''_'' @ pad5 i, ''DECOY'')"
| "casbin_decoy_row (i, ActionHour action threshold) =
     (''decoy_hr'' @ int_digits threshold @ ''_'' @ pad5 i, ''decoy_obj_'' @ pad5 i, action)"

definition casbin_decoy_rows :: "(nat \<Rightarrow> nat \<Rightarrow> nat) \<Rightarrow> nat \<Rightarrow> casbin_row list" where
  "casbin_decoy_rows randbelow num_decoys =
     map casbin_decoy_row (enumerate 0 (generate_decoy_specs randbelow num_decoys))"

section \<open>Request texts for the XACML engines\<close>

definition QUOT :: string where
  "QUOT = [CHR 0x22]"

definition xml_escape :: "string \<Rightarrow> string" where
  "xml_escape s =
     replace_char (CHR 0x27) ''&apos;'' (replace_char (CHR 0x22) ''&quot;''
       (replace_char (CHR ''>'') ''&gt;'' (replace_char (CHR ''<'') ''&lt;'' (replace_char (CHR ''&'') ''&amp;'' s))))"

definition attr_text :: "string \<Rightarrow> string \<Rightarrow> string \<Rightarrow> string" where
  "attr_text attribute_id type text =
     ''    <Attribute IncludeInResult='' @ QUOT @ ''false'' @ QUOT @ '' AttributeId='' @ QUOT @ attribute_id @ QUOT @ ''>'' @ [NL] @
     ''      <AttributeValue DataType='' @ QUOT @ ''http://www.w3.org/2001/XMLSchema#'' @ type @ QUOT @ ''>'' @ text @
     ''</AttributeValue>'' @ [NL] @ ''    </Attribute>'' @ [NL]"

definition string_attr :: "string \<Rightarrow> string option \<Rightarrow> string" where
  "string_attr attribute_id v =
     (case v of None \<Rightarrow> [] | Some s \<Rightarrow> attr_text attribute_id ''string'' (xml_escape s))"

definition integer_attr :: "string \<Rightarrow> int option \<Rightarrow> string" where
  "integer_attr attribute_id v =
     (case v of None \<Rightarrow> [] | Some i \<Rightarrow> attr_text attribute_id ''integer'' (int_digits i))"

definition xml_declaration :: string where
  "xml_declaration =
     ''<?xml version='' @ QUOT @ ''1.0'' @ QUOT @ '' encoding='' @ QUOT @ ''UTF-8'' @ QUOT @ ''?>'' @ [NL]"

definition category_open :: "string \<Rightarrow> string" where
  "category_open cat = ''  <Attributes Category='' @ QUOT @ cat @ QUOT @ ''>'' @ [NL]"

definition category_close :: string where
  "category_close = ''  </Attributes>'' @ [NL]"

definition build_xacml3_request :: "canonical_request \<Rightarrow> string" where
  "build_xacml3_request r =
     (let subject_attrs =
            string_attr subject_id (subjectId r) @ string_attr ''urn:uoa:canvas:subject:role'' (subjectRole r) @
            string_attr ''urn:uoa:canvas:subject:department'' (subjectDepartment r) @
            integer_attr ''urn:uoa:canvas:subject:clearance'' (subjectClearance r);
          resource_attrs =
            string_attr resource_id (resourceId r) @ string_attr ''urn:uoa:canvas:resource:owner'' (resourceOwner r) @
            string_attr ''urn:uoa:canvas:resource:department'' (resourceDepartment r) @
            integer_attr ''urn:uoa:canvas:resource:classification'' (resourceClassification r);
          action_attrs = string_attr action_id (request_action r);
          env_attrs =
            string_attr ''urn:uoa:canvas:environment:network'' (envNetwork r) @
            integer_attr ''urn:uoa:canvas:environment:hour'' (envHour r)
      in xml_declaration @
         ''<Request xmlns='' @ QUOT @ ''urn:oasis:names:tc:xacml:3.0:core:schema:wd-17'' @ QUOT @ '' CombinedDecision='' @ QUOT @
         ''false'' @ QUOT @ '' ReturnPolicyIdList='' @ QUOT @ ''false'' @ QUOT @ ''>'' @ [NL] @
         category_open subject_category @ subject_attrs @ category_close @
         category_open resource_category @ resource_attrs @ category_close @
         category_open action_category @ action_attrs @ category_close @
         category_open environment_category @ env_attrs @ category_close @
         ''</Request>'' @ [NL])"

definition sunxacml_attr_text :: "string \<Rightarrow> string \<Rightarrow> string \<Rightarrow> string" where
  "sunxacml_attr_text attribute_id type text =
     ''    <Attribute AttributeId='' @ QUOT @ attribute_id @ QUOT @ '' DataType='' @ QUOT @ ''http://www.w3.org/2001/XMLSchema#'' @
     type @ QUOT @ ''>'' @ [NL] @ ''      <AttributeValue>'' @ text @ ''</AttributeValue>'' @ [NL] @ ''    </Attribute>'' @ [NL]"

definition sunxacml_string_attr :: "string \<Rightarrow> string option \<Rightarrow> string" where
  "sunxacml_string_attr attribute_id v =
     (case v of None \<Rightarrow> [] | Some s \<Rightarrow> sunxacml_attr_text attribute_id ''string'' (xml_escape s))"

definition sunxacml_integer_attr :: "string \<Rightarrow> int option \<Rightarrow> string" where
  "sunxacml_integer_attr attribute_id v =
     (case v of None \<Rightarrow> [] | Some i \<Rightarrow> sunxacml_attr_text attribute_id ''integer'' (int_digits i))"

definition build_xacml2_request :: "canonical_request \<Rightarrow> string" where
  "build_xacml2_request r =
     (let subject_attrs =
            sunxacml_string_attr subject_id (subjectId r) @ sunxacml_string_attr ''urn:uoa:canvas:subject:role'' (subjectRole r) @
            sunxacml_string_attr ''urn:uoa:canvas:subject:department'' (subjectDepartment r) @
            sunxacml_integer_attr ''urn:uoa:canvas:subject:clearance'' (subjectClearance r);
          resource_attrs =
            sunxacml_string_attr resource_id (resourceId r) @
            sunxacml_string_attr ''urn:uoa:canvas:resource:owner'' (resourceOwner r) @
            sunxacml_string_attr ''urn:uoa:canvas:resource:department'' (resourceDepartment r) @
            sunxacml_integer_attr ''urn:uoa:canvas:resource:classification'' (resourceClassification r);
          action_attrs = sunxacml_string_attr action_id (request_action r);
          env_attrs =
            sunxacml_string_attr ''urn:uoa:canvas:environment:network'' (envNetwork r) @
            sunxacml_integer_attr ''urn:uoa:canvas:environment:hour'' (envHour r)
      in xml_declaration @
         ''<Request xmlns='' @ QUOT @ ''urn:oasis:names:tc:xacml:2.0:context:schema:os'' @ QUOT @ ''>'' @ [NL] @
         ''  <Subject>'' @ [NL] @ subject_attrs @ ''  </Subject>'' @ [NL] @
         ''  <Resource>'' @ [NL] @ resource_attrs @ ''  </Resource>'' @ [NL] @
         ''  <Action>'' @ [NL] @ action_attrs @ ''  </Action>'' @ [NL] @
         ''  <Environment>'' @ [NL] @ env_attrs @ ''  </Environment>'' @ [NL] @
         ''</Request>'' @ [NL])"

section \<open>The canonical scenarios\<close>

text \<open>A scenario of the corpus, all of which are about the same score record of alice.\<close>

definition score_scenario ::
  "string \<Rightarrow> string \<times> string \<times> string \<times> int \<Rightarrow> string \<Rightarrow> string \<times> int \<Rightarrow> string \<Rightarrow> scenario" where
  "score_scenario sid subject action environment expected =
     (let (uid, role, department, clearance) = subject; (network, hour) = environment
      in \<lparr>sc_id = sid,
          sc_request =
            \<lparr>subjectId = Some uid, subjectRole = Some role, subjectDepartment = Some department,
             subjectClearance = Some clearance, resourceId = Some ''COMPSCI101_SCORE'', resourceOwner = Some ''alice'',
             resourceDepartment = Some ''ComputerScience'', resourceClassification = Some 2,
             request_action = Some action, envNetwork = Some network, envHour = Some hour\<rparr>,
          sc_expected = expected\<rparr>)"

definition canonical_scenarios :: "scenario list" where
  "canonical_scenarios =
     (let alice = (''alice'', ''student'', ''ComputerScience'', 1)
      in [score_scenario ''abac-001'' (''admin_jones'', ''admin'', ''Registry'', 5) ''SELECT'' (''campus'', 10) ''Permit'',
          score_scenario ''abac-002'' alice ''SELECT'' (''campus'', 10) ''Permit'',
          score_scenario ''abac-003'' (''prof_smith'', ''lecturer'', ''ComputerScience'', 3) ''UPDATE'' (''campus'', 10) ''Permit'',
          score_scenario ''abac-004'' (''prof_taylor'', ''lecturer'', ''Engineering'', 3) ''SELECT'' (''campus'', 10) ''Deny'',
          score_scenario ''abac-005'' (''prof_lee'', ''lecturer'', ''ComputerScience'', 1) ''SELECT'' (''campus'', 10) ''Deny'',
          score_scenario ''abac-006'' (''bob'', ''student'', ''ComputerScience'', 1) ''SELECT'' (''campus'', 10) ''Deny'',
          score_scenario ''abac-007'' alice ''SELECT'' (''external'', 10) ''Deny'',
          score_scenario ''abac-008'' alice ''SELECT'' (''campus'', 22) ''Deny'',
          score_scenario ''abac-009'' alice ''DELETE'' (''campus'', 10) ''Deny'',
          score_scenario ''abac-010'' alice ''TRUNCATE'' (''campus'', 10) ''NotApplicable''])"

section \<open>What the readers make of a scenario\<close>

text \<open>Cells that survive the round trip through the file, also for a reader that ends lines at \<^verbatim>\<open>CR\<close>.\<close>

definition clean :: "string \<Rightarrow> bool" where
  "clean c \<longleftrightarrow> TAB \<notin> set c \<and> NL \<notin> set c \<and> CR \<notin> set c"

definition int_ok :: "int option \<Rightarrow> bool" where
  "int_ok v = (case v of None \<Rightarrow> True | Some i \<Rightarrow> in_int_range i)"

definition scenario_ok :: "scenario \<Rightarrow> bool" where
  "scenario_ok s \<longleftrightarrow>
     (let r = sc_request s
      in list_all clean (scenario_row s) \<and>
         subjectId r \<noteq> None \<and> resourceId r \<noteq> None \<and> request_action r \<noteq> None \<and>
         subjectRole r \<noteq> Some [] \<and> subjectDepartment r \<noteq> Some [] \<and> resourceOwner r \<noteq> Some [] \<and>
         resourceDepartment r \<noteq> Some [] \<and> envNetwork r \<noteq> Some [] \<and>
         int_ok (subjectClearance r) \<and> int_ok (resourceClassification r) \<and>
         int_ok (envHour r))"

text \<open>The attributes of one category, as the Java and the Python code write them.\<close>

fun java_attribute :: "string \<times> string \<times> attr_value \<Rightarrow> string" where
  "java_attribute (cat, aid, StringValue s) = attribute_open aid ''string'' @ escapeXml s @ attribute_close"
| "java_attribute (cat, aid, IntegerValue i) = attribute_open aid ''integer'' @ int_digits i @ attribute_close"

fun python_attribute :: "string \<times> string \<times> attr_value \<Rightarrow> string" where
  "python_attribute (cat, aid, StringValue s) = attr_text aid ''string'' (xml_escape s)"
| "python_attribute (cat, aid, IntegerValue i) = attr_text aid ''integer'' (int_digits i)"

fun sunxacml_attribute :: "string \<times> string \<times> attr_value \<Rightarrow> string" where
  "sunxacml_attribute (cat, aid, StringValue s) = sunxacml_attr_text aid ''string'' (xml_escape s)"
| "sunxacml_attribute (cat, aid, IntegerValue i) = sunxacml_attr_text aid ''integer'' (int_digits i)"

definition in_category :: "string \<Rightarrow> attributes \<Rightarrow> attributes" where
  "in_category cat as = filter (\<lambda>a. fst a = cat) as"

text \<open>The scale tiers: what the engines are given for a number of decoys.\<close>

definition tier_policy :: "(nat \<Rightarrow> nat \<Rightarrow> nat) \<Rightarrow> nat \<Rightarrow> xpolicy" where
  "tier_policy randbelow n = inject_before_closing_policy xacml3_course_score_policy (decoy_rules True randbelow n)"

definition tier_policy2 :: "(nat \<Rightarrow> nat \<Rightarrow> nat) \<Rightarrow> nat \<Rightarrow> xpolicy" where
  "tier_policy2 randbelow n = inject_before_closing_policy xacml2_course_score_policy (decoy_rules False randbelow n)"

definition tier_rows :: "(nat \<Rightarrow> nat \<Rightarrow> nat) \<Rightarrow> nat \<Rightarrow> casbin_row list" where
  "tier_rows randbelow n = casbin_policy @ casbin_decoy_rows randbelow n"

text \<open>An engine that knows the answers to the canonical scenarios.\<close>

definition scenario_engine :: balana where
  "scenario_engine =
     \<lparr>pdp_evaluate = (\<lambda>request. case find (\<lambda>s. createCanonicalXACMLRequest (sc_request s) = request) canonical_scenarios of
        None \<Rightarrow> ''Indeterminate'' | Some s \<Rightarrow> sc_expected s),
      response_of = (\<lambda>response. Results [if response = ''Permit'' then DECISION_PERMIT else if response = ''Deny'' then DECISION_DENY
        else if response = ''NotApplicable'' then DECISION_NOT_APPLICABLE else DECISION_INDETERMINATE])\<rparr>"

text \<open>A text that does not start with a given attribute.\<close>

definition no_open :: "string \<Rightarrow> string \<Rightarrow> string \<Rightarrow> bool" where
  "no_open aid t s \<longleftrightarrow> (\<forall>z. s \<noteq> attribute_open aid t @ z)"

definition string_text :: "string \<Rightarrow> string option \<Rightarrow> string" where
  "string_text aid v =
     (case v of None \<Rightarrow> [] | Some s \<Rightarrow> attribute_open aid ''string'' @ escapeXml s @ attribute_close)"

definition integer_text :: "string \<Rightarrow> int option \<Rightarrow> string" where
  "integer_text aid w =
     (case w of None \<Rightarrow> [] | Some i \<Rightarrow> attribute_open aid ''integer'' @ int_digits i @ attribute_close)"

text \<open>The attributes of a category, present or not, in the order in which they are written.\<close>

fun slot_text :: "string \<times> (string option + int option) \<Rightarrow> string" where
  "slot_text (aid, Inl v) = string_text aid v"
| "slot_text (aid, Inr w) = integer_text aid w"

fun same_slot :: "string \<times> (string option + int option) \<Rightarrow> string \<times> (string option + int option) \<Rightarrow> bool" where
  "same_slot (a, v) (b, w) \<longleftrightarrow> a = b \<and> CHR 0x22 \<notin> set a \<and> (isl v \<longleftrightarrow> isl w)"

section \<open>Reading what was written\<close>

lemma takeWhile_until:
  assumes "\<forall>y \<in> set l. P y" and "\<not> P x"
  shows "takeWhile P (l @ x # s) = l" and "dropWhile P (l @ x # s) = x # s"
  using assms by (induction l) auto

lemma java_split_append: "TAB \<notin> set c \<Longrightarrow> java_split (c @ TAB # s) = c # java_split s"
  by (induction c) auto

lemma java_split_cell: "TAB \<notin> set c \<Longrightarrow> java_split c = [c]"
  by (induction c) auto

lemma java_split_join: "row \<noteq> [] \<Longrightarrow> \<forall>c \<in> set row. TAB \<notin> set c \<Longrightarrow> java_split (join_tab row) = row"
  by (induction row rule: join_tab.induct) (simp_all add: java_split_append java_split_cell)

lemma splitTab_append:
  assumes "TAB \<notin> set c"
  shows "splitTab (c @ TAB # s) = c # splitTab s"
proof -
  have "takeWhile (\<lambda>c. c \<noteq> TAB) (c @ TAB # s) = c" by (rule takeWhile_until) (use assms in auto)
  then show ?thesis by (subst splitTab.simps) simp
qed

lemma splitTab_eq: "splitTab s = java_split s"
proof (induction s rule: splitTab.induct)
  case (1 s)
  show ?case
  proof (cases "TAB \<in> set s")
    case True
    then obtain c rest where s: "s = c @ TAB # rest" "TAB \<notin> set c" by (meson split_list_first)
    have "takeWhile (\<lambda>c. c \<noteq> TAB) s = c" unfolding s(1) by (rule takeWhile_until) (use s(2) in auto)
    with s 1 [OF refl] show ?thesis
      by (simp add: splitTab_append java_split_append)
  next
    case False
    then have all: "takeWhile (\<lambda>c. c \<noteq> TAB) s = s" by (auto simp: takeWhile_eq_all_conv)
    show ?thesis unfolding splitTab.simps [of s] all Let_def using False by (simp add: java_split_cell)
  qed
qed

lemma java_lines_cons:
  assumes "NL \<notin> set l" and "CR \<notin> set l"
  shows "java_lines (l @ NL # s) = l # java_lines s"
proof -
  have "takeWhile (\<lambda>c. c \<noteq> NL \<and> c \<noteq> CR) (l @ NL # s) = l" "dropWhile (\<lambda>c. c \<noteq> NL \<and> c \<noteq> CR) (l @ NL # s) = NL # s"
    by (rule takeWhile_until; use assms in auto)+
  moreover have "NL \<noteq> CR" by (simp add: NL_def CR_def)
  ultimately show ?thesis by (subst java_lines.simps) simp
qed

lemma cpp_lines_cons:
  assumes "NL \<notin> set l"
  shows "cpp_lines (l @ NL # s) = l # cpp_lines s"
proof -
  have "takeWhile (\<lambda>c. c \<noteq> NL) (l @ NL # s) = l" by (rule takeWhile_until) (use assms in auto)
  then show ?thesis by (subst cpp_lines.simps) simp
qed

lemma join_tab_set: "set (join_tab row) \<subseteq> insert TAB (\<Union>(set ` set row))"
  by (induction row rule: join_tab.induct) auto

lemma join_tab_clean:
  assumes "list_all clean row"
  shows "NL \<notin> set (join_tab row) \<and> CR \<notin> set (join_tab row)"
  using assms join_tab_set [of row] by (auto simp: list_all_iff clean_def TAB_def NL_def CR_def)

lemma join_tab_nonempty: "2 \<le> length row \<Longrightarrow> join_tab row \<noteq> []"
  by (cases row rule: join_tab.cases) auto

lemma read_tsv_lines:
  assumes "\<forall>row \<in> set rows. list_all clean row \<and> 2 \<le> length row"
  shows "readTsv (concat (map tsv_line rows)) = rows \<and> readTsvRows (concat (map tsv_line rows)) = rows"
  using assms
proof (induction rows)
  case Nil
  then show ?case by (simp add: readTsv_def readTsvRows_def java_lines.simps cpp_lines.simps)
next
  case (Cons row rows)
  then have "row \<noteq> []" "\<forall>c \<in> set row. TAB \<notin> set c" by (auto simp: list_all_iff clean_def)
  with Cons join_tab_clean [of row] join_tab_nonempty [of row] show ?case
    by (simp add: readTsv_def readTsvRows_def tsv_line_def java_lines_cons cpp_lines_cons java_split_join splitTab_eq)
qed

section \<open>Numbers\<close>

lemma digit_char: "n < 10 \<Longrightarrow> is_digit (char_of (48 + n)) \<and> (of_char (char_of (48 + n) :: char) :: nat) = 48 + n"
  by (simp add: is_digit_def of_char_of)

lemma digits_value_snoc: "digits_value (s @ [c]) = 10 * digits_value s + (of_char c - 48)"
  by (simp add: digits_value_def)

lemma nat_digits_value: "digits_value (nat_digits n) = n \<and> nat_digits n \<noteq> [] \<and> list_all is_digit (nat_digits n)"
proof (induction n rule: nat_digits.induct)
  case (1 n)
  show ?case
  proof (cases "n < 10")
    case True
    then show ?thesis
      using digit_char [OF True] by (simp add: nat_digits.simps [of n] digits_value_def)
  next
    case False
    then show ?thesis
      using 1 [OF False] digit_char [of "n mod 10"]
      by (simp add: nat_digits.simps [of n] digits_value_snoc)
  qed
qed

lemma nat_digits_hd: "is_digit (hd (nat_digits n))"
  using nat_digits_value [of n] by (cases "nat_digits n") auto

lemma int_digits_shape:
  "int_digits i \<noteq> [] \<and> \<not> is_space (hd (int_digits i)) \<and> hd (int_digits i) \<noteq> CHR ''+'' \<and> (hd (int_digits i) = CHR ''-'' \<longleftrightarrow> i < 0)"
  using nat_digits_hd [of "nat i"] nat_digits_value [of "nat i"] nat_digits_value [of "nat (- i)"]
  by (auto simp: int_digits_def is_digit_def is_space_def)

lemma parse_digits_nat: "in_int_range (int n) \<Longrightarrow> parse_digits False (nat_digits n) = Some (int n)"
  "in_int_range (- int n) \<Longrightarrow> parse_digits True (nat_digits n) = Some (- int n)"
  using nat_digits_value [of n] by (simp_all add: parse_digits_def)

lemma Integer_valueOf_digits:
  assumes "in_int_range i"
  shows "Integer_valueOf (int_digits i) = Some i"
  using assms int_digits_shape [of i] parse_digits_nat [of "nat i"] parse_digits_nat(2) [of "nat (- i)"]
  by (auto simp: Integer_valueOf_def int_digits_def)

lemma takeWhile_digits: "takeWhile is_digit (nat_digits n) = nat_digits n"
  using nat_digits_value [of n] by (auto simp: takeWhile_eq_all_conv list_all_iff)

lemma stoi_digits:
  assumes "in_int_range i"
  shows "stoi (int_digits i) = Some i"
proof -
  have "dropWhile is_space (int_digits i) = int_digits i"
    using int_digits_shape [of i] by (cases "int_digits i") auto
  then show ?thesis
    using assms int_digits_shape [of i] parse_digits_nat [of "nat i"] parse_digits_nat(2) [of "nat (- i)"]
    by (auto simp: stoi_def int_digits_def takeWhile_digits)
qed

section \<open>Scenario rows\<close>

lemma get_row:
  "get (scenario_row s) (indexHeader columns) ''id'' = sc_id s"
  "get (scenario_row s) (indexHeader columns) ''subject_id'' = field_string (subjectId (sc_request s))"
  "get (scenario_row s) (indexHeader columns) ''subject_role'' = field_string (subjectRole (sc_request s))"
  "get (scenario_row s) (indexHeader columns) ''subject_department'' = field_string (subjectDepartment (sc_request s))"
  "get (scenario_row s) (indexHeader columns) ''subject_clearance'' = field_integer (subjectClearance (sc_request s))"
  "get (scenario_row s) (indexHeader columns) ''resource_id'' = field_string (resourceId (sc_request s))"
  "get (scenario_row s) (indexHeader columns) ''resource_owner'' = field_string (resourceOwner (sc_request s))"
  "get (scenario_row s) (indexHeader columns) ''resource_department'' = field_string (resourceDepartment (sc_request s))"
  "get (scenario_row s) (indexHeader columns) ''resource_classification'' = field_integer (resourceClassification (sc_request s))"
  "get (scenario_row s) (indexHeader columns) ''action'' = field_string (request_action (sc_request s))"
  "get (scenario_row s) (indexHeader columns) ''env_network'' = field_string (envNetwork (sc_request s))"
  "get (scenario_row s) (indexHeader columns) ''env_hour'' = field_integer (envHour (sc_request s))"
  "get (scenario_row s) (indexHeader columns) ''expected'' = sc_expected s"
  by (simp_all add: get_def indexHeader_def columns_def scenario_row_def Let_def)

lemma parseIntOrNull_field: "int_ok v \<Longrightarrow> parseIntOrNull (field_integer v) = Some v"
  by (cases v) (auto simp: parseIntOrNull_def field_integer_def Integer_valueOf_digits int_ok_def int_digits_shape)

lemma emptyToNull_field: "v \<noteq> Some [] \<Longrightarrow> emptyToNull (field_string v) = v"
  by (cases v) (auto simp: emptyToNull_def field_string_def)

lemma Some_field: "v \<noteq> None \<Longrightarrow> Some (field_string v) = v"
  by (auto simp: field_string_def)

lemma row_request_scenario:
  assumes "scenario_ok s"
  shows "row_request (scenario_row s) (indexHeader columns) = Some (sc_request s)"
  using assms
  by (simp add: scenario_ok_def Let_def row_request_def get_row parseIntOrNull_field emptyToNull_field Some_field)

lemma row_map_scenario:
  "row_map columns (scenario_row s) ''subject_id'' = Some (field_string (subjectId (sc_request s)))"
  "row_map columns (scenario_row s) ''subject_role'' = Some (field_string (subjectRole (sc_request s)))"
  "row_map columns (scenario_row s) ''subject_department'' = Some (field_string (subjectDepartment (sc_request s)))"
  "row_map columns (scenario_row s) ''subject_clearance'' = Some (field_integer (subjectClearance (sc_request s)))"
  "row_map columns (scenario_row s) ''resource_id'' = Some (field_string (resourceId (sc_request s)))"
  "row_map columns (scenario_row s) ''resource_owner'' = Some (field_string (resourceOwner (sc_request s)))"
  "row_map columns (scenario_row s) ''resource_department'' = Some (field_string (resourceDepartment (sc_request s)))"
  "row_map columns (scenario_row s) ''resource_classification'' = Some (field_integer (resourceClassification (sc_request s)))"
  "row_map columns (scenario_row s) ''action'' = Some (field_string (request_action (sc_request s)))"
  "row_map columns (scenario_row s) ''env_network'' = Some (field_string (envNetwork (sc_request s)))"
  "row_map columns (scenario_row s) ''env_hour'' = Some (field_integer (envHour (sc_request s)))"
  "row_map columns (scenario_row s) ''expected'' = Some (sc_expected s)"
  by (simp_all add: row_map_def columns_def scenario_row_def Let_def)

lemma json_fields:
  "f key = Some (field_string (Some v)) \<Longrightarrow> v \<noteq> [] \<Longrightarrow> json_string f key nm = Some [(nm, StringValue v)]"
  "f key = Some (field_integer (Some i)) \<Longrightarrow> in_int_range i \<Longrightarrow> json_integer f key nm = Some [(nm, IntegerValue i)]"
  by (simp_all add: json_string_def json_integer_def field_string_def field_integer_def stoi_digits int_digits_shape)

lemma buildDataMap_scenario:
  assumes "scenario_ok s" and "complete (sc_request s)"
  shows "buildDataMap (row_map columns (scenario_row s)) = Some (casbin_attributes (sc_request s))"
  using assms(2)
proof (rule complete_values)
  let ?r = "sc_request s"
  fix sid role dept clearance rid own rdept cls act net hour
  assume v: "subjectId ?r = Some sid" "subjectRole ?r = Some role" "subjectDepartment ?r = Some dept"
    "subjectClearance ?r = Some clearance" "resourceId ?r = Some rid" "resourceOwner ?r = Some own"
    "resourceDepartment ?r = Some rdept" "resourceClassification ?r = Some cls" "request_action ?r = Some act"
    "envNetwork ?r = Some net" "envHour ?r = Some hour"
  have ok: "role \<noteq> []" "dept \<noteq> []" "own \<noteq> []" "rdept \<noteq> []" "net \<noteq> []"
      "in_int_range clearance" "in_int_range cls" "in_int_range hour"
    using assms(1) by (simp_all add: scenario_ok_def int_ok_def Let_def v)
  show ?thesis
    unfolding buildDataMap_def casbin_attributes_def
    using ok by (simp add: row_map_scenario v json_fields json_object_def field_string_def del: map_of.simps)
qed

lemma written_rows:
  assumes "write_scenarios_tsv scenarios = Some file" and "list_all scenario_ok scenarios"
  shows "readTsv file = columns # map scenario_row scenarios \<and> readTsvRows file = columns # map scenario_row scenarios"
proof -
  have "list_all clean columns" by code_simp
  moreover have "length columns = 13" by (simp add: columns_def)
  moreover have "length (scenario_row s) = 13" for s by (simp add: scenario_row_def Let_def)
  moreover have "file = concat (map tsv_line (columns # map scenario_row scenarios))"
    using assms(1) by (simp add: write_scenarios_tsv_def split: if_splits)
  ultimately show ?thesis
    using assms(2) read_tsv_lines [of "columns # map scenario_row scenarios"]
    by (auto simp: list_all_iff scenario_ok_def Let_def)
qed

lemma write_ok: "list_all scenario_ok scenarios \<Longrightarrow> \<exists>file. write_scenarios_tsv scenarios = Some file"
  by (auto simp: write_scenarios_tsv_def list_all_iff scenario_ok_def clean_def Let_def)

section \<open>Counting correct answers\<close>

lemma correctness_loop_all:
  assumes "\<forall>row \<in> set rows. evaluateRow b row col = Some (get row col ''expected'')"
  shows "correctness_loop b col rows (c, t) = (c + length rows, t + length rows)"
  using assms by (induction rows arbitrary: c t) simp_all

lemma runCorrectness_all:
  assumes "write_scenarios_tsv scenarios = Some file" and "list_all scenario_ok scenarios" and "scenarios \<noteq> []"
    and "\<forall>s \<in> set scenarios. Evaluate_ABAC_Decision b (sc_request s) = Some (sc_expected s)"
  shows "runCorrectness b file = Some (length scenarios, length scenarios, 0)"
proof -
  obtain s rest where scs: "scenarios = s # rest" using assms(3) by (cases scenarios) auto
  have "evaluateRow b (scenario_row t) (indexHeader columns) = Some (sc_expected t)" if "t \<in> set scenarios" for t
    using that assms(2,4) by (simp add: evaluateRow_def row_request_scenario list_all_iff)
  then show ?thesis
    using written_rows [OF assms(1,2)] unfolding scs
    by (simp add: runCorrectness_def correctness_loop_all get_row)
qed

lemma casbin_loop_all:
  assumes "\<forall>s \<in> set scenarios. casbin_actual enforce (row_map columns (scenario_row s)) =
      Some (if sc_expected s = ''NotApplicable'' then ''Deny'' else sc_expected s)"
  shows "casbin_loop enforce columns (map scenario_row scenarios) (c, n, t) =
    (c + length (filter (\<lambda>s. sc_expected s \<noteq> ''NotApplicable'') scenarios),
     n + length (filter (\<lambda>s. sc_expected s \<noteq> ''NotApplicable'') scenarios), t + length scenarios)"
  using assms by (induction scenarios arbitrary: c n t) (simp_all add: row_map_scenario Let_def)

section \<open>Decoys\<close>

lemma decoy_rule_effect: "rule_effect (decoy_rule must d) = Deny"
  by (cases "(must, d)" rule: decoy_rule.cases) simp_all

lemma decoys_ignored:
  "policy_decision keep (inject_before_closing_policy xacml3_course_score_policy (decoy_rules must randbelow n)) as =
     policy_decision keep xacml3_course_score_policy as"
  "policy_decision keep (inject_before_closing_policy xacml2_course_score_policy (decoy_rules must randbelow n)) as =
     policy_decision keep xacml2_course_score_policy as"
  unfolding inject_before_closing_policy_def
  by (rule policy_add_denials;
      simp add: xacml3_course_score_policy_def xacml2_course_score_policy_def decoy_rules_def decoy_rule_effect)+

lemma Enforce_rows: "rows \<noteq> [] \<Longrightarrow> Enforce rows r = matcher r"
proof (induction rows)
  case (Cons row rows)
  then show ?case by (cases "rows = []"; cases "matcher r") (auto simp: c_or_def)
qed simp

lemma decision_string:
  assumes "answers b keep p (createCanonicalXACMLRequest r) as"
  shows "Evaluate_ABAC_Decision b r =
    Some (case response_decision (policy_decision keep p as) of DECISION_PERMIT \<Rightarrow> ''Permit'' | DECISION_DENY \<Rightarrow> ''Deny''
      | DECISION_NOT_APPLICABLE \<Rightarrow> ''NotApplicable'' | DECISION_INDETERMINATE \<Rightarrow> ''Indeterminate'')"
  using assms by (simp add: Evaluate_ABAC_Decision_def decisionToString_def answers_def split: xacml_decision.split)

lemma canonical_scenarios_ok:
  "list_all scenario_ok canonical_scenarios" "list_all (\<lambda>s. complete (sc_request s)) canonical_scenarios"
  "length canonical_scenarios = 10" "length (filter (\<lambda>s. sc_expected s \<noteq> ''NotApplicable'') canonical_scenarios) = 9"
  by code_simp+

text \<open>The expected values are those of the ground truth.\<close>

lemma canonical_scenarios_expected:
  "list_all (\<lambda>s. sc_expected s = (case course_score_spec {''SELECT'', ''UPDATE'', ''DELETE''} (sc_request s) of
      DECISION_PERMIT \<Rightarrow> ''Permit'' | DECISION_DENY \<Rightarrow> ''Deny''
    | DECISION_NOT_APPLICABLE \<Rightarrow> ''NotApplicable'' | DECISION_INDETERMINATE \<Rightarrow> ''Indeterminate'')) canonical_scenarios"
  "list_all (\<lambda>s. (if may_access {''SELECT'', ''UPDATE''} (sc_request s) then ''Permit'' else ''Deny'') =
     (if sc_expected s = ''NotApplicable'' then ''Deny'' else sc_expected s)) canonical_scenarios"
  by code_simp+

section \<open>Request texts\<close>

lemma attribute_texts:
  "appendStringAttribute sb aid v =
     sb @ (case v of None \<Rightarrow> [] | Some s \<Rightarrow> attribute_open aid ''string'' @ escapeXml s @ attribute_close)"
  "appendIntegerAttribute sb aid w =
     sb @ (case w of None \<Rightarrow> [] | Some i \<Rightarrow> attribute_open aid ''integer'' @ int_digits i @ attribute_close)"
  "concat (map java_attribute (string_attribute cat aid v)) =
     (case v of None \<Rightarrow> [] | Some s \<Rightarrow> attribute_open aid ''string'' @ escapeXml s @ attribute_close)"
  "concat (map java_attribute (integer_attribute cat aid w)) =
     (case w of None \<Rightarrow> [] | Some i \<Rightarrow> attribute_open aid ''integer'' @ int_digits i @ attribute_close)"
  "concat (map python_attribute (string_attribute cat aid v)) = string_attr aid v"
  "concat (map python_attribute (integer_attribute cat aid w)) = integer_attr aid w"
  "concat (map sunxacml_attribute (string_attribute cat aid v)) = sunxacml_string_attr aid v"
  "concat (map sunxacml_attribute (integer_attribute cat aid w)) = sunxacml_integer_attr aid w"
  by (simp_all add: appendStringAttribute_def appendIntegerAttribute_def string_attr_def integer_attr_def
      sunxacml_string_attr_def sunxacml_integer_attr_def string_attribute_def integer_attribute_def split: option.split)

lemma in_category_attribute:
  "in_category cat (string_attribute c aid v) = (if c = cat then string_attribute c aid v else [])"
  "in_category cat (integer_attribute c aid w) = (if c = cat then integer_attribute c aid w else [])"
  "in_category cat (as @ bs) = in_category cat as @ in_category cat bs"
  by (auto simp: in_category_def string_attribute_def integer_attribute_def split: option.split)

lemma canonical_categories:
  "in_category subject_category (canonical_attributes r) =
     string_attribute subject_category subject_id (subjectId r) @
     string_attribute subject_category ''urn:uoa:canvas:subject:role'' (subjectRole r) @
     string_attribute subject_category ''urn:uoa:canvas:subject:department'' (subjectDepartment r) @
     integer_attribute subject_category ''urn:uoa:canvas:subject:clearance'' (subjectClearance r)"
  "in_category action_category (canonical_attributes r) = string_attribute action_category action_id (request_action r)"
  "in_category resource_category (canonical_attributes r) =
     string_attribute resource_category resource_id (resourceId r) @
     string_attribute resource_category ''urn:uoa:canvas:resource:owner'' (resourceOwner r) @
     string_attribute resource_category ''urn:uoa:canvas:resource:department'' (resourceDepartment r) @
     integer_attribute resource_category ''urn:uoa:canvas:resource:classification'' (resourceClassification r)"
  "in_category environment_category (canonical_attributes r) =
     string_attribute environment_category ''urn:uoa:canvas:environment:network'' (envNetwork r) @
     integer_attribute environment_category ''urn:uoa:canvas:environment:hour'' (envHour r)"
  by (simp_all add: canonical_attributes_def in_category_attribute)

lemma request_texts:
  "createCanonicalXACMLRequest r =
     request_open @ concat (map (\<lambda>cat. attributes_open cat @
       concat (map java_attribute (in_category cat (canonical_attributes r))) @ attributes_close)
       [subject_category, action_category, resource_category, environment_category]) @ request_close"
  "build_xacml3_request r =
     xml_declaration @ ''<Request xmlns='' @ QUOT @ ''urn:oasis:names:tc:xacml:3.0:core:schema:wd-17'' @ QUOT @
       '' CombinedDecision='' @ QUOT @ ''false'' @ QUOT @ '' ReturnPolicyIdList='' @ QUOT @ ''false'' @ QUOT @ ''>'' @ [NL] @
     concat (map (\<lambda>cat. category_open cat @
       concat (map python_attribute (in_category cat (canonical_attributes r))) @ category_close)
       [subject_category, resource_category, action_category, environment_category]) @ ''</Request>'' @ [NL]"
  "build_xacml2_request r =
     xml_declaration @ ''<Request xmlns='' @ QUOT @ ''urn:oasis:names:tc:xacml:2.0:context:schema:os'' @ QUOT @ ''>'' @ [NL] @
     concat (map (\<lambda>(tag, cat). ''  <'' @ tag @ ''>'' @ [NL] @
       concat (map sunxacml_attribute (in_category cat (canonical_attributes r))) @ ''  </'' @ tag @ ''>'' @ [NL])
       [(''Subject'', subject_category), (''Resource'', resource_category), (''Action'', action_category),
        (''Environment'', environment_category)]) @ ''</Request>'' @ [NL]"
  by (simp_all add: createCanonicalXACMLRequest_def build_xacml3_request_def build_xacml2_request_def Let_def
      canonical_categories attribute_texts)

section \<open>Request texts are unambiguous\<close>

lemma escapeXml_inj: "escapeXml u = escapeXml v \<longleftrightarrow> u = v"
proof -
  have "unescapeXml (escapeXml v) = v" for v
    unfolding escapeXml_eq by (induction v) (simp_all add: unescape_escape_char)
  then show ?thesis by metis
qed

lemma escapeXml_no_tag: "CHR ''<'' \<notin> set (escapeXml v)"
  unfolding escapeXml_eq by (induction v) (simp_all add: escape_char_def)

lemma nat_digits_inj: "nat_digits m = nat_digits n \<longleftrightarrow> m = n"
  by (metis nat_digits_value)

lemma int_digits_inj: "int_digits i = int_digits j \<longleftrightarrow> i = j"
proof
  assume eq: "int_digits i = int_digits j"
  then have "i < 0 \<longleftrightarrow> j < 0" using int_digits_shape [of i] int_digits_shape [of j] by simp
  with eq show "i = j" by (simp add: int_digits_def nat_digits_inj split: if_splits)
qed simp

lemma int_digits_no_tag: "CHR ''<'' \<notin> set (int_digits i)"
  using nat_digits_value [of "nat i"] nat_digits_value [of "nat (- i)"]
  by (auto simp: int_digits_def list_all_iff is_digit_def)

lemma quoted_inj:
  assumes "a @ CHR 0x22 # x = b @ CHR 0x22 # y" and "CHR 0x22 \<notin> set a" and "CHR 0x22 \<notin> set b"
  shows "a = b"
proof -
  have "takeWhile (\<lambda>c. c \<noteq> CHR 0x22) (a @ CHR 0x22 # x) = a" "takeWhile (\<lambda>c. c \<noteq> CHR 0x22) (b @ CHR 0x22 # y) = b"
    by (rule takeWhile_until; use assms(2,3) in auto)+
  with assms(1) show ?thesis by simp
qed

lemma no_open_attribute:
  assumes "aid \<noteq> aid'" and "CHR 0x22 \<notin> set aid" and "CHR 0x22 \<notin> set aid'"
  shows "no_open aid t (attribute_open aid' t' @ z)"
proof -
  have "aid' @ CHR 0x22 # x \<noteq> aid @ CHR 0x22 # y" for x y using quoted_inj [of aid' x aid y] assms by auto
  then show ?thesis by (simp add: no_open_def attribute_open_def)
qed

lemma no_open_close: "no_open aid t (attributes_close @ z)"
  by (simp add: no_open_def attribute_open_def attributes_close_def)

lemma no_open_text:
  assumes "aid \<noteq> aid'" and "CHR 0x22 \<notin> set aid" and "CHR 0x22 \<notin> set aid'" and "no_open aid t z"
  shows "no_open aid t (string_text aid' v @ z)" and "no_open aid t (integer_text aid' w @ z)"
  using assms no_open_attribute [OF assms(1-3)] by (auto simp: string_text_def integer_text_def split: option.split)

lemma tagged_inj:
  assumes "x @ attribute_close @ z = x' @ attribute_close @ z'" and "CHR ''<'' \<notin> set x" and "CHR ''<'' \<notin> set x'"
  shows "x = x' \<and> z = z'"
proof -
  obtain tl where close: "attribute_close = CHR ''<'' # tl" by (simp add: attribute_close_def)
  have "takeWhile (\<lambda>c. c \<noteq> CHR ''<'') (x @ attribute_close @ z) = x"
    "takeWhile (\<lambda>c. c \<noteq> CHR ''<'') (x' @ attribute_close @ z') = x'"
    unfolding close append_Cons by (rule takeWhile_until; use assms(2,3) in auto)+
  with assms(1) show ?thesis by simp
qed

lemma optional_text_inj:
  assumes eq: "(case v of None \<Rightarrow> [] | Some s \<Rightarrow> op @ e s @ attribute_close) @ z =
      (case v' of None \<Rightarrow> [] | Some s \<Rightarrow> op @ e s @ attribute_close) @ z'"
    and "\<forall>y. z \<noteq> op @ y" and "\<forall>y. z' \<noteq> op @ y"
    and tag: "\<And>s. CHR ''<'' \<notin> set (e s)" and inj: "\<And>s t. e s = e t \<longleftrightarrow> s = t"
  shows "v = v' \<and> z = z'"
proof (cases v)
  case None
  then show ?thesis using assms(1-3) by (cases v') auto
next
  case (Some s)
  show ?thesis
  proof (cases v')
    case None
    then show ?thesis using eq assms(3) Some by auto
  next
    case (Some t)
    then have "e s @ attribute_close @ z = e t @ attribute_close @ z'" using eq \<open>v = Some s\<close> by simp
    from tagged_inj [OF this tag tag] inj show ?thesis using \<open>v = Some s\<close> Some by simp
  qed
qed

lemma string_text_inj:
  assumes "string_text aid v @ z = string_text aid v' @ z'"
    and "no_open aid ''string'' z" and "no_open aid ''string'' z'"
  shows "v = v' \<and> z = z'"
  using optional_text_inj [where v = v and v' = v' and op = "attribute_open aid ''string''" and e = escapeXml and z = z and z' = z'] assms
  by (simp add: string_text_def no_open_def escapeXml_no_tag escapeXml_inj)

lemma integer_text_inj:
  assumes "integer_text aid w @ z = integer_text aid w' @ z'"
    and "no_open aid ''integer'' z" and "no_open aid ''integer'' z'"
  shows "w = w' \<and> z = z'"
  using optional_text_inj [where v = w and v' = w' and op = "attribute_open aid ''integer''" and e = int_digits and z = z and z' = z'] assms
  by (simp add: integer_text_def no_open_def int_digits_no_tag int_digits_inj)

lemma no_open_slots:
  assumes "aid \<notin> set (map fst slots)" and "CHR 0x22 \<notin> set aid" and "\<forall>a \<in> set (map fst slots). CHR 0x22 \<notin> set a"
  shows "no_open aid t (concat (map slot_text slots) @ attributes_close @ z)"
  using assms
proof (induction slots)
  case (Cons slot slots)
  then show ?case by (cases slot rule: slot_text.cases) (auto intro!: no_open_text)
qed (simp add: no_open_close)

lemma slots_inj:
  assumes "list_all2 same_slot xs ys" and "distinct (map fst xs)"
    and "concat (map slot_text xs) @ attributes_close @ z = concat (map slot_text ys) @ attributes_close @ z'"
  shows "xs = ys \<and> z = z'"
  using assms
proof (induction xs ys rule: list_all2_induct)
  case (Cons x xs y ys)
  have fsts: "map fst ys = map fst xs" and quotes: "\<forall>a \<in> set (map fst xs). CHR 0x22 \<notin> set a"
    using Cons(2) by (induction rule: list_all2_induct) auto
  obtain a v w where xy: "x = (a, v)" "y = (a, w)" "CHR 0x22 \<notin> set a" "isl v \<longleftrightarrow> isl w"
    using Cons(1) by (cases x; cases y) auto
  have no: "no_open a t (concat (map slot_text xs) @ attributes_close @ z)"
    "no_open a t (concat (map slot_text ys) @ attributes_close @ z')" for t
    using Cons(4) xy(1,3) quotes fsts by (auto intro!: no_open_slots)
  have "v = w \<and> concat (map slot_text xs) @ attributes_close @ z = concat (map slot_text ys) @ attributes_close @ z'"
    using Cons(5) xy string_text_inj [OF _ no] integer_text_inj [OF _ no] by (cases v; cases w) auto
  with Cons(3,4) xy show ?case by simp
qed simp

lemma canonical_request_text:
  "createCanonicalXACMLRequest r =
     request_open @ attributes_open subject_category @
     concat (map slot_text [(subject_id, Inl (subjectId r)), (''urn:uoa:canvas:subject:role'', Inl (subjectRole r)),
       (''urn:uoa:canvas:subject:department'', Inl (subjectDepartment r)),
       (''urn:uoa:canvas:subject:clearance'', Inr (subjectClearance r))]) @ attributes_close @
     attributes_open action_category @ concat (map slot_text [(action_id, Inl (request_action r))]) @ attributes_close @
     attributes_open resource_category @
     concat (map slot_text [(resource_id, Inl (resourceId r)), (''urn:uoa:canvas:resource:owner'', Inl (resourceOwner r)),
       (''urn:uoa:canvas:resource:department'', Inl (resourceDepartment r)),
       (''urn:uoa:canvas:resource:classification'', Inr (resourceClassification r))]) @ attributes_close @
     attributes_open environment_category @
     concat (map slot_text [(''urn:uoa:canvas:environment:network'', Inl (envNetwork r)),
       (''urn:uoa:canvas:environment:hour'', Inr (envHour r))]) @ attributes_close @ request_close"
  by (simp add: createCanonicalXACMLRequest_def Let_def attribute_texts string_text_def integer_text_def)

lemma canonical_request_text_inj:
  assumes "createCanonicalXACMLRequest r = createCanonicalXACMLRequest r'"
  shows "r = r'"
proof -
  note eq = assms [unfolded canonical_request_text same_append_eq]
  note subj = slots_inj [OF _ _ eq]
  have 1: "subjectId r = subjectId r'" "subjectRole r = subjectRole r'" "subjectDepartment r = subjectDepartment r'"
      "subjectClearance r = subjectClearance r'"
    using subj by (simp_all add: subject_id_def del: concat.simps)
  note act = slots_inj [OF _ _ subj [THEN conjunct2, unfolded same_append_eq]]
  have 2: "request_action r = request_action r'"
    using act by (simp_all add: subject_id_def action_id_def del: concat.simps)
  note res = slots_inj [OF _ _ act [THEN conjunct2, unfolded same_append_eq]]
  have 3: "resourceId r = resourceId r'" "resourceOwner r = resourceOwner r'" "resourceDepartment r = resourceDepartment r'"
      "resourceClassification r = resourceClassification r'"
    using res by (simp_all add: subject_id_def action_id_def resource_id_def del: concat.simps)
  note env = slots_inj [OF _ _ res [THEN conjunct2, unfolded same_append_eq]]
  have 4: "envNetwork r = envNetwork r'" "envHour r = envHour r'"
    using env by (simp_all add: subject_id_def action_id_def resource_id_def del: concat.simps)
  show ?thesis using 1 2 3 4 by simp
qed

lemma scenario_engine_lookup:
  "list_all (\<lambda>s. (case find (\<lambda>t. sc_request t = sc_request s) canonical_scenarios of
      None \<Rightarrow> ''Indeterminate'' | Some t \<Rightarrow> sc_expected t) = sc_expected s) canonical_scenarios"
  by code_simp

lemma scenario_engine_answers:
  assumes "s \<in> set canonical_scenarios"
  shows "answers scenario_engine keep (tier_policy randbelow n) (createCanonicalXACMLRequest (sc_request s))
    (canonical_attributes (sc_request s))"
proof -
  have "(createCanonicalXACMLRequest (sc_request t) = createCanonicalXACMLRequest (sc_request s)) = (sc_request t = sc_request s)" for t :: scenario
    by (auto dest: canonical_request_text_inj)
  then have "pdp_evaluate scenario_engine (createCanonicalXACMLRequest (sc_request s)) = sc_expected s"
    using assms scenario_engine_lookup by (simp add: scenario_engine_def list_all_iff)
  then show ?thesis
    using assms canonical_scenarios_ok(2) canonical_scenarios_expected(1)
    by (simp add: answers_def tier_policy_def decoys_ignored list_all_iff course_score_decisions scenario_engine_def
        split: xacml_decision.split)
qed

section \<open>Properties\<close>


text \<open>
  C16. Adding decoys never changes a decision: for every number of decoys, every sequence of random
  numbers and every request, also one that lacks attributes, the policies of the scale tiers decide as
  the reference policies do.
\<close>

theorem decoys_change_nothing:
  "policy_decision keep (tier_policy randbelow n) as = policy_decision keep xacml3_course_score_policy as \<and>
   policy_decision keep (tier_policy2 randbelow n) as = policy_decision keep xacml2_course_score_policy as \<and>
   Enforce (tier_rows randbelow n) r = Enforce casbin_policy r"
  by (simp add: tier_policy_def tier_policy2_def decoys_ignored tier_rows_def Enforce_rows casbin_policy_def del: Enforce.simps)

text \<open>
  On the canonical corpus, at every scale, the runner for the database's engine reports ten of ten
  scenarios correct when the engine answers by the standard, and the Casbin runner reports nine of the
  nine that it supports; both exit with status 0.
\<close>

theorem canonical_corpus_passes:
  assumes "write_scenarios_tsv canonical_scenarios = Some file"
    and "list_all (\<lambda>s. answers b keep (tier_policy randbelow n) (createCanonicalXACMLRequest (sc_request s))
      (canonical_attributes (sc_request s))) canonical_scenarios"
  shows "runCorrectness b file = Some (10, 10, 0) \<and>
    casbin_runCorrectness (Enforce (tier_rows randbelow n)) file = Some (9, 9, 10, 0)"
proof
  have "Evaluate_ABAC_Decision b (sc_request s) = Some (sc_expected s)" if "s \<in> set canonical_scenarios" for s
    using that assms(2) canonical_scenarios_ok(2) canonical_scenarios_expected(1)
      decision_string [of b keep "tier_policy randbelow n" "sc_request s" "canonical_attributes (sc_request s)"]
    by (simp add: list_all_iff tier_policy_def decoys_ignored course_score_decisions)
  then show "runCorrectness b file = Some (10, 10, 0)"
    using runCorrectness_all [OF assms(1) canonical_scenarios_ok(1), of b] canonical_scenarios_ok(3) by force
next
  have rows: "tier_rows randbelow n \<noteq> []" by (simp add: tier_rows_def casbin_policy_def)
  have "\<forall>s \<in> set canonical_scenarios. casbin_actual (Enforce (tier_rows randbelow n)) (row_map columns (scenario_row s)) =
      Some (if sc_expected s = ''NotApplicable'' then ''Deny'' else sc_expected s)"
    using canonical_scenarios_ok(1,2) canonical_scenarios_expected(2) rows
    by (simp add: list_all_iff casbin_actual_def buildDataMap_scenario Enforce_spec)
  from casbin_loop_all [OF this] show "casbin_runCorrectness (Enforce (tier_rows randbelow n)) file = Some (9, 9, 10, 0)"
    using written_rows [OF assms(1) canonical_scenarios_ok(1)] canonical_scenarios_ok(3,4)
    by (simp add: casbin_runCorrectness_def)
qed

text \<open>
  The text of a canonical request determines the request: whatever characters the attribute values
  contain, they cannot change, add or remove another attribute.
\<close>

theorem canonical_request_unambiguous:
  "createCanonicalXACMLRequest r = createCanonicalXACMLRequest r' \<longleftrightarrow> r = r'"
  by (auto dest: canonical_request_text_inj)


theorem canonical_corpus_passes_witness:
  "\<exists>file. write_scenarios_tsv canonical_scenarios = Some file \<and> runCorrectness scenario_engine file = Some (10, 10, 0)"
proof -
  obtain f where f: "write_scenarios_tsv canonical_scenarios = Some f"
    using write_ok [OF canonical_scenarios_ok(1)] by blast
  have "list_all (\<lambda>s. answers scenario_engine False (tier_policy (\<lambda>_ _. 0) 3) (createCanonicalXACMLRequest (sc_request s))
      (canonical_attributes (sc_request s))) canonical_scenarios"
    using scenario_engine_answers by (simp add: list_all_iff)
  from canonical_corpus_passes [OF f this] f show ?thesis by blast
qed

text \<open>A carriage return in a cell is not refused, and splits the row for the Java reader only.\<close>

lemma carriage_return_splits_row:
  "\<exists>file. write_scenarios_tsv [score_scenario ''x'' (''al'' @ [CR] @ ''ice'', ''student'', ''ComputerScience'', 1) ''SELECT'' (''campus'', 10) ''Permit''] = Some file \<and>
     length (readTsv file) = 3 \<and> length (readTsvRows file) = 2"
proof -
  let ?file = "concat (map tsv_line (columns # map scenario_row
    [score_scenario ''x'' (''al'' @ [CR] @ ''ice'', ''student'', ''ComputerScience'', 1) ''SELECT'' (''campus'', 10) ''Permit'']))"
  have "write_scenarios_tsv [score_scenario ''x'' (''al'' @ [CR] @ ''ice'', ''student'', ''ComputerScience'', 1) ''SELECT'' (''campus'', 10) ''Permit''] = Some ?file"
    by code_simp
  moreover have "length (readTsv ?file) = 3" "length (readTsvRows ?file) = 2" by code_simp+
  ultimately show ?thesis by blast
qed

text \<open>
  The text of a database check is ambiguous: the closing tags in a user name make a part of the name
  the beginning of the action.
\<close>

lemma check_request_ambiguous:
  "createXACMLRequest (nm @ attribute_close @ attributes_close @ attributes_open action_category @
       attribute_open action_id ''string'' @ action) action' uri =
   createXACMLRequest nm (action @ attribute_close @ attributes_close @ attributes_open action_category @
       attribute_open action_id ''string'' @ action') uri"
  by (simp add: createXACMLRequest_def)

end
