(* ===== verification/PolicyGen.thy ===== *)
theory PolicyGen
  imports Corpus
begin

text \<open>
  The policy generators \<^verbatim>\<open>src/generate_policy.c\<close> and \<^verbatim>\<open>src/generate_rule.c\<close>, which write test policies for the
  database check. The texts are kept character by character, and formatting into a character array of
  a fixed size is checked. The files that the programs create are their contents; numbers given on
  the command line are the parameters.
\<close>

section \<open>The texts\<close>

text \<open>\<^verbatim>\<open>sprintf\<close> into an array of the given size.\<close>

definition sprintf_into :: "nat \<Rightarrow> string \<Rightarrow> string pg_result" where
  "sprintf_into sz text =
     (if length text < sz then Inr text else c_undefined ''write outside an array'')"

abbreviation Q :: string where
  "Q \<equiv> [CHR 0x22]"

definition string_type :: string where
  "string_type = ''http://www.w3.org/2001/XMLSchema#string''"

text \<open>The \<^verbatim>\<open>Match\<close> element of both programs for a subject name.\<close>

definition match_text :: "string \<Rightarrow> string" where
  "match_text nm =
     ''<Match MatchId='' @ Q @ ''urn:oasis:names:tc:xacml:1.0:function:string-equal'' @ Q @ ''>'' @
     ''<AttributeValue DataType='' @ Q @ string_type @ Q @ ''>'' @ nm @ ''</AttributeValue>'' @
     ''<AttributeDesignator AttributeId='' @ Q @ subject_id @ Q @ '' Category='' @ Q @ subject_category @ Q @
     '' DataType='' @ Q @ string_type @ Q @ '' MustBePresent='' @ Q @ ''true'' @ Q @ ''></AttributeDesignator></Match>''"

definition user_name :: "int \<Rightarrow> string" where
  "user_name i = ''user'' @ int_digits i"

definition get_rule :: "int \<Rightarrow> string pg_result" where
  "get_rule i = sprintf_into 1000 (match_text (user_name i))"

definition policy_head :: string where
  "policy_head =
     ''<Policy xmlns='' @ Q @ ''urn:oasis:names:tc:xacml:3.0:core:schema:wd-17'' @ Q @ ''  PolicyId='' @ Q @ ''sample_policy_8'' @ Q @
     '' RuleCombiningAlgId='' @ Q @ ''urn:oasis:names:tc:xacml:1.0:rule-combining-algorithm:first-applicable'' @ Q @
     '' Version='' @ Q @ ''1.0'' @ Q @ ''><Description>''"

definition policy_tail :: string where
  "policy_tail = ''</AllOf></AnyOf></Target><Rule Effect='' @ Q @ ''Permit'' @ Q @ '' RuleId='' @ Q @ ''rule1'' @ Q @ ''/></Policy>''"

definition get_policy :: "int \<Rightarrow> string pg_result" where
  "get_policy i =
     sprintf_into 2000
       (policy_head @ ''Subject with name '' @ user_name i @ '' can perform any anction on any resource.</Description>'' @
        ''<Target><AnyOf><AllOf>'' @ match_text (user_name i) @ policy_tail)"

section \<open>The programs\<close>

text \<open>
  \<^verbatim>\<open>generate_rule\<close>: the content of the policy file with \<open>rule_amount\<close> rules. The loop variable is an \<^verbatim>\<open>int\<close>, which
  overflows when \<open>rule_amount\<close> is the largest one.
\<close>

fun rule_loop :: "int list \<Rightarrow> string pg_result" where
  "rule_loop [] = Inr []"
| "rule_loop (i # is) = rbind (get_rule i) (\<lambda>rule. rbind (rule_loop is) (\<lambda>rest. Inr (rule @ rest)))"

definition generate_rule :: "int \<Rightarrow> string pg_result" where
  "generate_rule rule_amount =
     rbind (sprintf_into 1000 (policy_head @
         ''Subject which name is in the target list can perform any anction on any resource.</Description><Target><AnyOf><AllOf>''))
       (\<lambda>start. rbind (if rule_amount \<ge> INT_MAX then c_undefined ''signed integer overflow'' else rule_loop [1..rule_amount]) (\<lambda>rules.
          rbind (sprintf_into 1000 policy_tail) (\<lambda>fin. Inr (start @ rules @ fin))))"

text \<open>\<^verbatim>\<open>generate_policy\<close>: the paths and contents of the files numbered from \<open>i\<close> to \<open>file_amount\<close>.\<close>

definition policy_file :: "string \<Rightarrow> int \<Rightarrow> (string \<times> string) pg_result" where
  "policy_file dir i =
     rbind (sprintf_into 200 (dir @ ''policy'' @ int_digits i @ ''.xml'')) (\<lambda>filepath.
       rbind (get_policy i) (\<lambda>policy. Inr (filepath, policy)))"

fun policy_loop :: "string \<Rightarrow> int list \<Rightarrow> (string \<times> string) list pg_result" where
  "policy_loop dir [] = Inr []"
| "policy_loop dir (i # is) = rbind (policy_file dir i) (\<lambda>f. rbind (policy_loop dir is) (\<lambda>fs. Inr (f # fs)))"

definition generate_policy :: "string \<Rightarrow> int \<Rightarrow> int \<Rightarrow> (string \<times> string) list pg_result" where
  "generate_policy dir i file_amount = policy_loop dir [i..file_amount]"

section \<open>What the texts mean\<close>

abbreviation subject_match :: "string \<Rightarrow> xmatch" where
  "subject_match nm \<equiv> string_is (subject_id_designator True) nm"

text \<open>The policy with one \<^verbatim>\<open>AllOf\<close> element of the given matches.\<close>

definition all_of_policy :: "xmatch list \<Rightarrow> xpolicy" where
  "all_of_policy ms =
     \<lparr>policy_id = ''sample_policy_8'', policy_combining = first_applicable, policy_target = [[ms]],
      policy_rules = [Rule Permit ''rule1'' [] None]\<rparr>"

definition generated_policy :: "int \<Rightarrow> xpolicy" where
  "generated_policy i = all_of_policy [subject_match (user_name i)]"

definition generated_rules :: "int \<Rightarrow> xpolicy" where
  "generated_rules rule_amount = all_of_policy (map (\<lambda>i. subject_match (user_name i)) [1..rule_amount])"

text \<open>The text of such a policy.\<close>

fun subject_match_text :: "xmatch \<Rightarrow> string" where
  "subject_match_text (Match f (StringValue nm) d) = match_text nm"
| "subject_match_text _ = []"

definition policy_text :: "string \<Rightarrow> xpolicy \<Rightarrow> string" where
  "policy_text description p =
     policy_head @ description @ ''</Description><Target><AnyOf><AllOf>'' @
     concat (map subject_match_text (concat (concat (policy_target p)))) @ policy_tail"

definition is_long :: "int \<Rightarrow> bool" where
  "is_long i \<longleftrightarrow> - (2 ^ 63) \<le> i \<and> i < 2 ^ 63"

section \<open>Lengths\<close>

lemma nat_digits_length: "n < 10 ^ Suc k \<Longrightarrow> length (nat_digits n) \<le> Suc k"
proof (induction k arbitrary: n)
  case 0
  then show ?case by (simp add: nat_digits.simps)
next
  case (Suc k)
  show ?case
  proof (cases "n < 10")
    case False
    have "n div 10 < 10 ^ Suc k" using Suc(2) by (simp add: div_less_iff_less_mult)
    with Suc(1) False show ?thesis by (simp add: nat_digits.simps [of n])
  qed (simp add: nat_digits.simps)
qed

lemma user_name_length:
  assumes "is_long i"
  shows "length (int_digits i) \<le> 20" and "length (user_name i) \<le> 24"
proof -
  have "nat i < 10 ^ Suc 18" "nat (- i) < 10 ^ Suc 18" using assms by (simp_all add: is_long_def) linarith+
  then show "length (int_digits i) \<le> 20"
    using nat_digits_length [of "nat i" 18] nat_digits_length [of "nat (- i)" 18] by (auto simp: int_digits_def)
  then show "length (user_name i) \<le> 24" by (simp add: user_name_def)
qed

lemma match_text_length: "length (match_text nm) = length nm + 409"
  by (simp add: match_text_def string_type_def subject_id_def subject_category_def)

lemma fixed_lengths: "length policy_head = 210" "length policy_tail = 72"
  by (simp_all add: policy_head_def policy_tail_def)

lemma get_rule_fits: "is_long i \<Longrightarrow> get_rule i = Inr (match_text (user_name i))"
  using user_name_length [of i] by (simp add: get_rule_def sprintf_into_def match_text_length)

lemma get_policy_fits:
  assumes "is_long i"
  shows "get_policy i = Inr (policy_text (''Subject with name '' @ user_name i @ '' can perform any anction on any resource.'')
    (generated_policy i))"
  using user_name_length [OF assms]
  by (simp add: get_policy_def sprintf_into_def match_text_length fixed_lengths policy_text_def generated_policy_def
      all_of_policy_def)

lemma rule_loop_fits:
  "\<forall>i \<in> set is. is_long i \<Longrightarrow> rule_loop is = Inr (concat (map (\<lambda>i. match_text (user_name i)) is))"
  by (induction "is") (simp_all add: get_rule_fits)

section \<open>Decisions\<close>

lemma all_of_subjects:
  "all_match (map (match_result (check_attributes nm action uri)) (map subject_match nms)) =
     (if \<forall>u \<in> set nms. u = nm then Matched else NoMatch)"
  by (induction nms) (auto simp: subject_id_match)

lemma all_of_policy_decision:
  "policy_decision keep (all_of_policy (map subject_match nms)) (check_attributes nm action uri) =
     (if \<forall>u \<in> set nms. u = nm then XPermit else XNotApplicable)"
  by (simp add: policy_decision_def all_of_policy_def target_result_def all_of_subjects rule_decision_def del: map_map)

lemma user_name_inj: "user_name i = user_name j \<longleftrightarrow> i = j"
  by (simp add: user_name_def int_digits_inj)

lemma generated_rules_names:
  "generated_rules n = all_of_policy (map subject_match (map user_name [1..n]))"
  by (simp add: generated_rules_def comp_def)

section \<open>Properties\<close>

text \<open>
  C35. The texts fit: for every \<^verbatim>\<open>long\<close> number, \<^verbatim>\<open>get_rule\<close> and \<^verbatim>\<open>get_policy\<close> stay inside their arrays of 1000 and
  2000 characters and below the largest \<^verbatim>\<open>int\<close> \<^verbatim>\<open>generate_rule\<close> returns the text of a policy with one \<^verbatim>\<open>AllOf\<close> element, and a path
  is written outside its 200 characters exactly when the directory name is too long.
\<close>

theorem generated_texts_fit:
  assumes "is_long i"
  shows "get_rule i = Inr (subject_match_text (subject_match (user_name i))) \<and>
    get_policy i = Inr (policy_text (''Subject with name '' @ user_name i @ '' can perform any anction on any resource.'')
      (generated_policy i)) \<and>
    (i < INT_MAX \<longrightarrow>
      generate_rule i = Inr (policy_text ''Subject which name is in the target list can perform any anction on any resource.''
        (generated_rules i))) \<and>
    (policy_file dir i = c_undefined ''write outside an array'' \<longleftrightarrow> 200 \<le> length dir + length (int_digits i) + 10)"
proof -
  have "rule_loop [1..i] = Inr (concat (map (\<lambda>i. match_text (user_name i)) [1..i]))"
    using assms by (intro rule_loop_fits) (auto simp: is_long_def)
  then have "i < INT_MAX \<longrightarrow>
      generate_rule i = Inr (policy_text ''Subject which name is in the target list can perform any anction on any resource.''
        (generated_rules i))"
    by (simp add: generate_rule_def sprintf_into_def fixed_lengths policy_text_def generated_rules_def all_of_policy_def comp_def)
  moreover have "policy_file dir i = c_undefined ''write outside an array'' \<longleftrightarrow> 200 \<le> length dir + length (int_digits i) + 10"
    by (simp add: policy_file_def get_policy_fits [OF assms] sprintf_into_def)
  ultimately show ?thesis by (simp add: get_rule_fits [OF assms] get_policy_fits [OF assms])
qed

text \<open>
  C36. A policy of \<^verbatim>\<open>generate_policy\<close> permits exactly its own user. A policy of \<^verbatim>\<open>generate_rule\<close> with two or more
  rules applies to nobody: the names are alternatives in its description, but the matches are in one
  \<^verbatim>\<open>AllOf\<close> element, which asks for all of them.
\<close>

theorem generated_policies_decide:
  "policy_decision keep (generated_policy i) (check_attributes nm action uri) =
     (if nm = user_name i then XPermit else XNotApplicable) \<and>
   policy_decision keep (generated_rules (int n + 2)) (check_attributes nm action uri) = XNotApplicable"
proof
  show "policy_decision keep (generated_policy i) (check_attributes nm action uri) =
      (if nm = user_name i then XPermit else XNotApplicable)"
    using all_of_policy_decision [of keep "[user_name i]" nm action uri] by (auto simp: generated_policy_def)
  have "\<not> (\<forall>u \<in> set (map user_name [1..int n + 2]). u = nm)"
  proof
    assume all: "\<forall>u \<in> set (map user_name [1..int n + 2]). u = nm"
    have "user_name 1 \<in> set (map user_name [1..int n + 2])" "user_name 2 \<in> set (map user_name [1..int n + 2])" by auto
    with all have "user_name 1 = user_name 2" by metis
    then show False by (simp add: user_name_inj)
  qed
  then show "policy_decision keep (generated_rules (int n + 2)) (check_attributes nm action uri) = XNotApplicable"
    unfolding generated_rules_names all_of_policy_decision by (rule if_not_P)
qed

theorem generated_texts_fit_witness:
  "get_rule 12 = Inr (subject_match_text (subject_match ''user12'')) \<and>
   policy_file (replicate 190 (CHR ''d'')) 12 = c_undefined ''write outside an array''"
proof -
  have "is_long 12" by (simp add: is_long_def)
  moreover have "user_name 12 = ''user12''" "length (int_digits 12) = 2" by code_simp+
  ultimately show ?thesis using generated_texts_fit [of 12 "replicate 190 (CHR ''d'')"] by simp
qed

end
