(* ===== verification/Search.thy ===== *)
theory Search
  imports Main
begin

text \<open>
  Breadth-first search on a list that is both the record of the nodes found and the agenda of the
  nodes to visit, the way \<^verbatim>\<open>roles_is_member_of\<close> in \<^verbatim>\<open>src/postgres/src/backend/utils/adt/acl.c\<close>
  searches the membership graph. The locale \<open>breadth_first\<close> is the contract between the loop and its
  users: a loop with the stated recursion on a graph with finitely many reachable nodes returns, and
  its result lists the reachable nodes once each in the order of their distance from the root.
\<close>

section \<open>Breadth-first search\<close>

text \<open>
  The search works on any graph given by successor lists; the number of edges on a shortest path
  from the root is \<open>hops\<close>.
\<close>

fun append_uniques :: "'a list \<Rightarrow> 'a list \<Rightarrow> 'a list" where
  "append_uniques l [] = l"
| "append_uniques l (x # xs) = append_uniques (if x \<in> set l then l else l @ [x]) xs"

definition edges :: "('a \<Rightarrow> 'a list) \<Rightarrow> ('a \<times> 'a) set" where
  "edges succs = {(a, b). b \<in> set (succs a)}"

definition reachable :: "('a \<Rightarrow> 'a list) \<Rightarrow> 'a \<Rightarrow> 'a set" where
  "reachable succs root = {v. (root, v) \<in> (edges succs)\<^sup>*}"

definition hops :: "('a \<Rightarrow> 'a list) \<Rightarrow> 'a \<Rightarrow> 'a \<Rightarrow> nat" where
  "hops succs root v = (LEAST n. (root, v) \<in> edges succs ^^ n)"

text \<open>What holds of the search before position \<open>i\<close> of the list is processed.\<close>

definition search_inv :: "('a \<Rightarrow> 'a list) \<Rightarrow> 'a \<Rightarrow> nat \<Rightarrow> 'a list \<Rightarrow> bool" where
  "search_inv succs root i l \<longleftrightarrow>
     distinct l \<and> l \<noteq> [] \<and> hd l = root \<and> i \<le> length l \<and> set l \<subseteq> reachable succs root \<and>
     (\<forall>j < i. set (succs (l ! j)) \<subseteq> set l) \<and> sorted (map (hops succs root) l) \<and>
     (i < length l \<longrightarrow>
        (\<forall>x \<in> set l. hops succs root x \<le> Suc (hops succs root (l ! i))) \<and>
        (\<forall>v \<in> reachable succs root. hops succs root v \<le> hops succs root (l ! i) \<longrightarrow> v \<in> set l))"

lemma append_uniques_new:
  "\<exists>N. append_uniques l xs = l @ N \<and> set N = set xs - set l \<and> (distinct l \<longrightarrow> distinct (l @ N))"
proof (induction xs arbitrary: l)
  case (Cons x xs)
  show ?case
  proof (cases "x \<in> set l")
    case True
    with Cons.IH [of l] show ?thesis by auto
  next
    case False
    from Cons.IH [of "l @ [x]"] obtain N where
      "append_uniques (l @ [x]) xs = (l @ [x]) @ N" "set N = set xs - set (l @ [x])"
      "distinct (l @ [x]) \<longrightarrow> distinct ((l @ [x]) @ N)" by blast
    with False show ?thesis by (intro exI [of _ "x # N"]) auto
  qed
qed simp

lemma reachable_iff: "v \<in> reachable succs root \<longleftrightarrow> (\<exists>n. (root, v) \<in> edges succs ^^ n)"
  by (auto simp: reachable_def rtrancl_is_UN_relpow)

lemma reachable_root [simp]: "root \<in> reachable succs root"
  by (simp add: reachable_def)

lemma reachable_step: "u \<in> reachable succs root \<Longrightarrow> v \<in> set (succs u) \<Longrightarrow> v \<in> reachable succs root"
  by (auto simp: edges_def reachable_def intro: rtrancl_into_rtrancl)

lemma hops_path: "v \<in> reachable succs root \<Longrightarrow> (root, v) \<in> edges succs ^^ hops succs root v"
  unfolding reachable_iff hops_def by (rule LeastI_ex)

lemma hops_le: "(root, v) \<in> edges succs ^^ n \<Longrightarrow> hops succs root v \<le> n"
  unfolding hops_def by (rule Least_le)

lemma hops_edge:
  assumes "u \<in> reachable succs root" and "v \<in> set (succs u)"
  shows "hops succs root v \<le> Suc (hops succs root u)"
proof (rule hops_le)
  have "(u, v) \<in> edges succs" using assms(2) by (simp add: edges_def)
  with hops_path [OF assms(1)] show "(root, v) \<in> edges succs ^^ Suc (hops succs root u)" by auto
qed

lemma hops_pred:
  assumes "v \<in> reachable succs root" and "hops succs root v = Suc n"
  shows "\<exists>u \<in> reachable succs root. v \<in> set (succs u) \<and> hops succs root u = n"
proof -
  from hops_path [OF assms(1)] assms(2) obtain u where
    u: "(root, u) \<in> edges succs ^^ n" "v \<in> set (succs u)" by (auto simp: edges_def)
  then have "u \<in> reachable succs root" by (metis reachable_iff)
  with u hops_le [OF u(1)] hops_edge [of u succs root v] assms(2) show ?thesis by auto
qed

lemma search_inv_start: "search_inv succs root 0 [root]"
proof -
  have 0: "hops succs root root = 0" using hops_le [of root root 0 succs] by simp
  have "v = root" if "v \<in> reachable succs root" "hops succs root v = 0" for v
    using hops_path [OF that(1)] that(2) by simp
  with 0 show ?thesis by (auto simp: search_inv_def)
qed

lemma search_inv_step:
  assumes inv: "search_inv succs root i l" and i: "i < length l"
  shows "search_inv succs root (i + 1) (append_uniques l (succs (l ! i)))"
proof -
  let ?u = "l ! i" and ?d = "hops succs root" and ?R = "reachable succs root"
  obtain N where l': "append_uniques l (succs ?u) = l @ N" and N: "set N = set (succs ?u) - set l"
    and dN: "distinct (l @ N)"
    using append_uniques_new [of l "succs ?u"] inv by (auto simp: search_inv_def)
  have lR: "set l \<subseteq> ?R" and near: "\<And>x. x \<in> set l \<Longrightarrow> ?d x \<le> Suc (?d ?u)"
    and complete: "\<And>v. v \<in> ?R \<Longrightarrow> ?d v \<le> ?d ?u \<Longrightarrow> v \<in> set l"
    using inv i by (simp_all add: search_inv_def)
  have u: "?u \<in> ?R" using lR nth_mem [OF i] by blast
  have NR: "set N \<subseteq> ?R" using N reachable_step [OF u] by auto
  have dist_N: "?d x = Suc (?d ?u)" if "x \<in> set N" for x
    using that N NR hops_edge [OF u, of x] complete [of x] by (metis DiffE le_SucE subsetD)
  have "map ?d N = replicate (length N) (Suc (?d ?u))"
    by (rule replicate_eqI) (use dist_N in auto)
  then have sorted: "sorted (map ?d (l @ N))"
    using inv near dist_N by (auto simp: search_inv_def sorted_append)
  have closed: "set (succs ((l @ N) ! j)) \<subseteq> set (l @ N)" if "j < i + 1" for j
    using that inv i N by (auto simp: search_inv_def nth_append less_Suc_eq)
  have far: "?d x \<le> Suc (?d ?u)" if "x \<in> set (l @ N)" for x using that near dist_N by auto
  have nxt: "(\<forall>x \<in> set (l @ N). ?d x \<le> Suc (?d ((l @ N) ! (i + 1)))) \<and>
      (\<forall>v \<in> ?R. ?d v \<le> ?d ((l @ N) ! (i + 1)) \<longrightarrow> v \<in> set (l @ N))" if len: "i + 1 < length (l @ N)"
  proof -
    have "?d ((l @ N) ! i) \<le> ?d ((l @ N) ! (i + 1))"
      using sorted_nth_mono [OF sorted, of i "i + 1"] len i by (simp del: map_append)
    moreover have "(l @ N) ! i = ?u" using i by (simp add: nth_append)
    ultimately have le: "?d ?u \<le> ?d ((l @ N) ! (i + 1))" by metis
    have "v \<in> set (l @ N)" if v: "v \<in> ?R" "?d v \<le> ?d ((l @ N) ! (i + 1))" for v
    proof (cases "?d v \<le> ?d ?u")
      case True
      then show ?thesis using complete v(1) by simp
    next
      case False
      with v far [OF nth_mem [OF len]] have *: "?d v = Suc (?d ?u)" "?d ?u < ?d ((l @ N) ! (i + 1))" by auto
      from hops_pred [OF v(1) *(1)] obtain w where w: "w \<in> ?R" "v \<in> set (succs w)" "?d w = ?d ?u" by blast
      then obtain j where j: "j < length l" "w = l ! j" using complete [of w] by (auto simp: in_set_conv_nth)
      have "(l @ N) ! j = w" using j by (simp add: nth_append)
      moreover have "?d ((l @ N) ! (i + 1)) \<le> ?d ((l @ N) ! j)" if "i + 1 \<le> j"
        using sorted_nth_mono [OF sorted that] that j len by (simp del: map_append)
      ultimately have "j < i + 1" using w(3) *(2) by (metis not_le)
      with closed [of j] j w(2) show ?thesis by (auto simp: nth_append)
    qed
    moreover have "?d x \<le> Suc (?d ((l @ N) ! (i + 1)))" if "x \<in> set (l @ N)" for x
      using far [OF that] le by linarith
    ultimately show ?thesis by blast
  qed
  have "l @ N \<noteq> []" "hd (l @ N) = root" "i + 1 \<le> length (l @ N)"
    using inv i by (auto simp: search_inv_def)
  with dN lR NR closed sorted nxt show ?thesis unfolding l' search_inv_def by auto
qed

locale breadth_first =
  fixes succs :: "'a \<Rightarrow> 'a list"
    and root :: 'a
    and step :: "'a \<Rightarrow> 's \<Rightarrow> 's"
    and loop :: "nat \<Rightarrow> 'a list \<Rightarrow> 's \<Rightarrow> ('a list \<times> 's) option"
  assumes finite_reach: "finite (reachable succs root)"
    and loop_rec: "loop i l s =
      (if i < length l then loop (i + 1) (append_uniques l (succs (l ! i))) (step (l ! i) s)
       else Some (l, s))"
begin

lemma search_from:
  assumes "search_inv succs root i l"
  shows "\<exists>N. loop i l s = Some (l @ N, fold step (drop i (l @ N)) s) \<and>
    search_inv succs root (length (l @ N)) (l @ N)"
  using assms
proof (induction "card (reachable succs root) - i" arbitrary: i l s rule: less_induct)
  case less
  show ?case
  proof (cases "i < length l")
    case False
    then have "i = length l" using less.prems by (simp add: search_inv_def)
    then show ?thesis using less.prems by (intro exI [of _ "[]"]) (subst loop_rec, simp)
  next
    case True
    let ?l = "append_uniques l (succs (l ! i))"
    obtain N where l': "?l = l @ N" using append_uniques_new [of l "succs (l ! i)"] by blast
    have inv': "search_inv succs root (i + 1) ?l" by (rule search_inv_step [OF less.prems True])
    have "length l \<le> card (reachable succs root)"
      using less.prems card_mono [OF finite_reach, of "set l"] distinct_card [of l]
      by (simp add: search_inv_def)
    then have "card (reachable succs root) - (i + 1) < card (reachable succs root) - i" using True by simp
    from less.hyps [OF this inv', of "step (l ! i) s"] obtain M where
      M: "loop (i + 1) ?l (step (l ! i) s) = Some (?l @ M, fold step (drop (i + 1) (?l @ M)) (step (l ! i) s))"
        "search_inv succs root (length (?l @ M)) (?l @ M)" by blast
    have "drop i (l @ N @ M) = l ! i # drop (i + 1) (l @ N @ M)"
      using True by (simp add: Cons_nth_drop_Suc [symmetric] nth_append)
    with M True show ?thesis by (intro exI [of _ "N @ M"]) (subst loop_rec, simp add: l')
  qed
qed

text \<open>The list does not depend on what else the loop computes.\<close>

lemma list_unique:
  assumes "breadth_first succs root step' loop'" and "search_inv succs root i l"
  shows "map_option fst (loop i l s) = map_option fst (loop' i l s')"
  using assms(2)
proof (induction "card (reachable succs root) - i" arbitrary: i l s s' rule: less_induct)
  case less
  note loop'_rec = breadth_first.loop_rec [OF assms(1)]
  show ?case
  proof (cases "i < length l")
    case False
    then show ?thesis by (subst loop_rec, subst loop'_rec) simp
  next
    case True
    have "length l \<le> card (reachable succs root)"
      using less.prems card_mono [OF finite_reach, of "set l"] distinct_card [of l]
      by (simp add: search_inv_def)
    then have "card (reachable succs root) - (i + 1) < card (reachable succs root) - i" using True by simp
    from less.hyps [OF this search_inv_step [OF less.prems True]] True
    show ?thesis by (subst loop_rec, subst loop'_rec) simp
  qed
qed

text \<open>The search returns every reachable node once, in order of its distance from the root.\<close>

lemma search_result:
  "\<exists>l. loop 0 [root] s = Some (l, fold step l s) \<and> distinct l \<and> l \<noteq> [] \<and> hd l = root \<and>
     set l = reachable succs root \<and> sorted (map (hops succs root) l)"
proof -
  from search_from [OF search_inv_start, of s] obtain l where
    l: "loop 0 [root] s = Some (l, fold step l s)" "search_inv succs root (length l) l" by auto
  have "v \<in> set l" if "(root, v) \<in> (edges succs)\<^sup>*" for v
    using that
  proof induction
    case base
    then show ?case using l(2) hd_in_set by (auto simp: search_inv_def)
  next
    case (step u v)
    from step.IH obtain j where "j < length l" "u = l ! j" by (auto simp: in_set_conv_nth)
    with step.hyps(2) l(2) show ?case by (auto simp: search_inv_def edges_def)
  qed
  then have "set l = reachable succs root" using l(2) by (auto simp: search_inv_def reachable_def)
  with l show ?thesis by (auto simp: search_inv_def)
qed

end

end
