(* ===== verification/Roles.thy ===== *)
theory Roles
  imports Prelude Search
begin

text \<open>
  Role membership: \<^verbatim>\<open>roles_is_member_of\<close> and the tests built on it in
  \<^verbatim>\<open>src/postgres/src/backend/utils/adt/acl.c\<close>, \<^verbatim>\<open>superuser_arg\<close> of
  \<^verbatim>\<open>src/postgres/src/backend/utils/misc/superuser.c\<close>, and the role-name lookups at the end of acl.c.

  The system catalogs and the session variables the routines read are the fields of
  \<open>role_catalog\<close>; a syscache search returns the matching rows in the order of the catalog list.
  \<open>role_cache\<close> holds the static variables of the two files (one membership list per recursion
  type, one superuser flag). The lemmas show that the search ends, that its result is the set of
  roles reachable through the admissible grants, closer roles first, and that the caches never
  change an answer as long as the invalidation callbacks run when the catalogs change.
\<close>

section \<open>Catalogs and session state\<close>

type_synonym Oid = word32

abbreviation InvalidOid :: Oid where "InvalidOid \<equiv> 0"

definition OidIsValid :: "Oid \<Rightarrow> bool" where
  "OidIsValid oid = (oid \<noteq> InvalidOid)"

record pg_authid_row =
  auth_oid :: Oid
  rolname :: string
  rolsuper :: bool
  rolinherit :: bool
  rolcreaterole :: bool
  rolbypassrls :: bool

record pg_auth_members_row =
  am_roleid :: Oid
  am_member :: Oid
  admin_option :: bool
  inherit_option :: bool
  set_option :: bool
  am_grantor :: Oid

record role_catalog =
  pg_authid :: "pg_authid_row list"
  pg_auth_members :: "pg_auth_members_row list"
  pg_database :: "(Oid \<times> Oid) list"
  MyDatabaseId :: Oid
  IsUnderPostmaster :: bool
  CurrentUserId :: Oid
  SessionUserId :: Oid

definition BOOTSTRAP_SUPERUSERID :: Oid where "BOOTSTRAP_SUPERUSERID = 10"
definition ROLE_PG_DATABASE_OWNER :: Oid where "ROLE_PG_DATABASE_OWNER = 6171"

datatype RoleRecurseType = ROLERECURSE_MEMBERS | ROLERECURSE_PRIVS | ROLERECURSE_SETROLE

record role_cache =
  cached_role :: "RoleRecurseType \<Rightarrow> Oid"
  cached_roles :: "RoleRecurseType \<Rightarrow> Oid list"
  cached_db_hash :: word32
  membership_callbacks :: bool
  last_roleid :: Oid
  last_roleid_is_super :: bool
  roleid_callback_registered :: bool

definition initial_cache :: role_cache where
  "initial_cache = \<lparr>cached_role = (\<lambda>_. InvalidOid), cached_roles = (\<lambda>_. []),
     cached_db_hash = 0, membership_callbacks = False,
     last_roleid = InvalidOid, last_roleid_is_super = False, roleid_callback_registered = False\<rparr>"

section \<open>Superuser status\<close>

text \<open>The part of \<^verbatim>\<open>superuser_arg\<close> that reads the catalog.\<close>

definition superuser_lookup :: "role_catalog \<Rightarrow> Oid \<Rightarrow> bool" where
  "superuser_lookup cat roleid =
     (case find (\<lambda>r. auth_oid r = roleid) (pg_authid cat) of
        Some rtup \<Rightarrow> rolsuper rtup
      | None \<Rightarrow> False)"

definition superuser_arg_cached :: "role_catalog \<Rightarrow> role_cache \<Rightarrow> Oid \<Rightarrow> role_cache \<times> bool" where
  "superuser_arg_cached cat cache roleid =
     (if OidIsValid (last_roleid cache) \<and> last_roleid cache = roleid
      then (cache, last_roleid_is_super cache)
      else if \<not> IsUnderPostmaster cat \<and> roleid = BOOTSTRAP_SUPERUSERID
      then (cache, True)
      else let result = superuser_lookup cat roleid
           in (cache\<lparr>roleid_callback_registered := True, last_roleid := roleid,
                 last_roleid_is_super := result\<rparr>, result))"

text \<open>The same routine on an empty cache: what every other definition of the development calls.\<close>

definition superuser_arg :: "role_catalog \<Rightarrow> Oid \<Rightarrow> bool" where
  "superuser_arg cat roleid =
     (if \<not> IsUnderPostmaster cat \<and> roleid = BOOTSTRAP_SUPERUSERID then True
      else superuser_lookup cat roleid)"

definition RoleidCallback :: "role_cache \<Rightarrow> role_cache" where
  "RoleidCallback cache = cache\<lparr>last_roleid := InvalidOid\<rparr>"

section \<open>The membership search\<close>

definition list_append_unique_oid :: "Oid list \<Rightarrow> Oid \<Rightarrow> Oid list" where
  "list_append_unique_oid l x = (if x \<in> set l then l else l @ [x])"

text \<open>Is a grant followed by the given kind of recursion?\<close>

fun follows_grant :: "RoleRecurseType \<Rightarrow> pg_auth_members_row \<Rightarrow> bool" where
  "follows_grant ROLERECURSE_MEMBERS form \<longleftrightarrow> True"
| "follows_grant ROLERECURSE_PRIVS form \<longleftrightarrow> inherit_option form"
| "follows_grant ROLERECURSE_SETROLE form \<longleftrightarrow> set_option form"

text \<open>One round of the inner loop, over the grants of which \<open>memberid\<close> is the member.\<close>

fun scan_grants ::
  "RoleRecurseType \<Rightarrow> Oid \<Rightarrow> Oid \<Rightarrow> pg_auth_members_row list \<Rightarrow> Oid list \<times> Oid \<Rightarrow> Oid list \<times> Oid" where
  "scan_grants type admin_of memberid [] (roles_list, admin_role) = (roles_list, admin_role)"
| "scan_grants type admin_of memberid (form # memlist) (roles_list, admin_role) =
     (let otherid = am_roleid form;
          admin_role1 =
            (if otherid = admin_of \<and> admin_option form \<and> OidIsValid admin_of \<and> \<not> OidIsValid admin_role
             then memberid else admin_role);
          roles_list1 =
            (if follows_grant type form then list_append_unique_oid roles_list otherid
             else roles_list)
      in scan_grants type admin_of memberid memlist (roles_list1, admin_role1))"

definition AUTHMEMMEMROLE :: "role_catalog \<Rightarrow> Oid \<Rightarrow> pg_auth_members_row list" where
  "AUTHMEMMEMROLE cat memberid = filter (\<lambda>r. am_member r = memberid) (pg_auth_members cat)"

text \<open>
  The outer \<^verbatim>\<open>foreach\<close>, which walks the list by position while the body appends to it. Not returning is
  the value \<open>None\<close>; \<open>expand_loop_total\<close> below shows that this does not happen.
\<close>

partial_function (option) expand_loop ::
  "role_catalog \<Rightarrow> RoleRecurseType \<Rightarrow> Oid \<Rightarrow> Oid \<Rightarrow> nat \<Rightarrow> Oid list \<Rightarrow> Oid \<Rightarrow> (Oid list \<times> Oid) option"
where
  "expand_loop cat type dba admin_of l roles_list admin_role =
     (if l < length roles_list then
        (let memberid = roles_list ! l;
             (roles_list1, admin_role1) =
               scan_grants type admin_of memberid (AUTHMEMMEMROLE cat memberid) (roles_list, admin_role);
             roles_list2 =
               (if memberid = dba \<and> OidIsValid dba
                then list_append_unique_oid roles_list1 ROLE_PG_DATABASE_OWNER else roles_list1)
         in expand_loop cat type dba admin_of (l + 1) roles_list2 admin_role1)
      else Some (roles_list, admin_role))"

declare expand_loop.simps [code]

definition database_dba :: "role_catalog \<Rightarrow> Oid pg_result" where
  "database_dba cat =
     (if \<not> OidIsValid (MyDatabaseId cat) then Inr InvalidOid
      else case map_of (pg_database cat) (MyDatabaseId cat) of
             None \<Rightarrow> elog_error ''cache lookup failed for database %u''
           | Some datdba \<Rightarrow> Inr datdba)"

text \<open>
  The whole routine without the cache test: the list and the value stored through
  \<^verbatim>\<open>admin_role\<close> (\<open>InvalidOid\<close> for \<open>admin_of\<close> means that no admin is sought).
\<close>

definition roles_is_member_of ::
  "role_catalog \<Rightarrow> Oid \<Rightarrow> RoleRecurseType \<Rightarrow> Oid \<Rightarrow> (Oid list \<times> Oid) pg_result" where
  "roles_is_member_of cat roleid type admin_of =
     rbind (database_dba cat)
       (\<lambda>dba. Inr (the (expand_loop cat type dba admin_of 0 [roleid] InvalidOid)))"

definition roles_is_member_of_cached ::
  "role_catalog \<Rightarrow> role_cache \<Rightarrow> Oid \<Rightarrow> RoleRecurseType \<Rightarrow> Oid \<Rightarrow>
   (role_cache \<times> Oid list \<times> Oid) pg_result" where
  "roles_is_member_of_cached cat cache roleid type admin_of =
     (if cached_role cache type = roleid \<and> \<not> OidIsValid admin_of \<and> OidIsValid (cached_role cache type)
      then Inr (cache, cached_roles cache type, InvalidOid)
      else rbind (roles_is_member_of cat roleid type admin_of)
             (\<lambda>(roles_list, admin_role).
                Inr (cache\<lparr>cached_role := (cached_role cache)(type := roleid),
                           cached_roles := (cached_roles cache)(type := roles_list)\<rparr>,
                     roles_list, admin_role)))"

datatype SysCacheIdentifier = AUTHMEMROLEMEM | AUTHOID | DATABASEOID

text \<open>
  \<open>hash\<close> stands for \<^verbatim>\<open>GetSysCacheHashValue1(DATABASEOID, oid)\<close> of the catalog cache. Registering the
  three callbacks is one flag.
\<close>

definition initialize_acl :: "(Oid \<Rightarrow> word32) \<Rightarrow> bool \<Rightarrow> role_catalog \<Rightarrow> role_cache \<Rightarrow> role_cache" where
  "initialize_acl hash bootstrap cat cache =
     (if \<not> bootstrap
      then cache\<lparr>cached_db_hash := hash (MyDatabaseId cat), membership_callbacks := True\<rparr>
      else cache)"

definition RoleMembershipCacheCallback ::
  "SysCacheIdentifier \<Rightarrow> word32 \<Rightarrow> role_cache \<Rightarrow> role_cache" where
  "RoleMembershipCacheCallback cacheid hashvalue cache =
     (if cacheid = DATABASEOID \<and> hashvalue \<noteq> cached_db_hash cache \<and> hashvalue \<noteq> 0 then cache
      else cache\<lparr>cached_role := (\<lambda>_. InvalidOid)\<rparr>)"

section \<open>Membership tests\<close>

definition has_privs_of_role :: "role_catalog \<Rightarrow> Oid \<Rightarrow> Oid \<Rightarrow> bool pg_result" where
  "has_privs_of_role cat member role =
     (if member = role then Inr True
      else if superuser_arg cat member then Inr True
      else rbind (roles_is_member_of cat member ROLERECURSE_PRIVS InvalidOid)
             (\<lambda>(l, _). Inr (role \<in> set l)))"

definition member_can_set_role :: "role_catalog \<Rightarrow> Oid \<Rightarrow> Oid \<Rightarrow> bool pg_result" where
  "member_can_set_role cat member role =
     (if member = role then Inr True
      else if superuser_arg cat member then Inr True
      else rbind (roles_is_member_of cat member ROLERECURSE_SETROLE InvalidOid)
             (\<lambda>(l, _). Inr (role \<in> set l)))"

text \<open>The name goes into the error message; looking it up fails for an unknown role.\<close>

definition GetUserNameFromId :: "role_catalog \<Rightarrow> Oid \<Rightarrow> string pg_result" where
  "GetUserNameFromId cat roleid =
     (case find (\<lambda>r. auth_oid r = roleid) (pg_authid cat) of
        None \<Rightarrow> ereport_error ''ERRCODE_UNDEFINED_OBJECT'' ''invalid role OID: %u''
      | Some tuple \<Rightarrow> Inr (rolname tuple))"

definition check_can_set_role :: "role_catalog \<Rightarrow> Oid \<Rightarrow> Oid \<Rightarrow> unit pg_result" where
  "check_can_set_role cat member role =
     rbind (member_can_set_role cat member role)
       (\<lambda>ok. if \<not> ok
              then rbind (GetUserNameFromId cat role)
                     (\<lambda>_. ereport_error ''ERRCODE_INSUFFICIENT_PRIVILEGE'' ''must be able to SET ROLE %s'')
              else Inr ())"

definition is_member_of_role :: "role_catalog \<Rightarrow> Oid \<Rightarrow> Oid \<Rightarrow> bool pg_result" where
  "is_member_of_role cat member role =
     (if member = role then Inr True
      else if superuser_arg cat member then Inr True
      else rbind (roles_is_member_of cat member ROLERECURSE_MEMBERS InvalidOid)
             (\<lambda>(l, _). Inr (role \<in> set l)))"

definition is_member_of_role_nosuper :: "role_catalog \<Rightarrow> Oid \<Rightarrow> Oid \<Rightarrow> bool pg_result" where
  "is_member_of_role_nosuper cat member role =
     (if member = role then Inr True
      else rbind (roles_is_member_of cat member ROLERECURSE_MEMBERS InvalidOid)
             (\<lambda>(l, _). Inr (role \<in> set l)))"

definition is_admin_of_role :: "role_catalog \<Rightarrow> Oid \<Rightarrow> Oid \<Rightarrow> bool pg_result" where
  "is_admin_of_role cat member role =
     (if superuser_arg cat member then Inr True
      else if member = role then Inr False
      else rbind (roles_is_member_of cat member ROLERECURSE_MEMBERS role)
             (\<lambda>(_, admin_role). Inr (OidIsValid admin_role)))"

definition select_best_admin :: "role_catalog \<Rightarrow> Oid \<Rightarrow> Oid \<Rightarrow> Oid pg_result" where
  "select_best_admin cat member role =
     (if member = role then Inr InvalidOid
      else rbind (roles_is_member_of cat member ROLERECURSE_PRIVS role)
             (\<lambda>(_, admin_role). Inr admin_role))"

section \<open>Role specifications\<close>

datatype RoleSpecType =
  ROLESPEC_CSTRING | ROLESPEC_CURRENT_ROLE | ROLESPEC_CURRENT_USER | ROLESPEC_SESSION_USER | ROLESPEC_PUBLIC

record RoleSpec =
  roletype :: RoleSpecType
  rolename :: string

definition AUTHNAME :: "role_catalog \<Rightarrow> string \<Rightarrow> pg_authid_row option" where
  "AUTHNAME cat name = find (\<lambda>r. rolname r = name) (pg_authid cat)"

definition get_role_oid :: "role_catalog \<Rightarrow> string \<Rightarrow> bool \<Rightarrow> Oid pg_result" where
  "get_role_oid cat name missing_ok =
     (let oid = (case AUTHNAME cat name of Some r \<Rightarrow> auth_oid r | None \<Rightarrow> InvalidOid)
      in if \<not> OidIsValid oid \<and> \<not> missing_ok
         then ereport_error ''ERRCODE_UNDEFINED_OBJECT'' ''role %s does not exist''
         else Inr oid)"

definition ACL_ID_PUBLIC :: Oid where "ACL_ID_PUBLIC = 0"

definition get_role_oid_or_public :: "role_catalog \<Rightarrow> string \<Rightarrow> Oid pg_result" where
  "get_role_oid_or_public cat name =
     (if name = ''public'' then Inr ACL_ID_PUBLIC else get_role_oid cat name False)"

definition get_rolespec_oid :: "role_catalog \<Rightarrow> RoleSpec \<Rightarrow> bool \<Rightarrow> Oid pg_result" where
  "get_rolespec_oid cat role missing_ok =
     (case roletype role of
        ROLESPEC_CSTRING \<Rightarrow> get_role_oid cat (rolename role) missing_ok
      | ROLESPEC_CURRENT_ROLE \<Rightarrow> Inr (CurrentUserId cat)
      | ROLESPEC_CURRENT_USER \<Rightarrow> Inr (CurrentUserId cat)
      | ROLESPEC_SESSION_USER \<Rightarrow> Inr (SessionUserId cat)
      | ROLESPEC_PUBLIC \<Rightarrow> ereport_error ''ERRCODE_UNDEFINED_OBJECT'' ''role %s does not exist'')"

definition get_rolespec_tuple :: "role_catalog \<Rightarrow> RoleSpec \<Rightarrow> pg_authid_row pg_result" where
  "get_rolespec_tuple cat role =
     (let by_oid = (\<lambda>oid. case find (\<lambda>r. auth_oid r = oid) (pg_authid cat) of
                        Some tuple \<Rightarrow> Inr tuple
                      | None \<Rightarrow> elog_error ''cache lookup failed for role %u'')
      in case roletype role of
           ROLESPEC_CSTRING \<Rightarrow>
             (case AUTHNAME cat (rolename role) of
                Some tuple \<Rightarrow> Inr tuple
              | None \<Rightarrow> ereport_error ''ERRCODE_UNDEFINED_OBJECT'' ''role %s does not exist'')
         | ROLESPEC_CURRENT_ROLE \<Rightarrow> by_oid (CurrentUserId cat)
         | ROLESPEC_CURRENT_USER \<Rightarrow> by_oid (CurrentUserId cat)
         | ROLESPEC_SESSION_USER \<Rightarrow> by_oid (SessionUserId cat)
         | ROLESPEC_PUBLIC \<Rightarrow> ereport_error ''ERRCODE_UNDEFINED_OBJECT'' ''role %s does not exist'')"

definition get_rolespec_name :: "role_catalog \<Rightarrow> RoleSpec \<Rightarrow> string pg_result" where
  "get_rolespec_name cat role =
     rbind (get_rolespec_tuple cat role) (\<lambda>tp. Inr (rolname tp))"

text \<open>Names that begin with \<^verbatim>\<open>pg_\<close>.\<close>

definition IsReservedName :: "string \<Rightarrow> bool" where
  "IsReservedName name = (take 3 name = ''pg_'')"

definition check_rolespec_name :: "RoleSpec option \<Rightarrow> unit pg_result" where
  "check_rolespec_name role =
     (case role of
        None \<Rightarrow> Inr ()
      | Some spec \<Rightarrow>
          if roletype spec \<noteq> ROLESPEC_CSTRING then Inr ()
          else if IsReservedName (rolename spec)
          then ereport_error ''ERRCODE_RESERVED_NAME'' ''role name %s is reserved''
          else Inr ())"

section \<open>A session with catalog changes\<close>

text \<open>Invalidation of one catalog runs the callbacks registered for it.\<close>

definition invalidate :: "SysCacheIdentifier \<Rightarrow> word32 \<Rightarrow> role_cache \<Rightarrow> role_cache" where
  "invalidate cacheid hashvalue cache =
     (let cache1 = (if membership_callbacks cache
                    then RoleMembershipCacheCallback cacheid hashvalue cache else cache)
      in if cacheid = AUTHOID \<and> roleid_callback_registered cache1 then RoleidCallback cache1 else cache1)"

text \<open>
  What can happen between two membership questions of a backend: it asks one (and caches the
  answer), or a change of one of the three catalogs becomes visible together with its
  invalidation message. A change of \<^verbatim>\<open>pg_database\<close> concerns the row of one database.
\<close>

inductive session_step ::
  "(Oid \<Rightarrow> word32) \<Rightarrow> role_catalog \<times> role_cache \<Rightarrow> role_catalog \<times> role_cache \<Rightarrow> bool"
  for hash where
  ask_roles: "roles_is_member_of_cached cat cache roleid type admin_of = Inr (cache', l, adm) \<Longrightarrow>
    session_step hash (cat, cache) (cat, cache')"
| ask_super: "superuser_arg_cached cat cache roleid = (cache', b) \<Longrightarrow>
    session_step hash (cat, cache) (cat, cache')"
| change_members: "session_step hash (cat, cache)
    (cat\<lparr>pg_auth_members := rows\<rparr>, invalidate AUTHMEMROLEMEM h cache)"
| change_authid: "session_step hash (cat, cache) (cat\<lparr>pg_authid := rows\<rparr>, invalidate AUTHOID h cache)"
| change_database: "(\<And>d'. d' \<noteq> d \<Longrightarrow> map_of rows d' = map_of (pg_database cat) d') \<Longrightarrow>
    session_step hash (cat, cache) (cat\<lparr>pg_database := rows\<rparr>, invalidate DATABASEOID (hash d) cache)"

inductive session_reachable ::
  "(Oid \<Rightarrow> word32) \<Rightarrow> role_catalog \<times> role_cache \<Rightarrow> role_catalog \<times> role_cache \<Rightarrow> bool"
  for hash init where
  start: "session_reachable hash init init"
| step: "session_reachable hash init s \<Longrightarrow> session_step hash s s' \<Longrightarrow> session_reachable hash init s'"

section \<open>What the search computes\<close>

text \<open>The direct memberships of a role, in the order in which the search meets them.\<close>

definition role_succs :: "role_catalog \<Rightarrow> RoleRecurseType \<Rightarrow> Oid \<Rightarrow> Oid \<Rightarrow> Oid list" where
  "role_succs cat type dba m =
     map am_roleid (filter (follows_grant type) (AUTHMEMMEMROLE cat m)) @
     (if m = dba \<and> OidIsValid dba then [ROLE_PG_DATABASE_OWNER] else [])"

definition holds_admin :: "role_catalog \<Rightarrow> Oid \<Rightarrow> Oid \<Rightarrow> bool" where
  "holds_admin cat admin_of m \<longleftrightarrow> OidIsValid admin_of \<and>
     (\<exists>form \<in> set (pg_auth_members cat). am_member form = m \<and> am_roleid form = admin_of \<and> admin_option form)"

definition note_admin :: "role_catalog \<Rightarrow> Oid \<Rightarrow> Oid \<Rightarrow> Oid \<Rightarrow> Oid" where
  "note_admin cat admin_of m adm =
     (if \<not> OidIsValid adm \<and> holds_admin cat admin_of m then m else adm)"

definition first_admin :: "role_catalog \<Rightarrow> Oid \<Rightarrow> Oid list \<Rightarrow> Oid" where
  "first_admin cat admin_of l =
     (case find (\<lambda>m. OidIsValid m \<and> holds_admin cat admin_of m) l of Some m \<Rightarrow> m | None \<Rightarrow> InvalidOid)"

definition cache_ok :: "role_catalog \<Rightarrow> role_cache \<Rightarrow> bool" where
  "cache_ok cat cache \<longleftrightarrow>
     (\<forall>t. OidIsValid (cached_role cache t) \<longrightarrow>
        (\<exists>adm. roles_is_member_of cat (cached_role cache t) t InvalidOid = Inr (cached_roles cache t, adm))) \<and>
     (OidIsValid (last_roleid cache) \<longrightarrow>
        roleid_callback_registered cache \<and>
        last_roleid_is_super cache = superuser_arg cat (last_roleid cache))"

definition session_inv :: "(Oid \<Rightarrow> word32) \<Rightarrow> role_catalog \<times> role_cache \<Rightarrow> bool" where
  "session_inv hash = (\<lambda>(cat, cache). cache_ok cat cache \<and> membership_callbacks cache \<and>
     cached_db_hash cache = hash (MyDatabaseId cat))"

text \<open>A small catalog for concrete instances.\<close>

definition example_catalog :: role_catalog where
  "example_catalog =
     \<lparr>pg_authid = [\<lparr>auth_oid = 10, rolname = ''postgres'', rolsuper = True, rolinherit = True, rolcreaterole = False, rolbypassrls = False\<rparr>,
                   \<lparr>auth_oid = 101, rolname = ''alice'', rolsuper = False, rolinherit = True, rolcreaterole = False, rolbypassrls = False\<rparr>,
                   \<lparr>auth_oid = 102, rolname = ''staff'', rolsuper = False, rolinherit = True, rolcreaterole = False, rolbypassrls = False\<rparr>],
      pg_auth_members = [\<lparr>am_roleid = 102, am_member = 101, admin_option = True,
                          inherit_option = True, set_option = False, am_grantor = 10\<rparr>],
      pg_database = [(5, 102)], MyDatabaseId = 5, IsUnderPostmaster = True,
      CurrentUserId = 101, SessionUserId = 101\<rparr>"

section \<open>The search\<close>

lemma scan_grants_eq:
  "scan_grants type admin_of m memlist (l, adm) =
     (append_uniques l (map am_roleid (filter (follows_grant type) memlist)),
      if \<not> OidIsValid adm \<and> OidIsValid admin_of \<and>
         (\<exists>form \<in> set memlist. am_roleid form = admin_of \<and> admin_option form) then m else adm)"
proof (induction memlist arbitrary: l adm)
  case (Cons form memlist)
  show ?case
  proof (cases "am_roleid form = admin_of \<and> admin_option form \<and> OidIsValid admin_of \<and> \<not> OidIsValid adm")
    case True
    then show ?thesis by (simp add: Cons.IH Let_def list_append_unique_oid_def)
  next
    case False
    then show ?thesis by (simp add: Cons.IH Let_def list_append_unique_oid_def) blast
  qed
qed simp

lemma append_uniques_append: "append_uniques l (xs @ ys) = append_uniques (append_uniques l xs) ys"
  by (induction xs arbitrary: l) auto

lemma finite_reachable_roles: "finite (reachable succs (r :: Oid))"
  by (rule finite_subset [OF subset_UNIV finite])

interpretation membership: breadth_first "role_succs cat type dba" root "note_admin cat admin_of"
  "expand_loop cat type dba admin_of" for cat type dba root admin_of
proof
  show "finite (reachable (role_succs cat type dba) root)" by (rule finite_reachable_roles)
next
  fix i l s
  have *: "(\<exists>form \<in> set (AUTHMEMMEMROLE cat m). am_roleid form = admin_of \<and> admin_option form) \<and>
      OidIsValid admin_of \<longleftrightarrow> holds_admin cat admin_of m" for m
    by (auto simp: AUTHMEMMEMROLE_def holds_admin_def)
  show "expand_loop cat type dba admin_of i l s =
      (if i < length l
       then expand_loop cat type dba admin_of (i + 1) (append_uniques l (role_succs cat type dba (l ! i)))
              (note_admin cat admin_of (l ! i) s)
       else Some (l, s))"
    by (subst expand_loop.simps)
      (simp add: scan_grants_eq Let_def role_succs_def append_uniques_append note_admin_def
        list_append_unique_oid_def * [symmetric] conj_commute)
qed

lemma fold_note_admin: "fold (note_admin cat admin_of) l adm =
    (if OidIsValid adm then adm else first_admin cat admin_of l)"
proof (induction l arbitrary: adm)
  case (Cons m l)
  then show ?case by (auto simp: first_admin_def note_admin_def OidIsValid_def)
qed (simp add: first_admin_def OidIsValid_def)

lemma expand_loop_total:
  "\<exists>l. expand_loop cat type dba admin_of 0 [root] InvalidOid = Some (l, first_admin cat admin_of l) \<and>
     distinct l \<and> l \<noteq> [] \<and> hd l = root \<and> set l = reachable (role_succs cat type dba) root \<and>
     sorted (map (hops (role_succs cat type dba) root) l)"
  using membership.search_result [of cat type dba admin_of root InvalidOid]
  by (simp add: fold_note_admin OidIsValid_def)

lemma roles_is_member_of_cases:
  "(\<exists>e. database_dba cat = Inl e \<and> roles_is_member_of cat r type a = Inl e) \<or>
   (\<exists>dba l. database_dba cat = Inr dba \<and>
      roles_is_member_of cat r type a = Inr (l, first_admin cat a l) \<and>
      distinct l \<and> l \<noteq> [] \<and> hd l = r \<and> set l = reachable (role_succs cat type dba) r \<and>
      sorted (map (hops (role_succs cat type dba) r) l))"
proof (cases "database_dba cat")
  case (Inr dba)
  then show ?thesis
    using expand_loop_total [of cat type dba a r] by (auto simp: roles_is_member_of_def)
qed (simp add: roles_is_member_of_def)

text \<open>The list does not depend on the admin that is sought with it.\<close>

lemma roles_list_unique:
  assumes "roles_is_member_of cat r type a = Inr (l, adm)"
  shows "roles_is_member_of cat r type b = Inr (l, first_admin cat b l)"
proof -
  from assms roles_is_member_of_cases [of cat r type b] obtain dba l' where
    dba: "database_dba cat = Inr dba" and b: "roles_is_member_of cat r type b = Inr (l', first_admin cat b l')"
    by (auto simp: roles_is_member_of_def result_iff)
  have "map_option fst (expand_loop cat type dba a 0 [r] InvalidOid) =
      map_option fst (expand_loop cat type dba b 0 [r] InvalidOid)"
    by (rule membership.list_unique) (rule membership.breadth_first_axioms, rule search_inv_start)
  with assms b dba expand_loop_total [of cat type dba a r] expand_loop_total [of cat type dba b r]
  have "l' = l" by (auto simp: roles_is_member_of_def)
  with b show ?thesis by simp
qed

section \<open>The caches are transparent\<close>

lemma superuser_arg_cached_ok:
  assumes "cache_ok cat cache" and "superuser_arg_cached cat cache roleid = (cache', b)"
  shows "b = superuser_arg cat roleid \<and> cache_ok cat cache'"
proof -
  consider (hit) "OidIsValid (last_roleid cache)" "last_roleid cache = roleid"
    | (escape) "\<not> (OidIsValid (last_roleid cache) \<and> last_roleid cache = roleid)"
        "\<not> IsUnderPostmaster cat \<and> roleid = BOOTSTRAP_SUPERUSERID"
    | (lookup) "\<not> (OidIsValid (last_roleid cache) \<and> last_roleid cache = roleid)"
        "\<not> (\<not> IsUnderPostmaster cat \<and> roleid = BOOTSTRAP_SUPERUSERID)" by blast
  then show ?thesis
  proof cases
    case hit
    then show ?thesis using assms by (simp add: superuser_arg_cached_def cache_ok_def)
  next
    case escape
    then have "superuser_arg_cached cat cache roleid = (cache, True)"
      by (auto simp: superuser_arg_cached_def)
    then show ?thesis using assms escape(2) by (simp add: superuser_arg_def)
  next
    case lookup
    then have run: "cache' = cache\<lparr>roleid_callback_registered := True, last_roleid := roleid,
        last_roleid_is_super := superuser_lookup cat roleid\<rparr>" "b = superuser_lookup cat roleid"
      using assms(2) by (auto simp: superuser_arg_cached_def Let_def split: if_splits)
    have "superuser_arg cat roleid = superuser_lookup cat roleid"
      using lookup(2) by (auto simp: superuser_arg_def)
    then show ?thesis using assms(1) by (simp add: run cache_ok_def)
  qed
qed

lemma roles_is_member_of_cached_ok:
  assumes ok: "cache_ok cat cache"
  shows "case roles_is_member_of cat roleid type admin_of of
      Inl e \<Rightarrow> roles_is_member_of_cached cat cache roleid type admin_of = Inl e
    | Inr (l, adm) \<Rightarrow> \<exists>cache'. roles_is_member_of_cached cat cache roleid type admin_of = Inr (cache', l, adm) \<and>
        cache_ok cat cache'"
proof (cases "cached_role cache type = roleid \<and> \<not> OidIsValid admin_of \<and> OidIsValid (cached_role cache type)")
  case True
  then have [simp]: "admin_of = InvalidOid" by (simp add: OidIsValid_def)
  from True ok obtain adm where
    fresh: "roles_is_member_of cat roleid type InvalidOid = Inr (cached_roles cache type, adm)"
    by (auto simp: cache_ok_def)
  have "find (\<lambda>m. OidIsValid m \<and> holds_admin cat InvalidOid m) l = None" for l
    by (simp only: find_None_iff) (simp add: holds_admin_def OidIsValid_def)
  then have "first_admin cat InvalidOid l = InvalidOid" for l
    by (simp add: first_admin_def)
  with roles_list_unique [OF fresh, of InvalidOid] fresh have "adm = InvalidOid" by simp
  moreover have "roles_is_member_of_cached cat cache roleid type admin_of =
      Inr (cache, cached_roles cache type, InvalidOid)"
    unfolding roles_is_member_of_cached_def using True by (rule if_P)
  ultimately show ?thesis using fresh ok by simp
next
  case False
  then have run: "roles_is_member_of_cached cat cache roleid type admin_of =
      rbind (roles_is_member_of cat roleid type admin_of)
             (\<lambda>(roles_list, admin_role).
                Inr (cache\<lparr>cached_role := (cached_role cache)(type := roleid),
                           cached_roles := (cached_roles cache)(type := roles_list)\<rparr>,
                     roles_list, admin_role))"
    unfolding roles_is_member_of_cached_def by (rule if_not_P)
  show ?thesis
  proof (cases "roles_is_member_of cat roleid type admin_of")
    case (Inl e)
    then show ?thesis by (simp add: run)
  next
    case (Inr res)
    obtain l adm where res: "res = (l, adm)" by (cases res)
    from roles_list_unique [OF Inr [unfolded res], of InvalidOid] ok
    show ?thesis by (auto simp: run Inr res cache_ok_def)
  qed
qed

lemma roles_is_member_of_cong:
  assumes "database_dba cat' = database_dba cat" and "pg_auth_members cat' = pg_auth_members cat"
  shows "roles_is_member_of cat' r type a = roles_is_member_of cat r type a"
proof (cases "database_dba cat")
  case (Inr dba)
  have "role_succs cat' type dba = role_succs cat type dba"
    using assms(2) by (simp add: role_succs_def AUTHMEMMEMROLE_def fun_eq_iff)
  then have "breadth_first (role_succs cat type dba) r (note_admin cat' a) (expand_loop cat' type dba a)"
    using membership.breadth_first_axioms [of cat' type dba r a] by simp
  from membership.list_unique [OF this search_inv_start, of a InvalidOid InvalidOid]
  have "map_option fst (expand_loop cat type dba a 0 [r] InvalidOid) =
      map_option fst (expand_loop cat' type dba a 0 [r] InvalidOid)" .
  moreover have "first_admin cat' a l = first_admin cat a l" for l
    using assms(2) by (simp add: first_admin_def holds_admin_def)
  moreover obtain l where "expand_loop cat type dba a 0 [r] InvalidOid = Some (l, first_admin cat a l)"
    using expand_loop_total by blast
  moreover obtain l' where "expand_loop cat' type dba a 0 [r] InvalidOid = Some (l', first_admin cat' a l')"
    using expand_loop_total by blast
  ultimately show ?thesis using Inr assms(1) by (simp add: roles_is_member_of_def)
qed (simp add: roles_is_member_of_def assms(1))

lemma cache_ok_invalidated:
  assumes "membership_callbacks cache" and "cache_ok cat cache"
  shows "cache_ok (cat\<lparr>pg_auth_members := rows\<rparr>) (invalidate AUTHMEMROLEMEM h cache)"
    and "cache_ok (cat\<lparr>pg_authid := rows'\<rparr>) (invalidate AUTHOID h cache)"
  using assms
  by (auto simp: invalidate_def RoleMembershipCacheCallback_def RoleidCallback_def cache_ok_def
      OidIsValid_def superuser_arg_def superuser_lookup_def Let_def)

lemma cache_ok_database:
  assumes reg: "membership_callbacks cache" "cached_db_hash cache = hash (MyDatabaseId cat)"
    and ok: "cache_ok cat cache"
    and rows: "\<And>d'. d' \<noteq> d \<Longrightarrow> map_of rows d' = map_of (pg_database cat) d'"
  shows "cache_ok (cat\<lparr>pg_database := rows\<rparr>) (invalidate DATABASEOID (hash d) cache)"
proof (cases "hash d \<noteq> cached_db_hash cache \<and> hash d \<noteq> 0")
  case True
  then have "d \<noteq> MyDatabaseId cat" using reg by auto
  then have "database_dba (cat\<lparr>pg_database := rows\<rparr>) = database_dba cat"
    using rows [of "MyDatabaseId cat"] by (simp add: database_dba_def)
  note same = roles_is_member_of_cong [OF this]
  with True reg ok show ?thesis
    by (simp add: invalidate_def RoleMembershipCacheCallback_def cache_ok_def
        superuser_arg_def superuser_lookup_def)
next
  case False
  with reg ok show ?thesis
    by (auto simp: invalidate_def RoleMembershipCacheCallback_def cache_ok_def OidIsValid_def
      superuser_arg_def superuser_lookup_def)
qed

section \<open>Sessions\<close>

lemma cached_call_keeps:
  "roles_is_member_of_cached cat cache r t a = Inr (cache', l, adm) \<Longrightarrow>
     membership_callbacks cache' = membership_callbacks cache \<and> cached_db_hash cache' = cached_db_hash cache"
  "superuser_arg_cached cat cache r = (cache', b) \<Longrightarrow>
     membership_callbacks cache' = membership_callbacks cache \<and> cached_db_hash cache' = cached_db_hash cache"
  by (auto simp: roles_is_member_of_cached_def superuser_arg_cached_def Let_def result_iff split: if_splits)

lemma invalidate_keeps [simp]:
  "membership_callbacks (invalidate c h cache) = membership_callbacks cache"
  "cached_db_hash (invalidate c h cache) = cached_db_hash cache"
  by (auto simp: invalidate_def RoleMembershipCacheCallback_def RoleidCallback_def Let_def)

lemma session_inv_step:
  assumes "session_step hash s s'" and "session_inv hash s"
  shows "session_inv hash s'"
  using assms
proof cases
  case (ask_roles cat cache roleid type admin_of cache' l adm)
  with assms(2) cached_call_keeps(1) [OF ask_roles(3)]
    roles_is_member_of_cached_ok [of cat cache roleid type admin_of]
  show ?thesis by (auto simp: session_inv_def split: sum.splits)
next
  case (ask_super cat cache roleid cache' b)
  with assms(2) cached_call_keeps(2) [OF ask_super(3)] superuser_arg_cached_ok [OF _ ask_super(3)]
  show ?thesis by (simp add: session_inv_def)
next
  case (change_members cat cache rows h)
  with assms(2) show ?thesis by (simp add: session_inv_def cache_ok_invalidated)
next
  case (change_authid cat cache rows h)
  with assms(2) show ?thesis by (simp add: session_inv_def cache_ok_invalidated)
next
  case (change_database d rows cat cache)
  with assms(2) show ?thesis by (auto simp: session_inv_def intro: cache_ok_database)
qed

lemma session_inv_reachable:
  "session_reachable hash init s \<Longrightarrow> session_inv hash init \<Longrightarrow> session_inv hash s"
  by (induction rule: session_reachable.induct) (auto intro: session_inv_step)

lemma session_inv_init: "session_inv hash (cat, initialize_acl hash False cat initial_cache)"
  by (simp add: session_inv_def initialize_acl_def initial_cache_def cache_ok_def OidIsValid_def)

section \<open>The nearest admin\<close>

lemma first_admin_spec:
  assumes "sorted (map f l)"
  shows "(first_admin cat a l = InvalidOid \<and> (\<forall>m \<in> set l. OidIsValid m \<longrightarrow> \<not> holds_admin cat a m)) \<or>
    (first_admin cat a l \<in> set l \<and> OidIsValid (first_admin cat a l) \<and> holds_admin cat a (first_admin cat a l) \<and>
     (\<forall>m \<in> set l. OidIsValid m \<and> holds_admin cat a m \<longrightarrow> f (first_admin cat a l) \<le> f m))"
  using assms
proof (induction l)
  case (Cons x l)
  show ?case
  proof (cases "OidIsValid x \<and> holds_admin cat a x")
    case True
    then have "first_admin cat a (x # l) = x" by (simp add: first_admin_def)
    then show ?thesis using True Cons.prems by auto
  next
    case False
    then have "first_admin cat a (x # l) = first_admin cat a l" by (auto simp: first_admin_def)
    then show ?thesis using False Cons by auto
  qed
qed (simp add: first_admin_def)

lemma membership_test:
  assumes "database_dba cat = Inr dba"
  shows "\<exists>l adm. roles_is_member_of cat r type a = Inr (l, adm) \<and>
    set l = reachable (role_succs cat type dba) r"
  using roles_is_member_of_cases [of cat r type a] assms by auto

section \<open>Properties\<close>

text \<open>
  C17. The membership search always returns. Its list starts with the role itself, has every role
  reachable through the admissible grants exactly once (with the implicit membership of the
  database owner in \<^verbatim>\<open>pg_database_owner\<close>), and is in breadth-first order; the role stored through
  \<^verbatim>\<open>admin_role\<close> is the first of the list that directly holds the admin option.
\<close>

theorem roles_is_member_of_spec:
  assumes "database_dba cat = Inr dba"
  shows "\<exists>l. expand_loop cat type dba admin_of 0 [roleid] InvalidOid = Some (l, first_admin cat admin_of l) \<and>
    roles_is_member_of cat roleid type admin_of = Inr (l, first_admin cat admin_of l) \<and>
    hd l = roleid \<and> distinct l \<and> set l = reachable (role_succs cat type dba) roleid \<and>
    sorted (map (hops (role_succs cat type dba) roleid) l)"
  using expand_loop_total [of cat type dba admin_of roleid] assms
  by (auto simp: roles_is_member_of_def)

theorem roles_is_member_of_spec_witness:
  "database_dba example_catalog = Inr 102 \<and>
   (\<exists>l. expand_loop example_catalog ROLERECURSE_PRIVS 102 0 0 [101] InvalidOid =
          Some (l, first_admin example_catalog 0 l) \<and> hd l = 101 \<and>
        set l = reachable (role_succs example_catalog ROLERECURSE_PRIVS 102) 101)"
proof -
  have "database_dba example_catalog = Inr 102"
    by (simp add: database_dba_def example_catalog_def OidIsValid_def)
  with roles_is_member_of_spec [OF this, of ROLERECURSE_PRIVS 0 101] show ?thesis by blast
qed

text \<open>
  A role has the privileges of another, may SET ROLE to it, or is a member of it exactly when
  the two are equal, the first is a superuser, or there is a chain of grants of the required kind
  (inheritable, with SET option, any) from the first to the second.
\<close>

theorem membership_tests_spec:
  assumes "database_dba cat = Inr dba"
  shows "has_privs_of_role cat member role = Inr (member = role \<or> superuser_arg cat member \<or>
      role \<in> reachable (role_succs cat ROLERECURSE_PRIVS dba) member) \<and>
    member_can_set_role cat member role = Inr (member = role \<or> superuser_arg cat member \<or>
      role \<in> reachable (role_succs cat ROLERECURSE_SETROLE dba) member) \<and>
    is_member_of_role cat member role = Inr (member = role \<or> superuser_arg cat member \<or>
      role \<in> reachable (role_succs cat ROLERECURSE_MEMBERS dba) member) \<and>
    is_member_of_role_nosuper cat member role =
      Inr (role \<in> reachable (role_succs cat ROLERECURSE_MEMBERS dba) member)"
proof -
  note * = membership_test [OF assms, of member _ InvalidOid]
  show ?thesis
    using * [of ROLERECURSE_PRIVS] * [of ROLERECURSE_SETROLE] * [of ROLERECURSE_MEMBERS]
    by (auto simp: has_privs_of_role_def member_can_set_role_def is_member_of_role_def
        is_member_of_role_nosuper_def)
qed

theorem membership_tests_spec_witness:
  "database_dba example_catalog = Inr 102 \<and>
   has_privs_of_role example_catalog 101 102 = Inr (101 = (102 :: Oid) \<or> superuser_arg example_catalog 101 \<or>
     102 \<in> reachable (role_succs example_catalog ROLERECURSE_PRIVS 102) 101)"
proof -
  have "database_dba example_catalog = Inr 102"
    by (simp add: database_dba_def example_catalog_def OidIsValid_def)
  with membership_tests_spec [OF this, of 101 102] show ?thesis by blast
qed

text \<open>
  C37. Caching never changes an answer: in every state of a session that began with
  \<^verbatim>\<open>initialize_acl\<close>, after any sequence of questions and catalog changes with their invalidation
  messages, the cached membership search and the cached superuser test return what the uncached
  computation returns on the present catalogs.
\<close>

theorem role_caches_transparent:
  assumes "session_reachable hash (cat0, initialize_acl hash False cat0 initial_cache) (cat, cache)"
  shows "(case roles_is_member_of_cached cat cache roleid type admin_of of
        Inl e \<Rightarrow> Inl e | Inr (_, res) \<Rightarrow> Inr res) = roles_is_member_of cat roleid type admin_of \<and>
    snd (superuser_arg_cached cat cache roleid) = superuser_arg cat roleid"
proof -
  have ok: "cache_ok cat cache"
    using session_inv_reachable [OF assms session_inv_init] by (simp add: session_inv_def)
  from roles_is_member_of_cached_ok [OF ok, of roleid type admin_of]
  have "(case roles_is_member_of_cached cat cache roleid type admin_of of
        Inl e \<Rightarrow> Inl e | Inr (_, res) \<Rightarrow> Inr res) = roles_is_member_of cat roleid type admin_of"
    by (auto split: sum.splits)
  then show ?thesis using superuser_arg_cached_ok [OF ok] by (metis prod.collapse)
qed

theorem role_caches_transparent_witness:
  "session_reachable (\<lambda>d. d) (example_catalog, initialize_acl (\<lambda>d. d) False example_catalog initial_cache)
     (example_catalog\<lparr>pg_authid := []\<rparr>,
      invalidate AUTHOID 0
        (fst (superuser_arg_cached example_catalog
                (initialize_acl (\<lambda>d. d) False example_catalog initial_cache) 10))) \<and>
   snd (superuser_arg_cached (example_catalog\<lparr>pg_authid := []\<rparr>)
     (invalidate AUTHOID 0
        (fst (superuser_arg_cached example_catalog
                (initialize_acl (\<lambda>d. d) False example_catalog initial_cache) 10))) 10) =
   superuser_arg (example_catalog\<lparr>pg_authid := []\<rparr>) 10"
  (is "session_reachable ?h (?cat, ?c0) (?cat', ?c2) \<and> _")
proof -
  obtain c1 b where c1: "superuser_arg_cached ?cat ?c0 10 = (c1, b)" by fastforce
  have "session_reachable ?h (?cat, ?c0) (?cat, c1)"
    by (rule session_reachable.step [OF session_reachable.start session_step.ask_super [OF c1]])
  then have r: "session_reachable ?h (?cat, ?c0) (?cat', ?c2)"
    using session_reachable.step session_step.change_authid c1 by (metis fst_conv)
  with role_caches_transparent [OF r, of 10] show ?thesis by blast
qed

text \<open>
  \<^verbatim>\<open>is_admin_of_role\<close> answers true exactly for superusers and for roles other than the target
  from which some valid role holding ADMIN OPTION on the target can be reached, and
  \<^verbatim>\<open>select_best_admin\<close> returns such a role at the smallest distance along inheritable grants, or
  the invalid OID when there is none.
\<close>

theorem admin_tests_spec:
  assumes "database_dba cat = Inr dba" and "member \<noteq> role"
  shows "is_admin_of_role cat member role = Inr (superuser_arg cat member \<or>
      (\<exists>m \<in> reachable (role_succs cat ROLERECURSE_MEMBERS dba) member. OidIsValid m \<and> holds_admin cat role m)) \<and>
    (\<exists>best. select_best_admin cat member role = Inr best \<and>
      (let S = {m \<in> reachable (role_succs cat ROLERECURSE_PRIVS dba) member. OidIsValid m \<and> holds_admin cat role m}
       in if S = {} then best = InvalidOid
          else best \<in> S \<and> (\<forall>m \<in> S. hops (role_succs cat ROLERECURSE_PRIVS dba) member best \<le>
                                   hops (role_succs cat ROLERECURSE_PRIVS dba) member m)))"
proof -
  from roles_is_member_of_cases [of cat member ROLERECURSE_MEMBERS role] assms obtain l where
    l: "roles_is_member_of cat member ROLERECURSE_MEMBERS role = Inr (l, first_admin cat role l)"
      "set l = reachable (role_succs cat ROLERECURSE_MEMBERS dba) member"
      "sorted (map (hops (role_succs cat ROLERECURSE_MEMBERS dba) member) l)" by auto
  from roles_is_member_of_cases [of cat member ROLERECURSE_PRIVS role] assms obtain k where
    k: "roles_is_member_of cat member ROLERECURSE_PRIVS role = Inr (k, first_admin cat role k)"
      "set k = reachable (role_succs cat ROLERECURSE_PRIVS dba) member"
      "sorted (map (hops (role_succs cat ROLERECURSE_PRIVS dba) member) k)" by auto
  have "is_admin_of_role cat member role = Inr (superuser_arg cat member \<or>
      (\<exists>m \<in> reachable (role_succs cat ROLERECURSE_MEMBERS dba) member. OidIsValid m \<and> holds_admin cat role m))"
    using first_admin_spec [OF l(3), of cat role] assms(2)
    by (auto simp: is_admin_of_role_def l(1,2) OidIsValid_def)
  moreover have "select_best_admin cat member role = Inr (first_admin cat role k)"
    using assms(2) by (simp add: select_best_admin_def k(1))
  ultimately show ?thesis
    using first_admin_spec [OF k(3), of cat role] unfolding k(2) Let_def by (auto simp: OidIsValid_def)
qed

theorem admin_tests_spec_witness:
  "database_dba example_catalog = Inr 102 \<and> (101 :: Oid) \<noteq> 102 \<and>
   is_admin_of_role example_catalog 101 102 = Inr (superuser_arg example_catalog 101 \<or>
      (\<exists>m \<in> reachable (role_succs example_catalog ROLERECURSE_MEMBERS 102) 101.
         OidIsValid m \<and> holds_admin example_catalog 102 m))"
proof -
  have "database_dba example_catalog = Inr 102"
    by (simp add: database_dba_def example_catalog_def OidIsValid_def)
  with admin_tests_spec [OF this, of 101 102] show ?thesis by simp
qed

end
