(* ===== verification/Acl.thy ===== *)
theory Acl
  imports Roles "HOL-Library.Multiset"
begin

unbundle bit_operations_syntax

text \<open>
  Access control lists: the data of \<^verbatim>\<open>src/postgres/src/include/utils/acl.h\<close> and the routines of
  \<^verbatim>\<open>src/postgres/src/backend/utils/adt/acl.c\<close> that read a list without changing it: \<^verbatim>\<open>aclmask\<close>,
  \<^verbatim>\<open>aclmask_direct\<close>, \<^verbatim>\<open>acldefault\<close>, \<^verbatim>\<open>aclmembers\<close>, sorting and comparison, and \<^verbatim>\<open>select_best_grantor\<close>.
  The routines that change a list are in \<open>AclUpdate\<close>.

  \<open>AclMode\<close> is the 64-bit word of the source, privileges in the lower and grant options in the upper
  half. An \<open>Acl\<close> is an array header (what \<^verbatim>\<open>check_acl\<close> tests) and the items. Comparing items the way
  \<^verbatim>\<open>aclitemComparator\<close> does is a linear order, so items are an instance of \<open>linorder\<close> and
  \<^verbatim>\<open>qsort\<close> with that comparator is the library's \<open>sort\<close>.
\<close>

section \<open>Privilege bits\<close>

type_synonym AclMode = word64

definition ACL_INSERT :: AclMode where "ACL_INSERT = 1"
definition ACL_SELECT :: AclMode where "ACL_SELECT = 2"
definition ACL_UPDATE :: AclMode where "ACL_UPDATE = 4"
definition ACL_DELETE :: AclMode where "ACL_DELETE = 8"
definition ACL_TRUNCATE :: AclMode where "ACL_TRUNCATE = 16"
definition ACL_REFERENCES :: AclMode where "ACL_REFERENCES = 32"
definition ACL_TRIGGER :: AclMode where "ACL_TRIGGER = 64"
definition ACL_EXECUTE :: AclMode where "ACL_EXECUTE = 128"
definition ACL_USAGE :: AclMode where "ACL_USAGE = 256"
definition ACL_CREATE :: AclMode where "ACL_CREATE = 512"
definition ACL_CREATE_TEMP :: AclMode where "ACL_CREATE_TEMP = 1024"
definition ACL_CONNECT :: AclMode where "ACL_CONNECT = 2048"
definition ACL_SET :: AclMode where "ACL_SET = 4096"
definition ACL_ALTER_SYSTEM :: AclMode where "ACL_ALTER_SYSTEM = 8192"
definition ACL_NO_RIGHTS :: AclMode where "ACL_NO_RIGHTS = 0"

lemmas acl_bit_defs =
  ACL_INSERT_def ACL_SELECT_def ACL_UPDATE_def ACL_DELETE_def ACL_TRUNCATE_def ACL_REFERENCES_def
  ACL_TRIGGER_def ACL_EXECUTE_def ACL_USAGE_def ACL_CREATE_def ACL_CREATE_TEMP_def ACL_CONNECT_def
  ACL_SET_def ACL_ALTER_SYSTEM_def ACL_NO_RIGHTS_def

definition ACL_ALL_RIGHTS_COLUMN :: AclMode where
  "ACL_ALL_RIGHTS_COLUMN = ACL_INSERT OR ACL_SELECT OR ACL_UPDATE OR ACL_REFERENCES"
definition ACL_ALL_RIGHTS_RELATION :: AclMode where
  "ACL_ALL_RIGHTS_RELATION = ACL_INSERT OR ACL_SELECT OR ACL_UPDATE OR ACL_DELETE OR ACL_TRUNCATE OR
     ACL_REFERENCES OR ACL_TRIGGER"
definition ACL_ALL_RIGHTS_SEQUENCE :: AclMode where
  "ACL_ALL_RIGHTS_SEQUENCE = ACL_USAGE OR ACL_SELECT OR ACL_UPDATE"
definition ACL_ALL_RIGHTS_DATABASE :: AclMode where
  "ACL_ALL_RIGHTS_DATABASE = ACL_CREATE OR ACL_CREATE_TEMP OR ACL_CONNECT"
definition ACL_ALL_RIGHTS_FDW :: AclMode where "ACL_ALL_RIGHTS_FDW = ACL_USAGE"
definition ACL_ALL_RIGHTS_FOREIGN_SERVER :: AclMode where "ACL_ALL_RIGHTS_FOREIGN_SERVER = ACL_USAGE"
definition ACL_ALL_RIGHTS_FUNCTION :: AclMode where "ACL_ALL_RIGHTS_FUNCTION = ACL_EXECUTE"
definition ACL_ALL_RIGHTS_LANGUAGE :: AclMode where "ACL_ALL_RIGHTS_LANGUAGE = ACL_USAGE"
definition ACL_ALL_RIGHTS_LARGEOBJECT :: AclMode where
  "ACL_ALL_RIGHTS_LARGEOBJECT = ACL_SELECT OR ACL_UPDATE"
definition ACL_ALL_RIGHTS_PARAMETER_ACL :: AclMode where
  "ACL_ALL_RIGHTS_PARAMETER_ACL = ACL_SET OR ACL_ALTER_SYSTEM"
definition ACL_ALL_RIGHTS_SCHEMA :: AclMode where "ACL_ALL_RIGHTS_SCHEMA = ACL_USAGE OR ACL_CREATE"
definition ACL_ALL_RIGHTS_TABLESPACE :: AclMode where "ACL_ALL_RIGHTS_TABLESPACE = ACL_CREATE"
definition ACL_ALL_RIGHTS_TYPE :: AclMode where "ACL_ALL_RIGHTS_TYPE = ACL_USAGE"

lemmas acl_all_rights_defs =
  ACL_ALL_RIGHTS_COLUMN_def ACL_ALL_RIGHTS_RELATION_def ACL_ALL_RIGHTS_SEQUENCE_def
  ACL_ALL_RIGHTS_DATABASE_def ACL_ALL_RIGHTS_FDW_def ACL_ALL_RIGHTS_FOREIGN_SERVER_def
  ACL_ALL_RIGHTS_FUNCTION_def ACL_ALL_RIGHTS_LANGUAGE_def ACL_ALL_RIGHTS_LARGEOBJECT_def
  ACL_ALL_RIGHTS_PARAMETER_ACL_def ACL_ALL_RIGHTS_SCHEMA_def ACL_ALL_RIGHTS_TABLESPACE_def
  ACL_ALL_RIGHTS_TYPE_def

section \<open>Items and lists\<close>

datatype AclItem = AclItem (ai_grantee: Oid) (ai_grantor: Oid) (ai_privs: AclMode)

definition ACLITEM_ALL_PRIV_BITS :: AclMode where "ACLITEM_ALL_PRIV_BITS = 0xFFFFFFFF"
definition ACLITEM_ALL_GOPTION_BITS :: AclMode where "ACLITEM_ALL_GOPTION_BITS = push_bit 32 0xFFFFFFFF"

definition ACLITEM_GET_PRIVS :: "AclItem \<Rightarrow> AclMode" where
  "ACLITEM_GET_PRIVS item = ai_privs item AND 0xFFFFFFFF"
definition ACLITEM_GET_GOPTIONS :: "AclItem \<Rightarrow> AclMode" where
  "ACLITEM_GET_GOPTIONS item = drop_bit 32 (ai_privs item) AND 0xFFFFFFFF"
definition ACLITEM_GET_RIGHTS :: "AclItem \<Rightarrow> AclMode" where
  "ACLITEM_GET_RIGHTS item = ai_privs item"
definition ACL_GRANT_OPTION_FOR :: "AclMode \<Rightarrow> AclMode" where
  "ACL_GRANT_OPTION_FOR privs = push_bit 32 (privs AND 0xFFFFFFFF)"
definition ACL_OPTION_TO_PRIVS :: "AclMode \<Rightarrow> AclMode" where
  "ACL_OPTION_TO_PRIVS privs = drop_bit 32 privs AND 0xFFFFFFFF"
definition ACLITEM_SET_RIGHTS :: "AclItem \<Rightarrow> AclMode \<Rightarrow> AclItem" where
  "ACLITEM_SET_RIGHTS item rights = AclItem (ai_grantee item) (ai_grantor item) rights"
definition PRIVS_GOPTIONS :: "AclMode \<Rightarrow> AclMode \<Rightarrow> AclMode" where
  "PRIVS_GOPTIONS privs goptions = (privs AND 0xFFFFFFFF) OR push_bit 32 (goptions AND 0xFFFFFFFF)"

record Acl =
  ARR_ELEMTYPE :: Oid
  ARR_NDIM :: int
  ARR_HASNULL :: bool
  ACL_DAT :: "AclItem list"

abbreviation ACL_NUM :: "Acl \<Rightarrow> nat" where "ACL_NUM acl \<equiv> length (ACL_DAT acl)"

definition ACLITEMOID :: Oid where "ACLITEMOID = 1033"

text \<open>\<^verbatim>\<open>allocacl\<close> followed by the copies that fill the new array.\<close>

definition allocacl :: "AclItem list \<Rightarrow> Acl" where
  "allocacl items = \<lparr>ARR_ELEMTYPE = ACLITEMOID, ARR_NDIM = 1, ARR_HASNULL = False, ACL_DAT = items\<rparr>"

definition make_empty_acl :: Acl where
  "make_empty_acl = allocacl []"

definition aclcopy :: "Acl \<Rightarrow> Acl" where
  "aclcopy orig_acl = allocacl (ACL_DAT orig_acl)"

definition aclconcat :: "Acl \<Rightarrow> Acl \<Rightarrow> Acl" where
  "aclconcat left_acl right_acl = allocacl (ACL_DAT left_acl @ ACL_DAT right_acl)"

definition check_acl :: "Acl \<Rightarrow> unit pg_result" where
  "check_acl acl =
     (if ARR_ELEMTYPE acl \<noteq> ACLITEMOID
      then ereport_error ''ERRCODE_INVALID_PARAMETER_VALUE'' ''ACL array contains wrong data type''
      else if ARR_NDIM acl \<noteq> 1
      then ereport_error ''ERRCODE_INVALID_PARAMETER_VALUE'' ''ACL arrays must be one-dimensional''
      else if ARR_HASNULL acl
      then ereport_error ''ERRCODE_NULL_VALUE_NOT_ALLOWED'' ''ACL arrays must not contain null values''
      else Inr ())"

definition aclitem_match :: "AclItem \<Rightarrow> AclItem \<Rightarrow> bool" where
  "aclitem_match a1 a2 = (ai_grantee a1 = ai_grantee a2 \<and> ai_grantor a1 = ai_grantor a2)"

definition aclitemComparator :: "AclItem \<Rightarrow> AclItem \<Rightarrow> int" where
  "aclitemComparator a1 a2 =
     (if ai_grantee a1 > ai_grantee a2 then 1
      else if ai_grantee a1 < ai_grantee a2 then -1
      else if ai_grantor a1 > ai_grantor a2 then 1
      else if ai_grantor a1 < ai_grantor a2 then -1
      else if ai_privs a1 > ai_privs a2 then 1
      else if ai_privs a1 < ai_privs a2 then -1
      else 0)"

definition aclitem_eq :: "AclItem \<Rightarrow> AclItem \<Rightarrow> bool" where
  "aclitem_eq a1 a2 =
     (ai_privs a1 = ai_privs a2 \<and> ai_grantee a1 = ai_grantee a2 \<and> ai_grantor a1 = ai_grantor a2)"

text \<open>The sum of the three fields, truncated to 32 bits.\<close>

definition hash_aclitem :: "AclItem \<Rightarrow> word32" where
  "hash_aclitem a = ucast (ai_privs a + ucast (ai_grantee a) + ucast (ai_grantor a))"

instantiation AclItem :: linorder
begin

definition less_eq_AclItem :: "AclItem \<Rightarrow> AclItem \<Rightarrow> bool" where
  "less_eq_AclItem a b \<longleftrightarrow> aclitemComparator a b \<le> 0"

definition less_AclItem :: "AclItem \<Rightarrow> AclItem \<Rightarrow> bool" where
  "less_AclItem a b \<longleftrightarrow> aclitemComparator a b < 0"

instance
proof
  fix x y z :: AclItem
  show "(x < y) = (x \<le> y \<and> \<not> y \<le> x)"
    by (auto simp: less_AclItem_def less_eq_AclItem_def aclitemComparator_def)
  show "x \<le> x" by (simp add: less_eq_AclItem_def aclitemComparator_def)
  show "x \<le> y \<Longrightarrow> y \<le> z \<Longrightarrow> x \<le> z"
    by (auto simp: less_eq_AclItem_def aclitemComparator_def split: if_splits)
  show "x \<le> y \<Longrightarrow> y \<le> x \<Longrightarrow> x = y"
    by (auto simp: less_eq_AclItem_def aclitemComparator_def AclItem.expand split: if_splits)
  show "x \<le> y \<or> y \<le> x" by (auto simp: less_eq_AclItem_def aclitemComparator_def)
qed

end

definition aclitemsort :: "Acl option \<Rightarrow> Acl option" where
  "aclitemsort acl =
     (case acl of
        None \<Rightarrow> None
      | Some a \<Rightarrow> if ACL_NUM a > 1 then Some (a\<lparr>ACL_DAT := sort (ACL_DAT a)\<rparr>) else Some a)"

definition acl_is_empty :: "Acl option \<Rightarrow> bool" where
  "acl_is_empty acl = (case acl of None \<Rightarrow> True | Some a \<Rightarrow> ACL_NUM a = 0)"

text \<open>\<^verbatim>\<open>memcmp\<close> of the item arrays is equality: the three fields of an item leave no padding.\<close>

definition aclequal :: "Acl option \<Rightarrow> Acl option \<Rightarrow> bool" where
  "aclequal left_acl right_acl =
     (if acl_is_empty left_acl then acl_is_empty right_acl
      else if acl_is_empty right_acl then False
      else if ACL_NUM (the left_acl) \<noteq> ACL_NUM (the right_acl) then False
      else ACL_DAT (the left_acl) = ACL_DAT (the right_acl))"

section \<open>Default lists\<close>

datatype ObjectType =
  OBJECT_ACCESS_METHOD | OBJECT_AGGREGATE | OBJECT_AMOP | OBJECT_AMPROC | OBJECT_ATTRIBUTE |
  OBJECT_CAST | OBJECT_COLUMN | OBJECT_COLLATION | OBJECT_CONVERSION | OBJECT_DATABASE |
  OBJECT_DEFAULT | OBJECT_DEFACL | OBJECT_DOMAIN | OBJECT_DOMCONSTRAINT | OBJECT_EVENT_TRIGGER |
  OBJECT_EXTENSION | OBJECT_FDW | OBJECT_FOREIGN_SERVER | OBJECT_FOREIGN_TABLE | OBJECT_FUNCTION |
  OBJECT_INDEX | OBJECT_LANGUAGE | OBJECT_LARGEOBJECT | OBJECT_MATVIEW | OBJECT_OPCLASS |
  OBJECT_OPERATOR | OBJECT_OPFAMILY | OBJECT_PARAMETER_ACL | OBJECT_POLICY | OBJECT_PROCEDURE |
  OBJECT_PUBLICATION | OBJECT_PUBLICATION_NAMESPACE | OBJECT_PUBLICATION_REL | OBJECT_ROLE |
  OBJECT_ROUTINE | OBJECT_RULE | OBJECT_SCHEMA | OBJECT_SEQUENCE | OBJECT_SUBSCRIPTION |
  OBJECT_STATISTIC_EXT | OBJECT_TABCONSTRAINT | OBJECT_TABLE | OBJECT_TABLESPACE | OBJECT_TRANSFORM
  | OBJECT_TRIGGER | OBJECT_TSCONFIGURATION | OBJECT_TSDICTIONARY | OBJECT_TSPARSER |
  OBJECT_TSTEMPLATE | OBJECT_TYPE | OBJECT_USER_MAPPING | OBJECT_VIEW

text \<open>\<^verbatim>\<open>world_default\<close> and \<^verbatim>\<open>owner_default\<close> of the switch.\<close>

definition default_rights :: "ObjectType \<Rightarrow> (AclMode \<times> AclMode) pg_result" where
  "default_rights objtype =
     (case objtype of
        OBJECT_COLUMN \<Rightarrow> Inr (ACL_NO_RIGHTS, ACL_NO_RIGHTS)
      | OBJECT_TABLE \<Rightarrow> Inr (ACL_NO_RIGHTS, ACL_ALL_RIGHTS_RELATION)
      | OBJECT_SEQUENCE \<Rightarrow> Inr (ACL_NO_RIGHTS, ACL_ALL_RIGHTS_SEQUENCE)
      | OBJECT_DATABASE \<Rightarrow> Inr (ACL_CREATE_TEMP OR ACL_CONNECT, ACL_ALL_RIGHTS_DATABASE)
      | OBJECT_FUNCTION \<Rightarrow> Inr (ACL_EXECUTE, ACL_ALL_RIGHTS_FUNCTION)
      | OBJECT_LANGUAGE \<Rightarrow> Inr (ACL_USAGE, ACL_ALL_RIGHTS_LANGUAGE)
      | OBJECT_LARGEOBJECT \<Rightarrow> Inr (ACL_NO_RIGHTS, ACL_ALL_RIGHTS_LARGEOBJECT)
      | OBJECT_SCHEMA \<Rightarrow> Inr (ACL_NO_RIGHTS, ACL_ALL_RIGHTS_SCHEMA)
      | OBJECT_TABLESPACE \<Rightarrow> Inr (ACL_NO_RIGHTS, ACL_ALL_RIGHTS_TABLESPACE)
      | OBJECT_FDW \<Rightarrow> Inr (ACL_NO_RIGHTS, ACL_ALL_RIGHTS_FDW)
      | OBJECT_FOREIGN_SERVER \<Rightarrow> Inr (ACL_NO_RIGHTS, ACL_ALL_RIGHTS_FOREIGN_SERVER)
      | OBJECT_DOMAIN \<Rightarrow> Inr (ACL_USAGE, ACL_ALL_RIGHTS_TYPE)
      | OBJECT_TYPE \<Rightarrow> Inr (ACL_USAGE, ACL_ALL_RIGHTS_TYPE)
      | OBJECT_PARAMETER_ACL \<Rightarrow> Inr (ACL_NO_RIGHTS, ACL_ALL_RIGHTS_PARAMETER_ACL)
      | _ \<Rightarrow> elog_error ''unrecognized object type: %d'')"

definition acldefault :: "ObjectType \<Rightarrow> Oid \<Rightarrow> Acl pg_result" where
  "acldefault objtype ownerId =
     rbind (default_rights objtype)
       (\<lambda>(world_default, owner_default).
          Inr (allocacl
            ((if world_default \<noteq> ACL_NO_RIGHTS
              then [AclItem ACL_ID_PUBLIC ownerId (PRIVS_GOPTIONS world_default ACL_NO_RIGHTS)] else []) @
             (if owner_default \<noteq> ACL_NO_RIGHTS
              then [AclItem ownerId ownerId (PRIVS_GOPTIONS owner_default ACL_NO_RIGHTS)] else []))))"

definition objtype_of_char :: "char \<Rightarrow> ObjectType pg_result" where
  "objtype_of_char c =
     (if c = CHR ''c'' then Inr OBJECT_COLUMN
      else if c = CHR ''r'' then Inr OBJECT_TABLE
      else if c = CHR ''s'' then Inr OBJECT_SEQUENCE
      else if c = CHR ''d'' then Inr OBJECT_DATABASE
      else if c = CHR ''f'' then Inr OBJECT_FUNCTION
      else if c = CHR ''l'' then Inr OBJECT_LANGUAGE
      else if c = CHR ''L'' then Inr OBJECT_LARGEOBJECT
      else if c = CHR ''n'' then Inr OBJECT_SCHEMA
      else if c = CHR ''p'' then Inr OBJECT_PARAMETER_ACL
      else if c = CHR ''t'' then Inr OBJECT_TABLESPACE
      else if c = CHR ''F'' then Inr OBJECT_FDW
      else if c = CHR ''S'' then Inr OBJECT_FOREIGN_SERVER
      else if c = CHR ''T'' then Inr OBJECT_TYPE
      else elog_error ''unrecognized object type abbreviation: %c'')"

definition acldefault_sql :: "char \<Rightarrow> Oid \<Rightarrow> Acl pg_result" where
  "acldefault_sql objtypec owner = rbind (objtype_of_char objtypec) (\<lambda>objtype. acldefault objtype owner)"

section \<open>Privileges held\<close>

datatype AclMaskHow = ACLMASK_ALL | ACLMASK_ANY

text \<open>The early-exit test of the mask routines.\<close>

definition mask_known :: "AclMaskHow \<Rightarrow> AclMode \<Rightarrow> AclMode \<Rightarrow> bool" where
  "mask_known how result msk = (if how = ACLMASK_ALL then result = msk else result \<noteq> 0)"

text \<open>A pass over the items that collects those whose grantee satisfies \<open>P\<close>; \<open>Inl\<close> is the early return.\<close>

fun direct_pass :: "AclMaskHow \<Rightarrow> AclMode \<Rightarrow> (Oid \<Rightarrow> bool) \<Rightarrow> AclItem list \<Rightarrow> AclMode \<Rightarrow> AclMode + AclMode" where
  "direct_pass how msk P [] result = Inr result"
| "direct_pass how msk P (aidata # rest) result =
     (if P (ai_grantee aidata) then
        (let result1 = result OR (ai_privs aidata AND msk)
         in if mask_known how result1 msk then Inl result1 else direct_pass how msk P rest result1)
      else direct_pass how msk P rest result)"

fun indirect_pass ::
  "role_catalog \<Rightarrow> AclMaskHow \<Rightarrow> AclMode \<Rightarrow> Oid \<Rightarrow> AclItem list \<Rightarrow> AclMode \<Rightarrow> AclMode \<Rightarrow> AclMode pg_result" where
  "indirect_pass cat how msk roleid [] result remaining = Inr result"
| "indirect_pass cat how msk roleid (aidata # rest) result remaining =
     (if ai_grantee aidata = ACL_ID_PUBLIC \<or> ai_grantee aidata = roleid
      then indirect_pass cat how msk roleid rest result remaining
      else if ai_privs aidata AND remaining \<noteq> 0 then
        rbind (has_privs_of_role cat roleid (ai_grantee aidata))
          (\<lambda>has. if has then
             (let result1 = result OR (ai_privs aidata AND msk)
              in if mask_known how result1 msk then Inr result1
                 else indirect_pass cat how msk roleid rest result1 (msk AND NOT result1))
           else indirect_pass cat how msk roleid rest result remaining)
      else indirect_pass cat how msk roleid rest result remaining)"

definition aclmask ::
  "role_catalog \<Rightarrow> Acl option \<Rightarrow> Oid \<Rightarrow> Oid \<Rightarrow> AclMode \<Rightarrow> AclMaskHow \<Rightarrow> AclMode pg_result" where
  "aclmask cat acl roleid ownerId msk how =
     (case acl of
        None \<Rightarrow> elog_error ''null ACL''
      | Some a \<Rightarrow>
          rbind (check_acl a) (\<lambda>_.
            if msk = 0 then Inr 0
            else
              rbind (if msk AND ACLITEM_ALL_GOPTION_BITS \<noteq> 0 then has_privs_of_role cat roleid ownerId
                     else Inr False)
                (\<lambda>owner.
                  let result0 = (if owner then msk AND ACLITEM_ALL_GOPTION_BITS else 0)
                  in if owner \<and> mask_known how result0 msk then Inr result0
                     else
                       case direct_pass how msk (\<lambda>g. g = ACL_ID_PUBLIC \<or> g = roleid) (ACL_DAT a) result0 of
                         Inl result \<Rightarrow> Inr result
                       | Inr result \<Rightarrow>
                           indirect_pass cat how msk roleid (ACL_DAT a) result (msk AND NOT result))))"

definition aclmask_direct :: "Acl option \<Rightarrow> Oid \<Rightarrow> Oid \<Rightarrow> AclMode \<Rightarrow> AclMaskHow \<Rightarrow> AclMode pg_result" where
  "aclmask_direct acl roleid ownerId msk how =
     (case acl of
        None \<Rightarrow> elog_error ''null ACL''
      | Some a \<Rightarrow>
          rbind (check_acl a) (\<lambda>_.
            if msk = 0 then Inr 0
            else
              let owner = (msk AND ACLITEM_ALL_GOPTION_BITS \<noteq> 0 \<and> roleid = ownerId);
                  result0 = (if owner then msk AND ACLITEM_ALL_GOPTION_BITS else 0)
              in if owner \<and> mask_known how result0 msk then Inr result0
                 else case direct_pass how msk (\<lambda>g. g = roleid) (ACL_DAT a) result0 of
                        Inl result \<Rightarrow> Inr result
                      | Inr result \<Rightarrow> Inr result))"

section \<open>Members, containment\<close>

fun mentioned_roles :: "AclItem list \<Rightarrow> Oid list" where
  "mentioned_roles [] = []"
| "mentioned_roles (ai # rest) =
     (if ai_grantee ai \<noteq> ACL_ID_PUBLIC then [ai_grantee ai] else []) @
     (if ai_grantor ai \<noteq> ACL_ID_PUBLIC then [ai_grantor ai] else []) @ mentioned_roles rest"

text \<open>\<^verbatim>\<open>qunique\<close>: keep an element when it differs from the last one kept.\<close>

fun qunique_loop :: "Oid \<Rightarrow> Oid list \<Rightarrow> Oid list" where
  "qunique_loop kept [] = [kept]"
| "qunique_loop kept (x # xs) = (if x \<noteq> kept then kept # qunique_loop x xs else qunique_loop kept xs)"

fun qunique :: "Oid list \<Rightarrow> Oid list" where
  "qunique [] = []"
| "qunique (x # xs) = qunique_loop x xs"

definition aclmembers :: "Acl option \<Rightarrow> Oid list pg_result" where
  "aclmembers acl =
     (if acl_is_empty acl then Inr []
      else rbind (check_acl (the acl))
             (\<lambda>_. Inr (qunique (sort (mentioned_roles (ACL_DAT (the acl)))))))"

definition aclcontains :: "Acl \<Rightarrow> AclItem \<Rightarrow> bool pg_result" where
  "aclcontains acl aip =
     rbind (check_acl acl) (\<lambda>_.
       Inr (list_ex (\<lambda>ai. ai_grantee aip = ai_grantee ai \<and> ai_grantor aip = ai_grantor ai \<and>
              ACLITEM_GET_RIGHTS aip AND ACLITEM_GET_RIGHTS ai = ACLITEM_GET_RIGHTS aip) (ACL_DAT acl)))"

section \<open>Choosing a grantor\<close>

function count_one_bits_loop :: "AclMode \<Rightarrow> nat \<Rightarrow> nat" where
  "count_one_bits_loop msk nbits =
     (if msk \<noteq> 0
      then count_one_bits_loop (drop_bit 1 msk) (if msk AND 1 \<noteq> 0 then nbits + 1 else nbits)
      else nbits)"
  by auto
termination
proof (relation "measure (\<lambda>(w, _). unat w)")
  fix msk :: AclMode and nbits :: nat
  assume "msk \<noteq> 0"
  then have "unat msk \<noteq> 0" by (simp add: unat_eq_0)
  then show "((drop_bit 1 msk, if msk AND 1 \<noteq> 0 then nbits + 1 else nbits), msk, nbits)
      \<in> measure (\<lambda>(w, _). unat w)"
    by (simp add: drop_bit_eq_div unat_div)
qed simp

declare count_one_bits_loop.simps [simp del]

definition count_one_bits :: "AclMode \<Rightarrow> nat" where
  "count_one_bits msk = count_one_bits_loop msk 0"

fun best_grantor_loop ::
  "Acl option \<Rightarrow> Oid \<Rightarrow> AclMode \<Rightarrow> Oid list \<Rightarrow> Oid \<Rightarrow> AclMode \<Rightarrow> nat \<Rightarrow> (Oid \<times> AclMode) pg_result" where
  "best_grantor_loop acl ownerId needed [] grantorId grantOptions nrights = Inr (grantorId, grantOptions)"
| "best_grantor_loop acl ownerId needed (otherrole # rest) grantorId grantOptions nrights =
     rbind (aclmask_direct acl otherrole ownerId needed ACLMASK_ALL)
       (\<lambda>otherprivs.
          if otherprivs = needed then Inr (otherrole, otherprivs)
          else if otherprivs \<noteq> ACL_NO_RIGHTS \<and> count_one_bits otherprivs > nrights
          then best_grantor_loop acl ownerId needed rest otherrole otherprivs (count_one_bits otherprivs)
          else best_grantor_loop acl ownerId needed rest grantorId grantOptions nrights)"

definition select_best_grantor ::
  "role_catalog \<Rightarrow> Oid \<Rightarrow> AclMode \<Rightarrow> Acl option \<Rightarrow> Oid \<Rightarrow> (Oid \<times> AclMode) pg_result" where
  "select_best_grantor cat roleId privileges acl ownerId =
     (let needed_goptions = ACL_GRANT_OPTION_FOR privileges
      in if roleId = ownerId \<or> superuser_arg cat roleId then Inr (ownerId, needed_goptions)
         else rbind (roles_is_member_of cat roleId ROLERECURSE_PRIVS InvalidOid)
                (\<lambda>(roles_list, _). best_grantor_loop acl ownerId needed_goptions roles_list roleId ACL_NO_RIGHTS 0))"

section \<open>What a list grants\<close>

text \<open>The rights of all items whose grantee satisfies a predicate.\<close>

definition or_rights :: "(Oid \<Rightarrow> bool) \<Rightarrow> AclItem list \<Rightarrow> AclMode" where
  "or_rights P items = foldr (\<lambda>i r. ai_privs i OR r) (filter (\<lambda>i. P (ai_grantee i)) items) 0"

definition privs_of :: "role_catalog \<Rightarrow> Oid \<Rightarrow> Oid \<Rightarrow> bool" where
  "privs_of cat member role \<longleftrightarrow> has_privs_of_role cat member role = Inr True"

text \<open>All rights of a role: the grant options of the owner, and the items for the public, for the
  role and for every role whose privileges it has.\<close>

definition held_rights :: "role_catalog \<Rightarrow> Oid \<Rightarrow> Oid \<Rightarrow> AclItem list \<Rightarrow> AclMode" where
  "held_rights cat roleid ownerId items =
     (if privs_of cat roleid ownerId then ACLITEM_ALL_GOPTION_BITS else 0) OR
     or_rights (\<lambda>g. g = ACL_ID_PUBLIC \<or> privs_of cat roleid g) items"

definition direct_rights :: "Oid \<Rightarrow> Oid \<Rightarrow> AclItem list \<Rightarrow> AclMode" where
  "direct_rights roleid ownerId items =
     (if roleid = ownerId then ACLITEM_ALL_GOPTION_BITS else 0) OR or_rights (\<lambda>g. g = roleid) items"

text \<open>What the two modes of the mask routines promise when \<open>full\<close> is the exact answer.\<close>

definition mask_answer :: "AclMaskHow \<Rightarrow> AclMode \<Rightarrow> AclMode \<Rightarrow> bool" where
  "mask_answer how full r \<longleftrightarrow>
     (case how of ACLMASK_ALL \<Rightarrow> r = full | ACLMASK_ANY \<Rightarrow> r AND NOT full = 0 \<and> (r \<noteq> 0 \<longleftrightarrow> full \<noteq> 0))"

definition acl_ok :: "Acl \<Rightarrow> bool" where
  "acl_ok acl \<longleftrightarrow> check_acl acl = Inr ()"

definition needed_options :: "Acl \<Rightarrow> Oid \<Rightarrow> AclMode \<Rightarrow> Oid \<Rightarrow> AclMode" where
  "needed_options acl ownerId privileges r =
     ACL_GRANT_OPTION_FOR privileges AND direct_rights r ownerId (ACL_DAT acl)"

text \<open>
  \<open>best_of f opts roles g\<close>: among \<open>roles\<close>, \<open>g\<close> has the most options, and is nearest among those.
\<close>

definition best_of :: "(Oid \<Rightarrow> nat) \<Rightarrow> (Oid \<Rightarrow> AclMode) \<Rightarrow> Oid list \<Rightarrow> Oid \<Rightarrow> bool" where
  "best_of f opts roles g \<longleftrightarrow> g \<in> set roles \<and>
     (\<forall>r \<in> set roles. count_one_bits (opts r) < count_one_bits (opts g) \<or>
        count_one_bits (opts r) = count_one_bits (opts g) \<and> f g \<le> f r)"

definition example_acl :: Acl where
  "example_acl = allocacl [AclItem 102 10 ACL_SELECT, AclItem 0 10 ACL_INSERT]"

section \<open>Bits of the two halves\<close>

lemma low_half: "(0xFFFFFFFF :: word64) = mask 32"
  by (simp add: mask_eq_exp_minus_1)

lemma bit_ALL_GOPTION_BITS [word_bits]: "bit ACLITEM_ALL_GOPTION_BITS n \<longleftrightarrow> 32 \<le> n \<and> n < 64"
  unfolding ACLITEM_ALL_GOPTION_BITS_def low_half by (auto simp: bit_simps)

lemma bit_GET_PRIVS [word_bits]: "bit (ACLITEM_GET_PRIVS i) n \<longleftrightarrow> n < 32 \<and> bit (ai_privs i) n"
  unfolding ACLITEM_GET_PRIVS_def low_half by (auto simp: bit_simps)

lemma bit_GET_GOPTIONS [word_bits]: "bit (ACLITEM_GET_GOPTIONS i) n \<longleftrightarrow> n < 32 \<and> bit (ai_privs i) (32 + n)"
  unfolding ACLITEM_GET_GOPTIONS_def low_half by (auto simp: bit_simps)

lemma bit_GRANT_OPTION_FOR [word_bits]:
  "bit (ACL_GRANT_OPTION_FOR p) n \<longleftrightarrow> 32 \<le> n \<and> n < 64 \<and> bit p (n - 32)"
  unfolding ACL_GRANT_OPTION_FOR_def low_half by (auto simp: bit_simps)

lemma bit_OPTION_TO_PRIVS [word_bits]: "bit (ACL_OPTION_TO_PRIVS p) n \<longleftrightarrow> n < 32 \<and> bit p (32 + n)"
  unfolding ACL_OPTION_TO_PRIVS_def low_half by (auto simp: bit_simps)

lemma bit_PRIVS_GOPTIONS [word_bits]:
  "bit (PRIVS_GOPTIONS p g) n \<longleftrightarrow> n < 32 \<and> bit p n \<or> 32 \<le> n \<and> n < 64 \<and> bit g (n - 32)"
  unfolding PRIVS_GOPTIONS_def low_half by (auto simp: bit_simps)

lemma bit_or_rights [word_bits]:
  "bit (or_rights P items) n \<longleftrightarrow> (\<exists>i \<in> set items. P (ai_grantee i) \<and> bit (ai_privs i) n)"
  unfolding or_rights_def by (induction items) (auto simp: bit_simps)

lemma or_rights_Nil [simp]: "or_rights P [] = 0"
  by (simp add: or_rights_def)

lemma or_rights_Cons [simp]:
  "or_rights P (i # items) = (if P (ai_grantee i) then ai_privs i OR or_rights P items else or_rights P items)"
  by (simp add: or_rights_def)

section \<open>The mask routines\<close>

lemma mask_answer_refl [simp]: "mask_answer how full full"
  by (simp add: mask_answer_def split: AclMaskHow.split)

lemma mask_answer_known:
  assumes "mask_known how r msk" and "\<And>n. bit r n \<Longrightarrow> bit full n" and "\<And>n. bit full n \<Longrightarrow> bit msk n"
  shows "mask_answer how full r"
proof (cases how)
  case ACLMASK_ALL
  with assms show ?thesis by (auto simp: mask_answer_def mask_known_def bit_eq_iff)
next
  case ACLMASK_ANY
  with assms show ?thesis
    by (auto simp: mask_answer_def mask_known_def word_subset_iff word_neq_0_iff_bit)
qed

lemma or_rights_mono:
  "(\<And>g. P g \<Longrightarrow> Q g) \<Longrightarrow> bit (or_rights P items) n \<Longrightarrow> bit (or_rights Q items) n"
  unfolding bit_or_rights by blast

lemma or_rights_disj: "or_rights (\<lambda>g. P g \<or> Q g) items = or_rights P items OR or_rights Q items"
  by (rule bit_eqI) (auto simp: bit_or_iff bit_or_rights)

lemma direct_pass_cases:
  assumes "\<forall>n. bit result n \<longrightarrow> bit msk n"
  shows "(\<exists>r. direct_pass how msk P items result = Inl r \<and> mask_known how r msk \<and>
       (\<forall>n. bit r n \<longrightarrow> bit (result OR (or_rights P items AND msk)) n)) \<or>
    direct_pass how msk P items result = Inr (result OR (or_rights P items AND msk))"
  using assms
proof (induction items arbitrary: result)
  case (Cons i items)
  show ?case
  proof (cases "P (ai_grantee i)")
    case False
    then show ?thesis using Cons.IH [OF Cons.prems] by simp
  next
    case True
    let ?r = "result OR (ai_privs i AND msk)"
    have full: "?r OR (or_rights P items AND msk) = result OR (or_rights P (i # items) AND msk)"
      using True by (auto simp: bit_eq_iff bit_simps)
    show ?thesis
    proof (cases "mask_known how ?r msk")
      case known: True
      then show ?thesis using True by (auto simp: bit_simps Let_def)
    next
      case False
      then have step: "direct_pass how msk P (i # items) result = direct_pass how msk P items ?r"
        using True by (simp add: Let_def)
      have "\<forall>n. bit ?r n \<longrightarrow> bit msk n" using Cons.prems by (auto simp: bit_simps)
      from Cons.IH [OF this] show ?thesis unfolding step full .
    qed
  qed
qed simp

lemma indirect_pass_answer:
  assumes hp: "\<And>g. has_privs_of_role cat roleid g = Inr (privs_of cat roleid g)"
    and "\<forall>n. bit result n \<longrightarrow> bit msk n"
  shows "\<exists>r. indirect_pass cat how msk roleid items result (msk AND NOT result) = Inr r \<and>
    mask_answer how
      (result OR (or_rights (\<lambda>g. g \<noteq> ACL_ID_PUBLIC \<and> g \<noteq> roleid \<and> privs_of cat roleid g) items AND msk)) r"
  using assms(2)
proof (induction items arbitrary: result)
  case (Cons i items)
  let ?Q = "\<lambda>g. g \<noteq> ACL_ID_PUBLIC \<and> g \<noteq> roleid \<and> privs_of cat roleid g"
  let ?full = "\<lambda>res xs. res OR (or_rights ?Q xs AND msk)"
  let ?r = "result OR (ai_privs i AND msk)"
  have r_msk: "\<forall>n. bit ?r n \<longrightarrow> bit msk n" using Cons.prems by (auto simp: bit_simps)
  consider (skip) "\<not> ?Q (ai_grantee i)" | (useless) "?Q (ai_grantee i)" "ai_privs i AND (msk AND NOT result) = 0"
    | (take) "?Q (ai_grantee i)" "ai_privs i AND (msk AND NOT result) \<noteq> 0" by blast
  then show ?case
  proof cases
    case skip
    then have "indirect_pass cat how msk roleid (i # items) result (msk AND NOT result) =
        indirect_pass cat how msk roleid items result (msk AND NOT result)" by (auto simp: hp)
    moreover have "or_rights ?Q (i # items) = or_rights ?Q items" using skip by auto
    ultimately show ?thesis using Cons.IH [OF Cons.prems] by simp
  next
    case useless
    then have "?full result (i # items) = ?full result items"
      by (auto simp: bit_eq_iff bit_simps word_disjoint_iff)
    then show ?thesis using Cons.IH [OF Cons.prems] useless by simp
  next
    case take
    have full: "?full ?r items = ?full result (i # items)"
      using take(1) by (auto simp: bit_eq_iff bit_simps)
    show ?thesis
    proof (cases "mask_known how ?r msk")
      case True
      have "mask_answer how (?full result (i # items)) ?r"
        by (rule mask_answer_known [OF True]) (use take(1) Cons.prems in \<open>auto simp: bit_simps\<close>)
      then show ?thesis using take True by (simp add: hp Let_def)
    next
      case False
      then show ?thesis using Cons.IH [OF r_msk] take unfolding full by (simp add: hp Let_def)
    qed
  qed
qed simp

lemma has_privs_total:
  assumes "database_dba cat = Inr dba"
  shows "has_privs_of_role cat member role = Inr (privs_of cat member role)"
  using membership_test [OF assms, of member ROLERECURSE_PRIVS InvalidOid]
  by (auto simp: privs_of_def has_privs_of_role_def)

lemma privs_of_refl [simp]: "privs_of cat r r"
  by (simp add: privs_of_def has_privs_of_role_def)

lemma aclmask_answer:
  assumes dba: "database_dba cat = Inr dba" and ok: "acl_ok acl"
  shows "\<exists>r. aclmask cat (Some acl) roleid ownerId msk how = Inr r \<and>
    mask_answer how (msk AND held_rights cat roleid ownerId (ACL_DAT acl)) r"
proof (cases "msk = 0")
  case True
  then show ?thesis using ok by (simp add: aclmask_def acl_ok_def)
next
  case False
  note hp = has_privs_total [OF dba, of roleid]
  let ?items = "ACL_DAT acl"
  let ?owner = "msk AND ACLITEM_ALL_GOPTION_BITS \<noteq> 0 \<and> privs_of cat roleid ownerId"
  let ?r0 = "if ?owner then msk AND ACLITEM_ALL_GOPTION_BITS else 0"
  let ?P = "\<lambda>g. g = ACL_ID_PUBLIC \<or> g = roleid"
  let ?full = "msk AND held_rights cat roleid ownerId ?items"
  have r0: "?r0 = msk AND (if privs_of cat roleid ownerId then ACLITEM_ALL_GOPTION_BITS else 0)" by auto
  have run: "aclmask cat (Some acl) roleid ownerId msk how =
      (if ?owner \<and> mask_known how ?r0 msk then Inr ?r0
       else case direct_pass how msk ?P ?items ?r0 of
              Inl result \<Rightarrow> Inr result
            | Inr result \<Rightarrow> indirect_pass cat how msk roleid ?items result (msk AND NOT result))"
    using False ok by (auto simp: aclmask_def acl_ok_def hp Let_def)
  have sub: "\<forall>n. bit ?r0 n \<longrightarrow> bit msk n" "\<And>n. bit ?r0 n \<Longrightarrow> bit ?full n" "\<And>n. bit ?full n \<Longrightarrow> bit msk n"
    unfolding r0 by (auto simp: bit_simps held_rights_def)
  let ?mid = "?r0 OR (or_rights ?P ?items AND msk)"
  have "bit (or_rights ?P ?items) n \<Longrightarrow>
      bit (or_rights (\<lambda>g. g = ACL_ID_PUBLIC \<or> privs_of cat roleid g) ?items) n" for n
    by (rule or_rights_mono) auto
  then have mid: "bit ?mid n \<Longrightarrow> bit ?full n" "\<forall>n. bit ?mid n \<longrightarrow> bit msk n" for n
    unfolding r0 by (auto simp: bit_simps held_rights_def)
  have last: "?mid OR (or_rights (\<lambda>g. g \<noteq> ACL_ID_PUBLIC \<and> g \<noteq> roleid \<and> privs_of cat roleid g) ?items AND msk) = ?full"
  proof -
    have "(\<lambda>g. g = ACL_ID_PUBLIC \<or> privs_of cat roleid g) =
        (\<lambda>g. ?P g \<or> g \<noteq> ACL_ID_PUBLIC \<and> g \<noteq> roleid \<and> privs_of cat roleid g)" by auto
    then have "held_rights cat roleid ownerId ?items =
        (if privs_of cat roleid ownerId then ACLITEM_ALL_GOPTION_BITS else 0) OR
        (or_rights ?P ?items OR
         or_rights (\<lambda>g. g \<noteq> ACL_ID_PUBLIC \<and> g \<noteq> roleid \<and> privs_of cat roleid g) ?items)"
      unfolding held_rights_def by (simp only: or_rights_disj)
    then show ?thesis unfolding r0 by (auto simp: bit_eq_iff bit_and_iff bit_or_iff)
  qed
  show ?thesis
  proof (cases "?owner \<and> mask_known how ?r0 msk")
    case True
    then have "aclmask cat (Some acl) roleid ownerId msk how = Inr ?r0" unfolding run by (rule if_P)
    moreover have "mask_answer how ?full ?r0"
      by (rule mask_answer_known [OF conjunct2 [OF True] sub(2,3)])
    ultimately show ?thesis by blast
  next
    case no_exit: False
    from direct_pass_cases [OF sub(1), of how ?P ?items] show ?thesis
    proof (elim disjE exE conjE)
      fix r assume "direct_pass how msk ?P ?items ?r0 = Inl r" "mask_known how r msk"
        "\<forall>n. bit r n \<longrightarrow> bit ?mid n"
      then show ?thesis using mask_answer_known [of how r msk ?full] mid(1) sub(3) no_exit
        unfolding run by auto
    next
      assume "direct_pass how msk ?P ?items ?r0 = Inr ?mid"
      with indirect_pass_answer [OF hp mid(2), of how ?items] no_exit show ?thesis
        unfolding run last by auto
    qed
  qed
qed

lemma aclmask_direct_all:
  assumes ok: "acl_ok acl"
  shows "aclmask_direct (Some acl) roleid ownerId msk ACLMASK_ALL =
    Inr (msk AND direct_rights roleid ownerId (ACL_DAT acl))"
proof (cases "msk = 0")
  case True
  then show ?thesis using ok by (simp add: aclmask_direct_def acl_ok_def)
next
  case False
  let ?items = "ACL_DAT acl"
  let ?owner = "msk AND ACLITEM_ALL_GOPTION_BITS \<noteq> 0 \<and> roleid = ownerId"
  let ?r0 = "if ?owner then msk AND ACLITEM_ALL_GOPTION_BITS else 0"
  let ?full = "msk AND direct_rights roleid ownerId ?items"
  have r0: "?r0 = msk AND (if roleid = ownerId then ACLITEM_ALL_GOPTION_BITS else 0)" by auto
  have run: "aclmask_direct (Some acl) roleid ownerId msk ACLMASK_ALL =
      (if ?owner \<and> ?r0 = msk then Inr ?r0
       else case direct_pass ACLMASK_ALL msk (\<lambda>g. g = roleid) ?items ?r0 of
              Inl result \<Rightarrow> Inr result | Inr result \<Rightarrow> Inr result)"
    using False ok unfolding aclmask_direct_def acl_ok_def Let_def
    by (simp only: option.case rbind_simps if_False mask_known_def if_True simp_thms)
  have full: "?r0 OR (or_rights (\<lambda>g. g = roleid) ?items AND msk) = ?full"
    unfolding r0 direct_rights_def by (auto simp: bit_eq_iff bit_and_iff bit_or_iff)
  have le: "\<forall>n. bit ?r0 n \<longrightarrow> bit msk n" unfolding r0 by (simp add: bit_and_iff)
  have known: "r = ?full" if "r = msk" "\<forall>n. bit r n \<longrightarrow> bit ?full n" for r
    using that by (auto simp: bit_eq_iff bit_and_iff)
  have r0_full: "\<forall>n. bit ?r0 n \<longrightarrow> bit ?full n" unfolding full [symmetric] by (simp add: bit_or_iff)
  show ?thesis
  proof (cases "?owner \<and> ?r0 = msk")
    case True
    then have "aclmask_direct (Some acl) roleid ownerId msk ACLMASK_ALL = Inr ?r0"
      unfolding run by (rule if_P)
    also have "Inr ?r0 = Inr ?full" using known [OF conjunct2 [OF True] r0_full] by (rule arg_cong)
    finally show ?thesis .
  next
    case no_exit: False
    from direct_pass_cases [OF le, of ACLMASK_ALL "\<lambda>g. g = roleid" ?items]
    show ?thesis unfolding run full
      using no_exit known by (auto simp: mask_known_def)
  qed
qed

section \<open>Choosing a grantor\<close>

lemma finite_word_bits: "finite {n. bit (w :: word64) n}"
  by (rule finite_subset [of _ "{..<64}"]) (auto dest: bit64_less)

lemma card_bits_shift:
  "card {n. bit (w :: word64) n} = card {n. bit (drop_bit 1 w) n} + (if bit w 0 then 1 else 0)"
proof -
  have "{n. bit w n} = Suc ` {n. bit (drop_bit 1 w) n} \<union> (if bit w 0 then {0} else {})"
    by (auto simp: bit_drop_bit_eq image_iff gr0_conv_Suc split: if_splits) (metis not0_implies_Suc)+
  moreover have "card (Suc ` {n. bit (drop_bit 1 w) n}) = card {n. bit (drop_bit 1 w) n}"
    by (simp add: card_image)
  moreover have "card (Suc ` {n. bit (drop_bit 1 w) n} \<union> {0}) = card (Suc ` {n. bit (drop_bit 1 w) n}) + 1"
    by (subst card_Un_disjoint) (auto simp: finite_word_bits)
  ultimately show ?thesis by (simp del: card_Un_disjoint)
qed

lemma count_one_bits_card: "count_one_bits w = card {n. bit w n}"
proof -
  have "count_one_bits_loop w k = k + card {n. bit w n}" for k
  proof (induction w k rule: count_one_bits_loop.induct)
    case (1 w k)
    show ?case
    proof (cases "w = 0")
      case True
      then show ?thesis by (simp add: count_one_bits_loop.simps)
    next
      case False
      have "w AND 1 \<noteq> 0 \<longleftrightarrow> bit w 0" by (auto simp: word_neq_0_iff_bit bit_and_iff bit_1_iff)
      then show ?thesis
        using "1.IH" [OF False] False card_bits_shift [of w]
        by (subst count_one_bits_loop.simps) (auto simp del: drop_bit_Suc One_nat_def)
    qed
  qed
  then show ?thesis by (simp add: count_one_bits_def)
qed

lemma count_one_bits_mono:
  assumes "\<And>n. bit v n \<Longrightarrow> bit w n"
  shows "count_one_bits v \<le> count_one_bits w"
    and "count_one_bits v = count_one_bits w \<Longrightarrow> v = w"
proof -
  have sub: "{n. bit v n} \<subseteq> {n. bit w n}" using assms by auto
  then show "count_one_bits v \<le> count_one_bits w"
    by (simp add: count_one_bits_card card_mono finite_word_bits)
  assume "count_one_bits v = count_one_bits w"
  then have "{n. bit v n} = {n. bit w n}"
    using card_subset_eq [OF finite_word_bits sub] by (simp add: count_one_bits_card)
  then show "v = w" by (auto simp: bit_eq_iff)
qed

lemma count_one_bits_0 [simp]: "count_one_bits 0 = 0" "count_one_bits w = 0 \<longleftrightarrow> w = 0"
  by (auto simp: count_one_bits_card finite_word_bits word_eq_0_iff_bit)

lemma best_grantor_loop_spec:
  fixes ownerId :: Oid and needed :: AclMode
  assumes ok: "acl_ok acl"
  defines "opts \<equiv> \<lambda>r. needed AND direct_rights r ownerId (ACL_DAT acl)"
  assumes "sorted (map f roles)"
  shows "(best_grantor_loop (Some acl) ownerId needed roles g opts0 (count_one_bits opts0) = Inr (g, opts0) \<and>
      (\<forall>r \<in> set roles. count_one_bits (opts r) \<le> count_one_bits opts0)) \<or>
    (\<exists>g'. best_grantor_loop (Some acl) ownerId needed roles g opts0 (count_one_bits opts0) = Inr (g', opts g') \<and>
      best_of f opts roles g' \<and> (count_one_bits opts0 < count_one_bits (opts g') \<or> opts g' = needed))"
  using assms(3)
proof (induction roles arbitrary: g opts0)
  case (Cons r roles)
  have mask: "aclmask_direct (Some acl) r ownerId needed ACLMASK_ALL = Inr (opts r)"
    by (simp add: aclmask_direct_all [OF ok] opts_def)
  have near: "\<forall>x \<in> set roles. f r \<le> f x" and sorted: "sorted (map f roles)" using Cons.prems by auto
  have le: "count_one_bits (opts x) \<le> count_one_bits needed" for x
    by (rule count_one_bits_mono(1)) (simp add: opts_def bit_and_iff)
  have lt: "count_one_bits (opts r) < count_one_bits needed" if "opts r \<noteq> needed"
  proof -
    have "count_one_bits (opts r) \<noteq> count_one_bits needed"
      using that count_one_bits_mono(2) [of "opts r" needed] by (auto simp: opts_def bit_and_iff)
    with le [of r] show ?thesis by linarith
  qed
  show ?case
  proof (cases "opts r = needed")
    case True
    have "best_of f opts (r # roles) r"
      using True le near unfolding best_of_def by (metis le_neq_implies_less set_ConsD order_refl list.set_intros(1))
    then show ?thesis using True by (simp add: mask)
  next
    case False
    show ?thesis
    proof (cases "count_one_bits (opts r) > count_one_bits opts0")
      case better: True
      then have "opts r \<noteq> ACL_NO_RIGHTS" by (auto simp: ACL_NO_RIGHTS_def)
      then have step: "best_grantor_loop (Some acl) ownerId needed (r # roles) g opts0 (count_one_bits opts0) =
          best_grantor_loop (Some acl) ownerId needed roles r (opts r) (count_one_bits (opts r))"
        using False better by (simp add: mask)
      from Cons.IH [OF sorted, of r "opts r"] show ?thesis
      proof (elim disjE exE conjE)
        assume run: "best_grantor_loop (Some acl) ownerId needed roles r (opts r) (count_one_bits (opts r)) = Inr (r, opts r)"
          and "\<forall>x \<in> set roles. count_one_bits (opts x) \<le> count_one_bits (opts r)"
        then have "best_of f opts (r # roles) r"
          using near unfolding best_of_def by (metis le_neq_implies_less set_ConsD order_refl list.set_intros(1))
        then show ?thesis using run better unfolding step by blast
      qed (use better lt [OF False] in \<open>auto simp: step best_of_def simp del: best_grantor_loop.simps\<close>)
    next
      case worse: False
      then have step: "best_grantor_loop (Some acl) ownerId needed (r # roles) g opts0 (count_one_bits opts0) =
          best_grantor_loop (Some acl) ownerId needed roles g opts0 (count_one_bits opts0)"
        using False by (simp add: mask)
      from Cons.IH [OF sorted, of g opts0] show ?thesis
        unfolding step using worse lt [OF False] by (auto simp: best_of_def not_less)
    qed
  qed
qed simp

section \<open>Sorting and members\<close>

lemma qunique_loop_sorted:
  "sorted (x # xs) \<Longrightarrow> sorted (qunique_loop x xs) \<and> distinct (qunique_loop x xs) \<and>
     set (qunique_loop x xs) = insert x (set xs)"
proof (induction xs arbitrary: x)
  case (Cons y xs)
  then show ?case by (cases "y = x") (auto simp: less_le)
qed simp

lemma qunique_sorted: "sorted xs \<Longrightarrow> sorted (qunique xs) \<and> distinct (qunique xs) \<and> set (qunique xs) = set xs"
  by (cases xs) (simp_all add: qunique_loop_sorted)

lemma set_mentioned_roles:
  "set (mentioned_roles items) = (ai_grantee ` set items \<union> ai_grantor ` set items) - {ACL_ID_PUBLIC}"
  by (induction items) auto

lemma sort_unique: "mset xs = mset ys \<longleftrightarrow> sort xs = sort (ys :: 'a::linorder list)"
  by (metis mset_sort properties_for_sort sorted_sort)

section \<open>Properties\<close>

text \<open>
  C3. \<^verbatim>\<open>aclmask\<close> in mode ALL returns exactly the bits of the mask that the role holds: grant options as
  (a member of) the owner, and the rights of all items for the public, for the role, or for a role
  whose privileges it has. In mode ANY the answer is non-zero exactly when some bit of the mask is
  held, and has only held bits.
\<close>

theorem aclmask_spec:
  assumes "database_dba cat = Inr dba" and "acl_ok acl"
  shows "\<exists>r. aclmask cat (Some acl) roleid ownerId msk how = Inr r \<and>
    (case how of
       ACLMASK_ALL \<Rightarrow> r = (msk AND held_rights cat roleid ownerId (ACL_DAT acl))
     | ACLMASK_ANY \<Rightarrow> (r \<noteq> 0 \<longleftrightarrow> msk AND held_rights cat roleid ownerId (ACL_DAT acl) \<noteq> 0) \<and>
         r AND NOT (msk AND held_rights cat roleid ownerId (ACL_DAT acl)) = 0)"
  using aclmask_answer [OF assms, of roleid ownerId msk how]
  by (auto simp: mask_answer_def split: AclMaskHow.splits)

theorem aclmask_spec_witness:
  "database_dba example_catalog = Inr 102 \<and> acl_ok example_acl \<and>
   (\<exists>r. aclmask example_catalog (Some example_acl) 101 10 (ACL_SELECT OR ACL_UPDATE) ACLMASK_ALL = Inr r \<and>
      r = ((ACL_SELECT OR ACL_UPDATE) AND held_rights example_catalog 101 10 (ACL_DAT example_acl)))"
proof -
  have ok: "acl_ok example_acl" by (simp add: acl_ok_def check_acl_def example_acl_def allocacl_def)
  have "database_dba example_catalog = Inr 102"
    by (simp add: database_dba_def example_catalog_def OidIsValid_def)
  from this ok aclmask_spec [OF this ok, of 101 10 "ACL_SELECT OR ACL_UPDATE" ACLMASK_ALL]
  show ?thesis by simp
qed

text \<open>
  \<^verbatim>\<open>select_best_grantor\<close> lets the owner (or a superuser acting as the owner) grant with all needed
  options. For anyone else it returns, among the roles whose privileges the caller inherits, one
  that directly holds the largest number of the needed grant options, the nearest such role, and
  exactly the needed options that role holds.
\<close>

theorem select_best_grantor_spec:
  assumes "database_dba cat = Inr dba" and "acl_ok acl"
  shows "if roleId = ownerId \<or> superuser_arg cat roleId
    then select_best_grantor cat roleId privileges (Some acl) ownerId =
      Inr (ownerId, ACL_GRANT_OPTION_FOR privileges)
    else \<exists>g. select_best_grantor cat roleId privileges (Some acl) ownerId =
        Inr (g, needed_options acl ownerId privileges g) \<and>
      g \<in> reachable (role_succs cat ROLERECURSE_PRIVS dba) roleId \<and>
      (\<forall>r \<in> reachable (role_succs cat ROLERECURSE_PRIVS dba) roleId.
         count_one_bits (needed_options acl ownerId privileges r) <
           count_one_bits (needed_options acl ownerId privileges g) \<or>
         count_one_bits (needed_options acl ownerId privileges r) =
           count_one_bits (needed_options acl ownerId privileges g) \<and>
         hops (role_succs cat ROLERECURSE_PRIVS dba) roleId g \<le>
         hops (role_succs cat ROLERECURSE_PRIVS dba) roleId r)"
proof (cases "roleId = ownerId \<or> superuser_arg cat roleId")
  case True
  then show ?thesis by (auto simp: select_best_grantor_def)
next
  case False
  let ?f = "hops (role_succs cat ROLERECURSE_PRIVS dba) roleId"
  let ?needed = "ACL_GRANT_OPTION_FOR privileges"
  let ?opts = "needed_options acl ownerId privileges"
  from roles_is_member_of_cases [of cat roleId ROLERECURSE_PRIVS InvalidOid] assms(1) obtain l adm where
    l: "roles_is_member_of cat roleId ROLERECURSE_PRIVS InvalidOid = Inr (l, adm)"
      "l \<noteq> []" "hd l = roleId" "set l = reachable (role_succs cat ROLERECURSE_PRIVS dba) roleId"
      "sorted (map ?f l)" by auto
  have run: "select_best_grantor cat roleId privileges (Some acl) ownerId =
      best_grantor_loop (Some acl) ownerId ?needed l roleId 0 (count_one_bits 0)"
    using False by (simp add: select_best_grantor_def l(1) ACL_NO_RIGHTS_def)
  have "\<exists>g. best_grantor_loop (Some acl) ownerId ?needed l roleId 0 (count_one_bits 0) = Inr (g, ?opts g) \<and>
      best_of ?f ?opts l g"
    using best_grantor_loop_spec [OF assms(2) l(5), of ownerId ?needed roleId 0,
        folded needed_options_def]
  proof (elim disjE exE conjE)
    assume run: "best_grantor_loop (Some acl) ownerId ?needed l roleId 0 (count_one_bits 0) = Inr (roleId, 0)"
      and "\<forall>r \<in> set l. count_one_bits (?opts r) \<le> count_one_bits 0"
    then have zero: "\<forall>r \<in> set l. ?opts r = 0" by simp
    obtain t where t: "l = roleId # t" using l(2,3) by (cases l) auto
    then have "best_of ?f ?opts l roleId" using zero l(5) by (auto simp: best_of_def)
    with run zero t show ?thesis by (intro exI [of _ roleId]) simp
  qed (blast+)
  then show ?thesis using False unfolding run by (auto simp: best_of_def l(4))
qed

theorem select_best_grantor_spec_witness:
  "database_dba example_catalog = Inr 102 \<and> acl_ok example_acl \<and>
   select_best_grantor example_catalog 10 ACL_SELECT (Some example_acl) 101 =
     Inr (101, ACL_GRANT_OPTION_FOR ACL_SELECT)"
proof -
  have ok: "acl_ok example_acl" by (simp add: acl_ok_def check_acl_def example_acl_def allocacl_def)
  have dba: "database_dba example_catalog = Inr 102"
    by (simp add: database_dba_def example_catalog_def OidIsValid_def)
  have "superuser_arg example_catalog 10"
    by (simp add: superuser_arg_def superuser_lookup_def example_catalog_def)
  with dba ok select_best_grantor_spec [OF dba ok, of 10 101 ACL_SELECT] show ?thesis by simp
qed

text \<open>
  Sorting makes comparison independent of order: two lists compare as equal after
  \<^verbatim>\<open>aclitemsort\<close> exactly when they have the same items the same number of times.
\<close>

theorem aclitemsort_canonical:
  "aclequal (aclitemsort (Some a)) (aclitemsort (Some b)) \<longleftrightarrow> mset (ACL_DAT a) = mset (ACL_DAT b)"
proof -
  have dat: "ACL_DAT (the (aclitemsort (Some c))) = sort (ACL_DAT c)" "aclitemsort (Some c) \<noteq> None" for c
  proof -
    have "sort (ACL_DAT c) = ACL_DAT c" if "\<not> 1 < length (ACL_DAT c)"
      using that by (cases "ACL_DAT c" rule: remdups_adj.cases) auto
    then show "ACL_DAT (the (aclitemsort (Some c))) = sort (ACL_DAT c)" by (simp add: aclitemsort_def)
  qed (simp add: aclitemsort_def)
  have empty: "acl_is_empty (aclitemsort (Some c)) \<longleftrightarrow> ACL_DAT c = []" for c
    using dat [of c] by (auto simp: acl_is_empty_def)
  show ?thesis
    unfolding aclequal_def empty dat sort_unique [of "ACL_DAT a"] by (auto dest: arg_cong [of _ _ length])
qed

text \<open>
  \<^verbatim>\<open>aclmembers\<close> returns, sorted and without duplicates, exactly the roles that occur as grantee
  or grantor, the public placeholder excepted.
\<close>

theorem aclmembers_spec:
  assumes "acl_ok acl"
  shows "\<exists>l. aclmembers (Some acl) = Inr l \<and> sorted l \<and> distinct l \<and>
    set l = (ai_grantee ` set (ACL_DAT acl) \<union> ai_grantor ` set (ACL_DAT acl)) - {ACL_ID_PUBLIC}"
  using assms qunique_sorted [of "sort (mentioned_roles (ACL_DAT acl))"]
  by (auto simp: aclmembers_def acl_is_empty_def acl_ok_def set_mentioned_roles)

theorem aclmembers_spec_witness:
  "acl_ok example_acl \<and>
   (\<exists>l. aclmembers (Some example_acl) = Inr l \<and> sorted l \<and> distinct l \<and>
      set l = (ai_grantee ` set (ACL_DAT example_acl) \<union> ai_grantor ` set (ACL_DAT example_acl)) - {ACL_ID_PUBLIC})"
proof -
  have "acl_ok example_acl" by (simp add: acl_ok_def check_acl_def example_acl_def allocacl_def)
  with aclmembers_spec [OF this] show ?thesis by blast
qed

text \<open>
  The built-in default list of an object gives every role the public default of its type, gives
  those with the privileges of the owner all rights of the type and all grant options, and grants
  nothing else.
\<close>

theorem acldefault_rights:
  assumes "database_dba cat = Inr dba" and "default_rights objtype = Inr (world, owner)"
  shows "\<exists>acl. acldefault objtype ownerId = Inr acl \<and>
    aclmask cat (Some acl) roleid ownerId msk ACLMASK_ALL =
      Inr (msk AND (world OR (if privs_of cat roleid ownerId \<or> ownerId = ACL_ID_PUBLIC
                              then owner else 0) OR
                    (if privs_of cat roleid ownerId then ACLITEM_ALL_GOPTION_BITS else 0)))"
proof -
  let ?acl = "allocacl
            ((if world \<noteq> ACL_NO_RIGHTS
              then [AclItem ACL_ID_PUBLIC ownerId (PRIVS_GOPTIONS world ACL_NO_RIGHTS)] else []) @
             (if owner \<noteq> ACL_NO_RIGHTS
              then [AclItem ownerId ownerId (PRIVS_GOPTIONS owner ACL_NO_RIGHTS)] else []))"
  have "acl_ok ?acl" by (simp add: acl_ok_def check_acl_def allocacl_def)
  from aclmask_answer [OF assms(1) this, of roleid ownerId msk ACLMASK_ALL]
  have "aclmask cat (Some ?acl) roleid ownerId msk ACLMASK_ALL =
      Inr (msk AND held_rights cat roleid ownerId (ACL_DAT ?acl))" by (auto simp: mask_answer_def)
  moreover have "PRIVS_GOPTIONS world ACL_NO_RIGHTS = world" "PRIVS_GOPTIONS owner ACL_NO_RIGHTS = owner"
    using assms(2)
    by (auto simp: default_rights_def PRIVS_GOPTIONS_def acl_bit_defs acl_all_rights_defs
        split: ObjectType.splits)
  then have "held_rights cat roleid ownerId (ACL_DAT ?acl) =
      world OR (if privs_of cat roleid ownerId \<or> ownerId = ACL_ID_PUBLIC then owner else 0) OR
      (if privs_of cat roleid ownerId then ACLITEM_ALL_GOPTION_BITS else 0)"
    by (auto simp: held_rights_def allocacl_def ACL_NO_RIGHTS_def ac_simps)
  moreover have "acldefault objtype ownerId = Inr ?acl" by (simp add: acldefault_def assms(2))
  ultimately show ?thesis by (intro exI [of _ ?acl]) simp
qed

theorem acldefault_rights_witness:
  "database_dba example_catalog = Inr 102 \<and>
   default_rights OBJECT_TABLE = Inr (ACL_NO_RIGHTS, ACL_ALL_RIGHTS_RELATION) \<and>
   (\<exists>acl. acldefault OBJECT_TABLE 10 = Inr acl)"
proof -
  have dba: "database_dba example_catalog = Inr 102"
    by (simp add: database_dba_def example_catalog_def OidIsValid_def)
  have def_: "default_rights OBJECT_TABLE = Inr (ACL_NO_RIGHTS, ACL_ALL_RIGHTS_RELATION)"
    by (simp add: default_rights_def)
  from dba def_ acldefault_rights [OF dba def_, of 10] show ?thesis by blast
qed

end
