(* ===== verification/ObjectAcl.thy ===== *)
theory ObjectAcl
  imports Acl
begin

unbundle bit_operations_syntax

text \<open>
  Privileges on catalog objects: the routines of \<^verbatim>\<open>src/postgres/src/backend/catalog/aclchk.c\<close> that look up the
  owner and the access control list of an object and apply \<^verbatim>\<open>aclmask\<close> to them, with the special rules for
  superusers, system catalogs, temporary schemas, array types and the roles \<^verbatim>\<open>pg_read_all_data\<close> and
  \<^verbatim>\<open>pg_write_all_data\<close>, and the standard error reports.

  A catalog is the rows that the system caches return. The lemmas say which rights each routine
  returns in mode ALL, as a mask of the rights that the role has on the object, and when it is non-zero
  in mode ANY.
\<close>

section \<open>Catalog rows\<close>

datatype AclResult = ACLCHECK_OK | ACLCHECK_NO_PRIV | ACLCHECK_NOT_OWNER

record pg_class_row =
  relname :: string
  relnamespace :: Oid
  relowner :: Oid
  relkind :: char
  relnatts :: int
  relacl :: "Acl option"

record pg_attribute_row =
  attname :: string
  attisdropped :: bool
  attacl :: "Acl option"

record pg_type_row =
  typname :: string
  typtype :: char
  typowner :: Oid
  typelem :: Oid
  typsubscript :: Oid
  typacl :: "Acl option"

record parameter_acl_row =
  par_oid :: Oid
  parname :: string
  paracl :: "Acl option"

text \<open>
  The other catalogs with an access control list have rows with an owner, a name and a list;
  \<^verbatim>\<open>lanpltrusted\<close> is a field of the rows for languages.
\<close>

record object_row =
  obj_name :: string
  obj_owner :: Oid
  obj_acl :: "Acl option"
  lanpltrusted :: bool

record system_catalog =
  role_cat :: role_catalog
  RELOID :: "Oid \<Rightarrow> pg_class_row option"
  ATTNUM :: "Oid \<Rightarrow> int \<Rightarrow> pg_attribute_row option"
  TYPEOID :: "Oid \<Rightarrow> pg_type_row option"
  pg_parameter_acl :: "parameter_acl_row list"
  object_cache :: "Oid \<Rightarrow> Oid \<Rightarrow> object_row option"
  myTempNamespace :: Oid
  myTempToastNamespace :: Oid

definition TypeRelationId :: Oid where "TypeRelationId = 1247"
definition ProcedureRelationId :: Oid where "ProcedureRelationId = 1255"
definition RelationRelationId :: Oid where "RelationRelationId = 1259"
definition DatabaseRelationId :: Oid where "DatabaseRelationId = 1262"
definition TableSpaceRelationId :: Oid where "TableSpaceRelationId = 1213"
definition ForeignServerRelationId :: Oid where "ForeignServerRelationId = 1417"
definition ForeignDataWrapperRelationId :: Oid where "ForeignDataWrapperRelationId = 2328"
definition LanguageRelationId :: Oid where "LanguageRelationId = 2612"
definition NamespaceRelationId :: Oid where "NamespaceRelationId = 2615"
definition LargeObjectMetadataRelationId :: Oid where "LargeObjectMetadataRelationId = 2995"

definition ROLE_PG_READ_ALL_DATA :: Oid where "ROLE_PG_READ_ALL_DATA = 6181"
definition ROLE_PG_WRITE_ALL_DATA :: Oid where "ROLE_PG_WRITE_ALL_DATA = 6182"
definition PG_TOAST_NAMESPACE :: Oid where "PG_TOAST_NAMESPACE = 99"
definition FirstUnpinnedObjectId :: Oid where "FirstUnpinnedObjectId = 12000"
definition F_ARRAY_SUBSCRIPT_HANDLER :: Oid where "F_ARRAY_SUBSCRIPT_HANDLER = 6179"

definition RELKIND_RELATION :: char where "RELKIND_RELATION = CHR ''r''"
definition RELKIND_INDEX :: char where "RELKIND_INDEX = CHR ''i''"
definition RELKIND_SEQUENCE :: char where "RELKIND_SEQUENCE = CHR ''S''"
definition RELKIND_TOASTVALUE :: char where "RELKIND_TOASTVALUE = CHR ''t''"
definition RELKIND_VIEW :: char where "RELKIND_VIEW = CHR ''v''"
definition RELKIND_MATVIEW :: char where "RELKIND_MATVIEW = CHR ''m''"
definition RELKIND_COMPOSITE_TYPE :: char where "RELKIND_COMPOSITE_TYPE = CHR ''c''"
definition RELKIND_FOREIGN_TABLE :: char where "RELKIND_FOREIGN_TABLE = CHR ''f''"
definition RELKIND_PARTITIONED_TABLE :: char where "RELKIND_PARTITIONED_TABLE = CHR ''p''"
definition RELKIND_PARTITIONED_INDEX :: char where "RELKIND_PARTITIONED_INDEX = CHR ''I''"

section \<open>System relations\<close>

definition isTempNamespace :: "system_catalog \<Rightarrow> Oid \<Rightarrow> bool" where
  "isTempNamespace cat namespaceId \<longleftrightarrow>
     OidIsValid (myTempNamespace cat) \<and> myTempNamespace cat = namespaceId"

definition isTempToastNamespace :: "system_catalog \<Rightarrow> Oid \<Rightarrow> bool" where
  "isTempToastNamespace cat namespaceId \<longleftrightarrow>
     OidIsValid (myTempToastNamespace cat) \<and> myTempToastNamespace cat = namespaceId"

definition IsToastNamespace :: "system_catalog \<Rightarrow> Oid \<Rightarrow> bool" where
  "IsToastNamespace cat namespaceId \<longleftrightarrow>
     namespaceId = PG_TOAST_NAMESPACE \<or> isTempToastNamespace cat namespaceId"

definition IsToastClass :: "system_catalog \<Rightarrow> pg_class_row \<Rightarrow> bool" where
  "IsToastClass cat reltuple = IsToastNamespace cat (relnamespace reltuple)"

definition IsCatalogRelationOid :: "Oid \<Rightarrow> bool" where
  "IsCatalogRelationOid relid \<longleftrightarrow> relid < FirstUnpinnedObjectId"

definition IsSystemClass :: "system_catalog \<Rightarrow> Oid \<Rightarrow> pg_class_row \<Rightarrow> bool" where
  "IsSystemClass cat relid reltuple \<longleftrightarrow> IsCatalogRelationOid relid \<or> IsToastClass cat reltuple"

definition get_relkind_objtype :: "char \<Rightarrow> ObjectType" where
  "get_relkind_objtype kind =
     (if kind = RELKIND_RELATION \<or> kind = RELKIND_PARTITIONED_TABLE then OBJECT_TABLE
      else if kind = RELKIND_INDEX \<or> kind = RELKIND_PARTITIONED_INDEX then OBJECT_INDEX
      else if kind = RELKIND_SEQUENCE then OBJECT_SEQUENCE
      else if kind = RELKIND_VIEW then OBJECT_VIEW
      else if kind = RELKIND_MATVIEW then OBJECT_MATVIEW
      else if kind = RELKIND_FOREIGN_TABLE then OBJECT_FOREIGN_TABLE
      else OBJECT_TABLE)"

definition get_rel_relkind :: "system_catalog \<Rightarrow> Oid \<Rightarrow> char" where
  "get_rel_relkind cat relid = (case RELOID cat relid of Some rel \<Rightarrow> relkind rel | None \<Rightarrow> CHR 0x00)"

definition get_rel_name :: "system_catalog \<Rightarrow> Oid \<Rightarrow> string option" where
  "get_rel_name cat relid = map_option relname (RELOID cat relid)"

section \<open>Error reports\<close>

text \<open>The messages of the two switches, as format strings; \<open>None\<close> is an unsupported object type.\<close>

definition no_priv_msg :: "ObjectType \<Rightarrow> string option" where
  "no_priv_msg objtype =
     (case objtype of
        OBJECT_AGGREGATE \<Rightarrow> Some ''permission denied for aggregate %s''
      | OBJECT_COLLATION \<Rightarrow> Some ''permission denied for collation %s''
      | OBJECT_COLUMN \<Rightarrow> Some ''permission denied for column %s''
      | OBJECT_CONVERSION \<Rightarrow> Some ''permission denied for conversion %s''
      | OBJECT_DATABASE \<Rightarrow> Some ''permission denied for database %s''
      | OBJECT_DOMAIN \<Rightarrow> Some ''permission denied for domain %s''
      | OBJECT_EVENT_TRIGGER \<Rightarrow> Some ''permission denied for event trigger %s''
      | OBJECT_EXTENSION \<Rightarrow> Some ''permission denied for extension %s''
      | OBJECT_FDW \<Rightarrow> Some ''permission denied for foreign-data wrapper %s''
      | OBJECT_FOREIGN_SERVER \<Rightarrow> Some ''permission denied for foreign server %s''
      | OBJECT_FOREIGN_TABLE \<Rightarrow> Some ''permission denied for foreign table %s''
      | OBJECT_FUNCTION \<Rightarrow> Some ''permission denied for function %s''
      | OBJECT_INDEX \<Rightarrow> Some ''permission denied for index %s''
      | OBJECT_LANGUAGE \<Rightarrow> Some ''permission denied for language %s''
      | OBJECT_LARGEOBJECT \<Rightarrow> Some ''permission denied for large object %s''
      | OBJECT_MATVIEW \<Rightarrow> Some ''permission denied for materialized view %s''
      | OBJECT_OPCLASS \<Rightarrow> Some ''permission denied for operator class %s''
      | OBJECT_OPERATOR \<Rightarrow> Some ''permission denied for operator %s''
      | OBJECT_OPFAMILY \<Rightarrow> Some ''permission denied for operator family %s''
      | OBJECT_PARAMETER_ACL \<Rightarrow> Some ''permission denied for parameter %s''
      | OBJECT_POLICY \<Rightarrow> Some ''permission denied for policy %s''
      | OBJECT_PROCEDURE \<Rightarrow> Some ''permission denied for procedure %s''
      | OBJECT_PUBLICATION \<Rightarrow> Some ''permission denied for publication %s''
      | OBJECT_ROUTINE \<Rightarrow> Some ''permission denied for routine %s''
      | OBJECT_SCHEMA \<Rightarrow> Some ''permission denied for schema %s''
      | OBJECT_SEQUENCE \<Rightarrow> Some ''permission denied for sequence %s''
      | OBJECT_STATISTIC_EXT \<Rightarrow> Some ''permission denied for statistics object %s''
      | OBJECT_SUBSCRIPTION \<Rightarrow> Some ''permission denied for subscription %s''
      | OBJECT_TABLE \<Rightarrow> Some ''permission denied for table %s''
      | OBJECT_TABLESPACE \<Rightarrow> Some ''permission denied for tablespace %s''
      | OBJECT_TSCONFIGURATION \<Rightarrow> Some ''permission denied for text search configuration %s''
      | OBJECT_TSDICTIONARY \<Rightarrow> Some ''permission denied for text search dictionary %s''
      | OBJECT_TYPE \<Rightarrow> Some ''permission denied for type %s''
      | OBJECT_VIEW \<Rightarrow> Some ''permission denied for view %s''
      | _ \<Rightarrow> None)"

definition not_owner_msg :: "ObjectType \<Rightarrow> string option" where
  "not_owner_msg objtype =
     (case objtype of
        OBJECT_AGGREGATE \<Rightarrow> Some ''must be owner of aggregate %s''
      | OBJECT_COLLATION \<Rightarrow> Some ''must be owner of collation %s''
      | OBJECT_CONVERSION \<Rightarrow> Some ''must be owner of conversion %s''
      | OBJECT_DATABASE \<Rightarrow> Some ''must be owner of database %s''
      | OBJECT_DOMAIN \<Rightarrow> Some ''must be owner of domain %s''
      | OBJECT_EVENT_TRIGGER \<Rightarrow> Some ''must be owner of event trigger %s''
      | OBJECT_EXTENSION \<Rightarrow> Some ''must be owner of extension %s''
      | OBJECT_FDW \<Rightarrow> Some ''must be owner of foreign-data wrapper %s''
      | OBJECT_FOREIGN_SERVER \<Rightarrow> Some ''must be owner of foreign server %s''
      | OBJECT_FOREIGN_TABLE \<Rightarrow> Some ''must be owner of foreign table %s''
      | OBJECT_FUNCTION \<Rightarrow> Some ''must be owner of function %s''
      | OBJECT_INDEX \<Rightarrow> Some ''must be owner of index %s''
      | OBJECT_LANGUAGE \<Rightarrow> Some ''must be owner of language %s''
      | OBJECT_LARGEOBJECT \<Rightarrow> Some ''must be owner of large object %s''
      | OBJECT_MATVIEW \<Rightarrow> Some ''must be owner of materialized view %s''
      | OBJECT_OPCLASS \<Rightarrow> Some ''must be owner of operator class %s''
      | OBJECT_OPERATOR \<Rightarrow> Some ''must be owner of operator %s''
      | OBJECT_OPFAMILY \<Rightarrow> Some ''must be owner of operator family %s''
      | OBJECT_PROCEDURE \<Rightarrow> Some ''must be owner of procedure %s''
      | OBJECT_PUBLICATION \<Rightarrow> Some ''must be owner of publication %s''
      | OBJECT_ROUTINE \<Rightarrow> Some ''must be owner of routine %s''
      | OBJECT_SEQUENCE \<Rightarrow> Some ''must be owner of sequence %s''
      | OBJECT_SUBSCRIPTION \<Rightarrow> Some ''must be owner of subscription %s''
      | OBJECT_TABLE \<Rightarrow> Some ''must be owner of table %s''
      | OBJECT_TYPE \<Rightarrow> Some ''must be owner of type %s''
      | OBJECT_VIEW \<Rightarrow> Some ''must be owner of view %s''
      | OBJECT_SCHEMA \<Rightarrow> Some ''must be owner of schema %s''
      | OBJECT_STATISTIC_EXT \<Rightarrow> Some ''must be owner of statistics object %s''
      | OBJECT_TABLESPACE \<Rightarrow> Some ''must be owner of tablespace %s''
      | OBJECT_TSCONFIGURATION \<Rightarrow> Some ''must be owner of text search configuration %s''
      | OBJECT_TSDICTIONARY \<Rightarrow> Some ''must be owner of text search dictionary %s''
      | OBJECT_COLUMN \<Rightarrow> Some ''must be owner of relation %s''
      | OBJECT_POLICY \<Rightarrow> Some ''must be owner of relation %s''
      | OBJECT_RULE \<Rightarrow> Some ''must be owner of relation %s''
      | OBJECT_TABCONSTRAINT \<Rightarrow> Some ''must be owner of relation %s''
      | OBJECT_TRIGGER \<Rightarrow> Some ''must be owner of relation %s''
      | _ \<Rightarrow> None)"

definition aclcheck_error :: "AclResult \<Rightarrow> ObjectType \<Rightarrow> unit pg_result" where
  "aclcheck_error aclerr objtype =
     (case aclerr of
        ACLCHECK_OK \<Rightarrow> Inr ()
      | ACLCHECK_NO_PRIV \<Rightarrow>
          (case no_priv_msg objtype of
             Some msg \<Rightarrow> ereport_error ''ERRCODE_INSUFFICIENT_PRIVILEGE'' msg
           | None \<Rightarrow> elog_error ''unsupported object type: %d'')
      | ACLCHECK_NOT_OWNER \<Rightarrow>
          (case not_owner_msg objtype of
             Some msg \<Rightarrow> ereport_error ''ERRCODE_INSUFFICIENT_PRIVILEGE'' msg
           | None \<Rightarrow> elog_error ''unsupported object type: %d''))"

definition aclcheck_error_col :: "AclResult \<Rightarrow> ObjectType \<Rightarrow> unit pg_result" where
  "aclcheck_error_col aclerr objtype =
     (case aclerr of
        ACLCHECK_OK \<Rightarrow> Inr ()
      | ACLCHECK_NO_PRIV \<Rightarrow>
          ereport_error ''ERRCODE_INSUFFICIENT_PRIVILEGE''
            (''permission denied for column '' @ [CHR 0x22] @ ''%s'' @ [CHR 0x22] @ '' of relation '' @
             [CHR 0x22] @ ''%s'' @ [CHR 0x22])
      | ACLCHECK_NOT_OWNER \<Rightarrow> aclcheck_error aclerr objtype)"

section \<open>Looking up privileges\<close>

text \<open>The list of an object, or the built-in default for its type when it has none.\<close>

definition acl_or_default :: "ObjectType \<Rightarrow> Oid \<Rightarrow> Acl option \<Rightarrow> Acl pg_result" where
  "acl_or_default objtype ownerId acl = (case acl of None \<Rightarrow> acldefault objtype ownerId | Some a \<Rightarrow> Inr a)"

definition list_aclmask ::
  "system_catalog \<Rightarrow> ObjectType \<Rightarrow> Oid \<Rightarrow> Acl option \<Rightarrow> Oid \<Rightarrow> AclMode \<Rightarrow> AclMaskHow \<Rightarrow> AclMode pg_result" where
  "list_aclmask cat objtype ownerId acl roleid msk how =
     rbind (acl_or_default objtype ownerId acl) (\<lambda>a. aclmask (role_cat cat) (Some a) roleid ownerId msk how)"

text \<open>The entries of \<^verbatim>\<open>ObjectProperty\<close> for the catalogs that have an access control list.\<close>

definition get_object_type :: "Oid \<Rightarrow> ObjectType pg_result" where
  "get_object_type class_id =
     (if class_id = DatabaseRelationId then Inr OBJECT_DATABASE
      else if class_id = ForeignDataWrapperRelationId then Inr OBJECT_FDW
      else if class_id = ForeignServerRelationId then Inr OBJECT_FOREIGN_SERVER
      else if class_id = ProcedureRelationId then Inr OBJECT_FUNCTION
      else if class_id = LanguageRelationId then Inr OBJECT_LANGUAGE
      else if class_id = TableSpaceRelationId then Inr OBJECT_TABLESPACE
      else if class_id = NamespaceRelationId then Inr OBJECT_SCHEMA
      else if class_id = TypeRelationId then Inr OBJECT_TYPE
      else elog_error ''unrecognized class ID: %u'')"

text \<open>\<^verbatim>\<open>object_aclmask\<close> after its special cases.\<close>

definition catalog_aclmask ::
  "system_catalog \<Rightarrow> Oid \<Rightarrow> Oid \<Rightarrow> Oid \<Rightarrow> AclMode \<Rightarrow> AclMaskHow \<Rightarrow> AclMode pg_result" where
  "catalog_aclmask cat classid objectid roleid msk how =
     (if superuser_arg (role_cat cat) roleid then Inr msk
      else rbind (get_object_type classid) (\<lambda>objtype.
             case object_cache cat classid objectid of
               None \<Rightarrow> ereport_error ''ERRCODE_UNDEFINED_DATABASE'' ''%s with OID %u does not exist''
             | Some obj \<Rightarrow> list_aclmask cat objtype (obj_owner obj) (obj_acl obj) roleid msk how))"

definition pg_namespace_aclmask ::
  "system_catalog \<Rightarrow> Oid \<Rightarrow> Oid \<Rightarrow> AclMode \<Rightarrow> AclMaskHow \<Rightarrow> AclMode pg_result" where
  "pg_namespace_aclmask cat nsp_oid roleid msk how =
     (if superuser_arg (role_cat cat) roleid then Inr msk
      else if isTempNamespace cat nsp_oid
      then rbind (catalog_aclmask cat DatabaseRelationId (MyDatabaseId (role_cat cat)) roleid ACL_CREATE_TEMP ACLMASK_ANY)
             (\<lambda>temp. Inr (if temp \<noteq> 0 then msk AND ACL_ALL_RIGHTS_SCHEMA else msk AND ACL_USAGE))
      else case object_cache cat NamespaceRelationId nsp_oid of
             None \<Rightarrow> ereport_error ''ERRCODE_UNDEFINED_SCHEMA'' ''schema with OID %u does not exist''
           | Some nsp \<Rightarrow>
               rbind (list_aclmask cat OBJECT_SCHEMA (obj_owner nsp) (obj_acl nsp) roleid msk how) (\<lambda>result.
                 if msk AND ACL_USAGE \<noteq> 0 \<and> result AND ACL_USAGE = 0
                 then rbind (has_privs_of_role (role_cat cat) roleid ROLE_PG_READ_ALL_DATA) (\<lambda>read_all.
                        if read_all then Inr (result OR ACL_USAGE)
                        else rbind (has_privs_of_role (role_cat cat) roleid ROLE_PG_WRITE_ALL_DATA) (\<lambda>write_all.
                               Inr (if write_all then result OR ACL_USAGE else result)))
                 else Inr result))"

definition IsTrueArrayType :: "pg_type_row \<Rightarrow> bool" where
  "IsTrueArrayType typeForm \<longleftrightarrow>
     OidIsValid (typelem typeForm) \<and> typsubscript typeForm = F_ARRAY_SUBSCRIPT_HANDLER"

definition pg_type_aclmask ::
  "system_catalog \<Rightarrow> Oid \<Rightarrow> Oid \<Rightarrow> AclMode \<Rightarrow> AclMaskHow \<Rightarrow> AclMode pg_result" where
  "pg_type_aclmask cat type_oid roleid msk how =
     (if superuser_arg (role_cat cat) roleid then Inr msk
      else case TYPEOID cat type_oid of
             None \<Rightarrow> ereport_error ''ERRCODE_UNDEFINED_OBJECT'' ''type with OID %u does not exist''
           | Some typ \<Rightarrow>
               rbind (if IsTrueArrayType typ
                      then (case TYPEOID cat (typelem typ) of
                              None \<Rightarrow> elog_error ''cache lookup failed for type %u''
                            | Some elt \<Rightarrow> Inr elt)
                      else Inr typ)
                 (\<lambda>typeForm. list_aclmask cat OBJECT_TYPE (typowner typeForm) (typacl typeForm) roleid msk how))"

definition object_aclmask ::
  "system_catalog \<Rightarrow> Oid \<Rightarrow> Oid \<Rightarrow> Oid \<Rightarrow> AclMode \<Rightarrow> AclMaskHow \<Rightarrow> AclMode pg_result" where
  "object_aclmask cat classid objectid roleid msk how =
     (if classid = NamespaceRelationId then pg_namespace_aclmask cat objectid roleid msk how
      else if classid = TypeRelationId then pg_type_aclmask cat objectid roleid msk how
      else catalog_aclmask cat classid objectid roleid msk how)"

text \<open>
  The \<^verbatim>\<open>_ext\<close> routines return an error for a missing object, or the flag \<^verbatim>\<open>*is_missing\<close> when the caller passed
  an address for it.
\<close>

definition pg_attribute_aclmask_ext ::
  "system_catalog \<Rightarrow> Oid \<Rightarrow> int \<Rightarrow> Oid \<Rightarrow> AclMode \<Rightarrow> AclMaskHow \<Rightarrow> bool \<Rightarrow> (AclMode \<times> bool) pg_result" where
  "pg_attribute_aclmask_ext cat table_oid attnum roleid msk how missing_ok =
     (let missing = (if missing_ok then Inr (0, True)
                     else ereport_error ''ERRCODE_UNDEFINED_COLUMN'' ''attribute %d of relation with OID %u does not exist'')
      in case ATTNUM cat table_oid attnum of
           None \<Rightarrow> missing
         | Some att \<Rightarrow>
             if attisdropped att then missing
             else case attacl att of
                    None \<Rightarrow> Inr (0, False)
                  | Some acl \<Rightarrow>
                      (case RELOID cat table_oid of
                         None \<Rightarrow> Inr (0, False)
                       | Some rel \<Rightarrow>
                           rbind (aclmask (role_cat cat) (Some acl) roleid (relowner rel) msk how)
                             (\<lambda>result. Inr (result, False))))"

definition pg_attribute_aclmask ::
  "system_catalog \<Rightarrow> Oid \<Rightarrow> int \<Rightarrow> Oid \<Rightarrow> AclMode \<Rightarrow> AclMaskHow \<Rightarrow> AclMode pg_result" where
  "pg_attribute_aclmask cat table_oid attnum roleid msk how =
     rbind (pg_attribute_aclmask_ext cat table_oid attnum roleid msk how False) (\<lambda>(result, _). Inr result)"

definition WRITE_RIGHTS :: AclMode where
  "WRITE_RIGHTS = ACL_INSERT OR ACL_UPDATE OR ACL_DELETE"

definition SYSTEM_RIGHTS :: AclMode where
  "SYSTEM_RIGHTS = ACL_INSERT OR ACL_UPDATE OR ACL_DELETE OR ACL_TRUNCATE OR ACL_USAGE"

definition class_objtype :: "pg_class_row \<Rightarrow> ObjectType" where
  "class_objtype rel = (if relkind rel = RELKIND_SEQUENCE then OBJECT_SEQUENCE else OBJECT_TABLE)"

text \<open>The privileges of the two predefined roles, added to what the list gives.\<close>

definition add_read_all :: "role_catalog \<Rightarrow> Oid \<Rightarrow> AclMode \<Rightarrow> AclMode \<Rightarrow> AclMode pg_result" where
  "add_read_all roles roleid msk result =
     (if msk AND ACL_SELECT \<noteq> 0 \<and> result AND ACL_SELECT = 0
      then rbind (has_privs_of_role roles roleid ROLE_PG_READ_ALL_DATA)
             (\<lambda>b. Inr (if b then result OR ACL_SELECT else result))
      else Inr result)"

definition add_write_all :: "role_catalog \<Rightarrow> Oid \<Rightarrow> AclMode \<Rightarrow> AclMode \<Rightarrow> AclMode pg_result" where
  "add_write_all roles roleid msk result =
     (if msk AND WRITE_RIGHTS \<noteq> 0 \<and> result AND WRITE_RIGHTS = 0
      then rbind (has_privs_of_role roles roleid ROLE_PG_WRITE_ALL_DATA)
             (\<lambda>b. Inr (if b then result OR (msk AND WRITE_RIGHTS) else result))
      else Inr result)"

definition pg_class_aclmask_ext ::
  "system_catalog \<Rightarrow> Oid \<Rightarrow> Oid \<Rightarrow> AclMode \<Rightarrow> AclMaskHow \<Rightarrow> bool \<Rightarrow> (AclMode \<times> bool) pg_result" where
  "pg_class_aclmask_ext cat table_oid roleid msk how missing_ok =
     (case RELOID cat table_oid of
        None \<Rightarrow> (if missing_ok then Inr (0, True)
                 else ereport_error ''ERRCODE_UNDEFINED_TABLE'' ''relation with OID %u does not exist'')
      | Some rel \<Rightarrow>
          (let msk1 = (if msk AND SYSTEM_RIGHTS \<noteq> 0 \<and> IsSystemClass cat table_oid rel \<and>
                          relkind rel \<noteq> RELKIND_VIEW \<and> \<not> superuser_arg (role_cat cat) roleid
                       then msk AND NOT SYSTEM_RIGHTS else msk)
           in if superuser_arg (role_cat cat) roleid then Inr (msk1, False)
              else rbind (list_aclmask cat (class_objtype rel) (relowner rel) (relacl rel) roleid msk1 how) (\<lambda>result.
                   rbind (add_read_all (role_cat cat) roleid msk1 result) (\<lambda>result.
                   rbind (add_write_all (role_cat cat) roleid msk1 result) (\<lambda>result. Inr (result, False))))))"

definition pg_class_aclmask ::
  "system_catalog \<Rightarrow> Oid \<Rightarrow> Oid \<Rightarrow> AclMode \<Rightarrow> AclMaskHow \<Rightarrow> AclMode pg_result" where
  "pg_class_aclmask cat table_oid roleid msk how =
     rbind (pg_class_aclmask_ext cat table_oid roleid msk how False) (\<lambda>(result, _). Inr result)"

text \<open>Names of configuration parameters: letters are compared and stored in lower case.\<close>

definition ascii_lower :: "char \<Rightarrow> char" where
  "ascii_lower ch = (if of_char ch \<ge> (65 :: nat) \<and> of_char ch \<le> (90 :: nat) then char_of (of_char ch + 32 :: nat) else ch)"

definition guc_name_equal :: "string \<Rightarrow> string \<Rightarrow> bool" where
  "guc_name_equal namea nameb \<longleftrightarrow> map ascii_lower namea = map ascii_lower nameb"

definition map_old_guc_names :: "(string \<times> string) list" where
  "map_old_guc_names = [(''sort_mem'', ''work_mem''), (''vacuum_mem'', ''maintenance_work_mem'')]"

definition convert_GUC_name_for_parameter_acl :: "string \<Rightarrow> string" where
  "convert_GUC_name_for_parameter_acl nm =
     map ascii_lower (case find (\<lambda>(old, _). guc_name_equal nm old) map_old_guc_names of
                        None \<Rightarrow> nm | Some (_, new) \<Rightarrow> new)"

definition pg_parameter_aclmask ::
  "system_catalog \<Rightarrow> string \<Rightarrow> Oid \<Rightarrow> AclMode \<Rightarrow> AclMaskHow \<Rightarrow> AclMode pg_result" where
  "pg_parameter_aclmask cat nm roleid msk how =
     (if superuser_arg (role_cat cat) roleid then Inr msk
      else case find (\<lambda>par. parname par = convert_GUC_name_for_parameter_acl nm) (pg_parameter_acl cat) of
             None \<Rightarrow> Inr ACL_NO_RIGHTS
           | Some par \<Rightarrow> list_aclmask cat OBJECT_PARAMETER_ACL BOOTSTRAP_SUPERUSERID (paracl par) roleid msk how)"

definition pg_parameter_acl_aclmask ::
  "system_catalog \<Rightarrow> Oid \<Rightarrow> Oid \<Rightarrow> AclMode \<Rightarrow> AclMaskHow \<Rightarrow> AclMode pg_result" where
  "pg_parameter_acl_aclmask cat acl_oid roleid msk how =
     (if superuser_arg (role_cat cat) roleid then Inr msk
      else case find (\<lambda>par. par_oid par = acl_oid) (pg_parameter_acl cat) of
             None \<Rightarrow> ereport_error ''ERRCODE_UNDEFINED_OBJECT'' ''parameter ACL with OID %u does not exist''
           | Some par \<Rightarrow> list_aclmask cat OBJECT_PARAMETER_ACL BOOTSTRAP_SUPERUSERID (paracl par) roleid msk how)"

definition pg_largeobject_aclmask_snapshot ::
  "system_catalog \<Rightarrow> Oid \<Rightarrow> Oid \<Rightarrow> AclMode \<Rightarrow> AclMaskHow \<Rightarrow> AclMode pg_result" where
  "pg_largeobject_aclmask_snapshot cat lobj_oid roleid msk how =
     (if superuser_arg (role_cat cat) roleid then Inr msk
      else case object_cache cat LargeObjectMetadataRelationId lobj_oid of
             None \<Rightarrow> ereport_error ''ERRCODE_UNDEFINED_OBJECT'' ''large object %u does not exist''
           | Some obj \<Rightarrow> list_aclmask cat OBJECT_LARGEOBJECT (obj_owner obj) (obj_acl obj) roleid msk how)"

definition pg_aclmask ::
  "system_catalog \<Rightarrow> ObjectType \<Rightarrow> Oid \<Rightarrow> int \<Rightarrow> Oid \<Rightarrow> AclMode \<Rightarrow> AclMaskHow \<Rightarrow> AclMode pg_result" where
  "pg_aclmask cat objtype object_oid attnum roleid msk how =
     (case objtype of
        OBJECT_COLUMN \<Rightarrow>
          rbind (pg_class_aclmask cat object_oid roleid msk how) (\<lambda>r1.
          rbind (pg_attribute_aclmask cat object_oid attnum roleid msk how) (\<lambda>r2. Inr (r1 OR r2)))
      | OBJECT_TABLE \<Rightarrow> pg_class_aclmask cat object_oid roleid msk how
      | OBJECT_SEQUENCE \<Rightarrow> pg_class_aclmask cat object_oid roleid msk how
      | OBJECT_DATABASE \<Rightarrow> object_aclmask cat DatabaseRelationId object_oid roleid msk how
      | OBJECT_FUNCTION \<Rightarrow> object_aclmask cat ProcedureRelationId object_oid roleid msk how
      | OBJECT_LANGUAGE \<Rightarrow> object_aclmask cat LanguageRelationId object_oid roleid msk how
      | OBJECT_LARGEOBJECT \<Rightarrow> pg_largeobject_aclmask_snapshot cat object_oid roleid msk how
      | OBJECT_PARAMETER_ACL \<Rightarrow> pg_parameter_acl_aclmask cat object_oid roleid msk how
      | OBJECT_SCHEMA \<Rightarrow> object_aclmask cat NamespaceRelationId object_oid roleid msk how
      | OBJECT_STATISTIC_EXT \<Rightarrow> elog_error ''grantable rights not supported for statistics objects''
      | OBJECT_TABLESPACE \<Rightarrow> object_aclmask cat TableSpaceRelationId object_oid roleid msk how
      | OBJECT_FDW \<Rightarrow> object_aclmask cat ForeignDataWrapperRelationId object_oid roleid msk how
      | OBJECT_FOREIGN_SERVER \<Rightarrow> object_aclmask cat ForeignServerRelationId object_oid roleid msk how
      | OBJECT_EVENT_TRIGGER \<Rightarrow> elog_error ''grantable rights not supported for event triggers''
      | OBJECT_TYPE \<Rightarrow> object_aclmask cat TypeRelationId object_oid roleid msk how
      | _ \<Rightarrow> elog_error ''unrecognized object type: %d'')"

section \<open>Checks\<close>

definition check_result :: "AclMode pg_result \<Rightarrow> AclResult pg_result" where
  "check_result m = rbind m (\<lambda>r. Inr (if r \<noteq> 0 then ACLCHECK_OK else ACLCHECK_NO_PRIV))"

definition object_aclcheck :: "system_catalog \<Rightarrow> Oid \<Rightarrow> Oid \<Rightarrow> Oid \<Rightarrow> AclMode \<Rightarrow> AclResult pg_result" where
  "object_aclcheck cat classid objectid roleid mode =
     check_result (object_aclmask cat classid objectid roleid mode ACLMASK_ANY)"

definition pg_attribute_aclcheck_ext ::
  "system_catalog \<Rightarrow> Oid \<Rightarrow> int \<Rightarrow> Oid \<Rightarrow> AclMode \<Rightarrow> bool \<Rightarrow> (AclResult \<times> bool) pg_result" where
  "pg_attribute_aclcheck_ext cat table_oid attnum roleid mode missing_ok =
     rbind (pg_attribute_aclmask_ext cat table_oid attnum roleid mode ACLMASK_ANY missing_ok)
       (\<lambda>(r, is_missing). Inr (if r \<noteq> 0 then ACLCHECK_OK else ACLCHECK_NO_PRIV, is_missing))"

definition pg_attribute_aclcheck :: "system_catalog \<Rightarrow> Oid \<Rightarrow> int \<Rightarrow> Oid \<Rightarrow> AclMode \<Rightarrow> AclResult pg_result" where
  "pg_attribute_aclcheck cat table_oid attnum roleid mode =
     rbind (pg_attribute_aclcheck_ext cat table_oid attnum roleid mode False) (\<lambda>(r, _). Inr r)"

fun aclcheck_all_loop ::
  "system_catalog \<Rightarrow> Oid \<Rightarrow> Oid \<Rightarrow> AclMode \<Rightarrow> AclMaskHow \<Rightarrow> int list \<Rightarrow> AclResult \<Rightarrow> AclResult pg_result" where
  "aclcheck_all_loop cat table_oid roleid mode how [] result = Inr result"
| "aclcheck_all_loop cat table_oid roleid mode how (curr_att # rest) result =
     (case ATTNUM cat table_oid curr_att of
        None \<Rightarrow> aclcheck_all_loop cat table_oid roleid mode how rest result
      | Some att \<Rightarrow>
          if attisdropped att then aclcheck_all_loop cat table_oid roleid mode how rest result
          else rbind (if attacl att = None then Inr 0
                      else pg_attribute_aclmask cat table_oid curr_att roleid mode ACLMASK_ANY) (\<lambda>attmask.
                 if attmask \<noteq> 0
                 then (if how = ACLMASK_ANY then Inr ACLCHECK_OK
                       else aclcheck_all_loop cat table_oid roleid mode how rest ACLCHECK_OK)
                 else (if how = ACLMASK_ALL then Inr ACLCHECK_NO_PRIV
                       else aclcheck_all_loop cat table_oid roleid mode how rest ACLCHECK_NO_PRIV)))"

definition pg_attribute_aclcheck_all ::
  "system_catalog \<Rightarrow> Oid \<Rightarrow> Oid \<Rightarrow> AclMode \<Rightarrow> AclMaskHow \<Rightarrow> AclResult pg_result" where
  "pg_attribute_aclcheck_all cat table_oid roleid mode how =
     (case RELOID cat table_oid of
        None \<Rightarrow> Inr ACLCHECK_NO_PRIV
      | Some rel \<Rightarrow> aclcheck_all_loop cat table_oid roleid mode how [1..relnatts rel] ACLCHECK_NO_PRIV)"

definition pg_class_aclcheck_ext ::
  "system_catalog \<Rightarrow> Oid \<Rightarrow> Oid \<Rightarrow> AclMode \<Rightarrow> bool \<Rightarrow> (AclResult \<times> bool) pg_result" where
  "pg_class_aclcheck_ext cat table_oid roleid mode missing_ok =
     rbind (pg_class_aclmask_ext cat table_oid roleid mode ACLMASK_ANY missing_ok)
       (\<lambda>(r, is_missing). Inr (if r \<noteq> 0 then ACLCHECK_OK else ACLCHECK_NO_PRIV, is_missing))"

definition pg_class_aclcheck :: "system_catalog \<Rightarrow> Oid \<Rightarrow> Oid \<Rightarrow> AclMode \<Rightarrow> AclResult pg_result" where
  "pg_class_aclcheck cat table_oid roleid mode =
     rbind (pg_class_aclcheck_ext cat table_oid roleid mode False) (\<lambda>(r, _). Inr r)"

definition pg_parameter_aclcheck :: "system_catalog \<Rightarrow> string \<Rightarrow> Oid \<Rightarrow> AclMode \<Rightarrow> AclResult pg_result" where
  "pg_parameter_aclcheck cat nm roleid mode = check_result (pg_parameter_aclmask cat nm roleid mode ACLMASK_ANY)"

definition pg_largeobject_aclcheck_snapshot :: "system_catalog \<Rightarrow> Oid \<Rightarrow> Oid \<Rightarrow> AclMode \<Rightarrow> AclResult pg_result" where
  "pg_largeobject_aclcheck_snapshot cat lobj_oid roleid mode =
     check_result (pg_largeobject_aclmask_snapshot cat lobj_oid roleid mode ACLMASK_ANY)"

text \<open>The owner of an object, from the catalog of its class.\<close>

definition object_owner :: "system_catalog \<Rightarrow> Oid \<Rightarrow> Oid \<Rightarrow> Oid option" where
  "object_owner cat classid objectid =
     (if classid = RelationRelationId then map_option relowner (RELOID cat objectid)
      else if classid = TypeRelationId then map_option typowner (TYPEOID cat objectid)
      else map_option obj_owner (object_cache cat classid objectid))"

definition object_ownercheck :: "system_catalog \<Rightarrow> Oid \<Rightarrow> Oid \<Rightarrow> Oid \<Rightarrow> bool pg_result" where
  "object_ownercheck cat classid objectid roleid =
     (if superuser_arg (role_cat cat) roleid then Inr True
      else case object_owner cat classid objectid of
             None \<Rightarrow> ereport_error ''ERRCODE_UNDEFINED_OBJECT'' ''%s with OID %u does not exist''
           | Some ownerId \<Rightarrow> has_privs_of_role (role_cat cat) roleid ownerId)"

definition AUTHOID_row :: "role_catalog \<Rightarrow> Oid \<Rightarrow> pg_authid_row option" where
  "AUTHOID_row roles roleid = find (\<lambda>r. auth_oid r = roleid) (pg_authid roles)"

definition has_createrole_privilege :: "role_catalog \<Rightarrow> Oid \<Rightarrow> bool" where
  "has_createrole_privilege roles roleid =
     (if superuser_arg roles roleid then True
      else case AUTHOID_row roles roleid of Some r \<Rightarrow> rolcreaterole r | None \<Rightarrow> False)"

definition has_bypassrls_privilege :: "role_catalog \<Rightarrow> Oid \<Rightarrow> bool" where
  "has_bypassrls_privilege roles roleid =
     (if superuser_arg roles roleid then True
      else case AUTHOID_row roles roleid of Some r \<Rightarrow> rolbypassrls r | None \<Rightarrow> False)"

section \<open>The rights of a role\<close>

definition list_ok :: "Acl option \<Rightarrow> bool" where
  "list_ok acl \<longleftrightarrow> (case acl of None \<Rightarrow> True | Some a \<Rightarrow> acl_ok a)"

text \<open>Every access control list in the catalogs is a well-formed array, and the database has its row.\<close>

definition catalog_ok :: "system_catalog \<Rightarrow> bool" where
  "catalog_ok cat \<longleftrightarrow>
     (\<exists>dba. database_dba (role_cat cat) = Inr dba) \<and>
     (\<forall>t rel. RELOID cat t = Some rel \<longrightarrow> list_ok (relacl rel)) \<and>
     (\<forall>t n att. ATTNUM cat t n = Some att \<longrightarrow> list_ok (attacl att)) \<and>
     (\<forall>t typ. TYPEOID cat t = Some typ \<longrightarrow> list_ok (typacl typ)) \<and>
     (\<forall>c oid obj. object_cache cat c oid = Some obj \<longrightarrow> list_ok (obj_acl obj)) \<and>
     list_all (\<lambda>par. list_ok (paracl par)) (pg_parameter_acl cat)"

definition list_rights :: "role_catalog \<Rightarrow> ObjectType \<Rightarrow> Oid \<Rightarrow> Acl option \<Rightarrow> Oid \<Rightarrow> AclMode" where
  "list_rights roles objtype ownerId acl roleid =
     (case acl_or_default objtype ownerId acl of
        Inl _ \<Rightarrow> 0 | Inr a \<Rightarrow> held_rights roles roleid ownerId (ACL_DAT a))"

definition protected_class :: "system_catalog \<Rightarrow> Oid \<Rightarrow> pg_class_row \<Rightarrow> bool" where
  "protected_class cat table_oid rel \<longleftrightarrow> IsSystemClass cat table_oid rel \<and> relkind rel \<noteq> RELKIND_VIEW"

text \<open>
  What a role may do with a relation: everything as a superuser; otherwise what the list gives it, and
  what the two predefined roles give it, but no changes to a system catalog.
\<close>

definition relation_rights :: "system_catalog \<Rightarrow> Oid \<Rightarrow> Oid \<Rightarrow> AclMode" where
  "relation_rights cat table_oid roleid =
     (case RELOID cat table_oid of
        None \<Rightarrow> 0
      | Some rel \<Rightarrow>
          if superuser_arg (role_cat cat) roleid then - 1
          else (list_rights (role_cat cat) (class_objtype rel) (relowner rel) (relacl rel) roleid OR
                (if privs_of (role_cat cat) roleid ROLE_PG_READ_ALL_DATA then ACL_SELECT else 0) OR
                (if privs_of (role_cat cat) roleid ROLE_PG_WRITE_ALL_DATA then WRITE_RIGHTS else 0)) AND
               (if protected_class cat table_oid rel then NOT SYSTEM_RIGHTS else - 1))"

text \<open>
  The rights to write that the list gives are all of the mask's or none of them, or \<^verbatim>\<open>pg_write_all_data\<close> does
  not matter.
\<close>

definition write_all_applies :: "system_catalog \<Rightarrow> Oid \<Rightarrow> Oid \<Rightarrow> AclMode \<Rightarrow> bool" where
  "write_all_applies cat table_oid roleid msk \<longleftrightarrow>
     (case RELOID cat table_oid of
        None \<Rightarrow> True
      | Some rel \<Rightarrow>
          superuser_arg (role_cat cat) roleid \<or> \<not> privs_of (role_cat cat) roleid ROLE_PG_WRITE_ALL_DATA \<or>
          protected_class cat table_oid rel \<or>
          msk AND WRITE_RIGHTS AND
            list_rights (role_cat cat) (class_objtype rel) (relowner rel) (relacl rel) roleid \<in> {0, msk AND WRITE_RIGHTS})"

definition column_rights :: "system_catalog \<Rightarrow> Oid \<Rightarrow> int \<Rightarrow> Oid \<Rightarrow> AclMode" where
  "column_rights cat table_oid attnum roleid =
     (case (ATTNUM cat table_oid attnum, RELOID cat table_oid) of
        (Some att, Some rel) \<Rightarrow>
          (case attacl att of
             Some acl \<Rightarrow> if attisdropped att then 0 else held_rights (role_cat cat) roleid (relowner rel) (ACL_DAT acl)
           | None \<Rightarrow> 0)
      | _ \<Rightarrow> 0)"

definition live_column :: "system_catalog \<Rightarrow> Oid \<Rightarrow> int \<Rightarrow> bool" where
  "live_column cat table_oid attnum \<longleftrightarrow>
     (case ATTNUM cat table_oid attnum of None \<Rightarrow> False | Some att \<Rightarrow> \<not> attisdropped att)"

definition user_columns :: "system_catalog \<Rightarrow> Oid \<Rightarrow> int list" where
  "user_columns cat table_oid =
     (case RELOID cat table_oid of None \<Rightarrow> [] | Some rel \<Rightarrow> filter (live_column cat table_oid) [1..relnatts rel])"

text \<open>The other objects: the owner and the list that count for an object, and the rights that a role has.\<close>

definition acl_class :: "ObjectType \<Rightarrow> Oid option" where
  "acl_class objtype =
     (case objtype of
        OBJECT_DATABASE \<Rightarrow> Some DatabaseRelationId | OBJECT_FUNCTION \<Rightarrow> Some ProcedureRelationId
      | OBJECT_LANGUAGE \<Rightarrow> Some LanguageRelationId | OBJECT_LARGEOBJECT \<Rightarrow> Some LargeObjectMetadataRelationId
      | OBJECT_SCHEMA \<Rightarrow> Some NamespaceRelationId | OBJECT_TABLESPACE \<Rightarrow> Some TableSpaceRelationId
      | OBJECT_FDW \<Rightarrow> Some ForeignDataWrapperRelationId | OBJECT_FOREIGN_SERVER \<Rightarrow> Some ForeignServerRelationId
      | _ \<Rightarrow> None)"

definition object_list :: "system_catalog \<Rightarrow> ObjectType \<Rightarrow> Oid \<Rightarrow> (Oid \<times> Acl option) option" where
  "object_list cat objtype oid =
     (if objtype = OBJECT_TYPE
      then (case TYPEOID cat oid of
              None \<Rightarrow> None
            | Some typ \<Rightarrow> map_option (\<lambda>t. (typowner t, typacl t))
                (if IsTrueArrayType typ then TYPEOID cat (typelem typ) else Some typ))
      else if objtype = OBJECT_PARAMETER_ACL
      then map_option (\<lambda>par. (BOOTSTRAP_SUPERUSERID, paracl par)) (find (\<lambda>par. par_oid par = oid) (pg_parameter_acl cat))
      else (case acl_class objtype of
              None \<Rightarrow> None
            | Some c \<Rightarrow> map_option (\<lambda>obj. (obj_owner obj, obj_acl obj)) (object_cache cat c oid)))"

definition object_rights :: "system_catalog \<Rightarrow> ObjectType \<Rightarrow> Oid \<Rightarrow> Acl option \<Rightarrow> Oid \<Rightarrow> AclMode" where
  "object_rights cat objtype ownerId acl roleid =
     list_rights (role_cat cat) objtype ownerId acl roleid OR
     (if objtype = OBJECT_SCHEMA \<and> (privs_of (role_cat cat) roleid ROLE_PG_READ_ALL_DATA \<or>
           privs_of (role_cat cat) roleid ROLE_PG_WRITE_ALL_DATA)
      then ACL_USAGE else 0)"

text \<open>A database with a table of scores: the owner is 101, and 103 is a member of \<^verbatim>\<open>pg_write_all_data\<close>.\<close>

definition score_roles :: role_catalog where
  "score_roles =
     \<lparr>pg_authid = [\<lparr>auth_oid = 10, rolname = ''postgres'', rolsuper = True, rolinherit = True, rolcreaterole = True, rolbypassrls = True\<rparr>,
                   \<lparr>auth_oid = 101, rolname = ''lecturer'', rolsuper = False, rolinherit = True, rolcreaterole = False, rolbypassrls = False\<rparr>,
                   \<lparr>auth_oid = 102, rolname = ''student'', rolsuper = False, rolinherit = True, rolcreaterole = False, rolbypassrls = False\<rparr>,
                   \<lparr>auth_oid = 103, rolname = ''writer'', rolsuper = False, rolinherit = True, rolcreaterole = False, rolbypassrls = False\<rparr>],
      pg_auth_members = [\<lparr>am_roleid = 6182, am_member = 103, admin_option = False, inherit_option = True, set_option = True,
                          am_grantor = 10\<rparr>],
      pg_database = [(5, 10)], MyDatabaseId = 5, IsUnderPostmaster = True, CurrentUserId = 101, SessionUserId = 101\<rparr>"

definition score_relation :: pg_class_row where
  "score_relation =
     \<lparr>relname = ''scores'', relnamespace = 2200, relowner = 101, relkind = RELKIND_RELATION, relnatts = 2,
      relacl = Some (allocacl [AclItem 101 101 ACL_ALL_RIGHTS_RELATION, AclItem 103 101 ACL_INSERT])\<rparr>"

definition score_catalog :: system_catalog where
  "score_catalog =
     \<lparr>role_cat = score_roles,
      RELOID = (\<lambda>t. if t = 20000 then Some score_relation else None),
      ATTNUM = (\<lambda>t n. if t = 20000 \<and> n = 1 then Some \<lparr>attname = ''student'', attisdropped = False, attacl = None\<rparr>
        else if t = 20000 \<and> n = 2
        then Some \<lparr>attname = ''mark'', attisdropped = False, attacl = Some (allocacl [AclItem 102 101 ACL_SELECT])\<rparr> else None),
      TYPEOID = (\<lambda>_. None), pg_parameter_acl = [], 
      object_cache = (\<lambda>c oid. if c = NamespaceRelationId \<and> oid = 2200
        then Some \<lparr>obj_name = ''public'', obj_owner = 10, obj_acl = None, lanpltrusted = False\<rparr> else None), myTempNamespace = 0, myTempToastNamespace = 0\<rparr>"

section \<open>Masks of lists and relations\<close>

lemma acl_ok_default: "acldefault objtype ownerId = Inr a \<Longrightarrow> acl_ok a"
  by (auto simp: acldefault_def result_iff acl_ok_def check_acl_def allocacl_def)

lemma acl_or_default_ok:
  assumes "list_ok acl" and "default_rights objtype = Inr wo"
  obtains a where "acl_or_default objtype ownerId acl = Inr a" and "acl_ok a"
proof (cases acl)
  case None
  obtain a where "acldefault objtype ownerId = Inr a" using assms(2) by (cases wo) (simp add: acldefault_def)
  with None acl_ok_default that show ?thesis by (simp add: acl_or_default_def)
next
  case (Some a)
  with assms(1) that show ?thesis by (simp add: acl_or_default_def list_ok_def)
qed

lemma list_aclmask_answer:
  assumes "database_dba (role_cat cat) = Inr dba" and "list_ok acl" and "default_rights objtype = Inr wo"
  shows "\<exists>r. list_aclmask cat objtype ownerId acl roleid msk how = Inr r \<and>
    mask_answer how (msk AND list_rights (role_cat cat) objtype ownerId acl roleid) r"
proof -
  obtain a where a: "acl_or_default objtype ownerId acl = Inr a" and "acl_ok a"
    by (rule acl_or_default_ok [OF assms(2,3)])
  from aclmask_answer [OF assms(1) this(2), of roleid ownerId msk how] show ?thesis
    unfolding list_aclmask_def list_rights_def a by simp
qed

lemma class_objtype_default: "\<exists>wo. default_rights (class_objtype rel) = Inr wo"
  by (simp add: class_objtype_def default_rights_def)

lemma and_not_absorb:
  assumes "a AND b = 0"
  shows "a AND NOT b = (a :: word64)"
proof (rule bit_word_eqI)
  fix n assume "n < LENGTH(64)"
  moreover have "\<not> bit (a AND b) n" by (simp add: assms)
  ultimately show "bit (a AND NOT b) n \<longleftrightarrow> bit a n" by (auto simp: bit_simps)
qed

lemma protected_mask:
  "(if msk AND SYSTEM_RIGHTS \<noteq> 0 \<and> IsSystemClass cat table_oid rel \<and> relkind rel \<noteq> RELKIND_VIEW \<and> b
    then msk AND NOT SYSTEM_RIGHTS else msk) =
   (if protected_class cat table_oid rel \<and> b then msk AND NOT SYSTEM_RIGHTS else msk)"
proof (cases "msk AND SYSTEM_RIGHTS = 0")
  case True
  then have "msk AND NOT SYSTEM_RIGHTS = msk" by (rule and_not_absorb)
  then show ?thesis by simp
next
  case False
  then show ?thesis by (simp add: protected_class_def)
qed

lemma bit_rights [word_bits]:
  "bit ACL_INSERT n \<longleftrightarrow> n = 0" "bit ACL_SELECT n \<longleftrightarrow> n = 1" "bit ACL_UPDATE n \<longleftrightarrow> n = 2" "bit ACL_DELETE n \<longleftrightarrow> n = 3"
  "bit ACL_TRUNCATE n \<longleftrightarrow> n = 4" "bit ACL_REFERENCES n \<longleftrightarrow> n = 5" "bit ACL_USAGE n \<longleftrightarrow> n = 8"
proof -
  have "bit (2 ^ k :: word64) n \<longleftrightarrow> n = k" if "k < 64" for k using that by (auto simp: bit_exp_iff)
  from this [of 0] this [of 1] this [of 2] this [of 3] this [of 4] this [of 5] this [of 8]
  show "bit ACL_INSERT n \<longleftrightarrow> n = 0" "bit ACL_SELECT n \<longleftrightarrow> n = 1" "bit ACL_UPDATE n \<longleftrightarrow> n = 2" "bit ACL_DELETE n \<longleftrightarrow> n = 3"
    "bit ACL_TRUNCATE n \<longleftrightarrow> n = 4" "bit ACL_REFERENCES n \<longleftrightarrow> n = 5" "bit ACL_USAGE n \<longleftrightarrow> n = 8"
    by (simp_all add: acl_bit_defs)
qed

lemma word_zero_bits: "(w :: word64) = 0 \<longleftrightarrow> (\<forall>n. \<not> bit w n)"
  using bit_imp_le_length [of w] by (auto simp: bit_eq_iff)

lemma and_select: "msk AND ACL_SELECT = 0 \<longleftrightarrow> \<not> bit msk 1"
  by (auto simp: word_zero_bits bit_simps word_bits)

lemma add_read_all_eq:
  assumes "database_dba roles = Inr dba"
  shows "add_read_all roles roleid msk r =
    Inr (r OR (if privs_of roles roleid ROLE_PG_READ_ALL_DATA then msk AND ACL_SELECT else 0))"
proof -
  have "r OR (msk AND ACL_SELECT) = r" if "\<not> bit msk 1 \<or> bit r 1"
    by (rule bit_word_eqI) (use that in \<open>auto simp: bit_simps word_bits\<close>)
  moreover have "r OR (msk AND ACL_SELECT) = r OR ACL_SELECT" if "bit msk 1"
    by (rule bit_word_eqI) (use that in \<open>auto simp: bit_simps word_bits\<close>)
  ultimately show ?thesis
    using has_privs_total [OF assms] by (auto simp: add_read_all_def and_select)
qed

lemma add_write_all_eq:
  assumes "database_dba roles = Inr dba"
  shows "add_write_all roles roleid msk r =
    Inr (if privs_of roles roleid ROLE_PG_WRITE_ALL_DATA \<and> r AND WRITE_RIGHTS = 0 then r OR (msk AND WRITE_RIGHTS) else r)"
  using has_privs_total [OF assms] by (auto simp: add_write_all_def)

lemma pg_class_aclmask_eq:
  assumes ok: "catalog_ok cat" and rel: "RELOID cat table_oid = Some rel"
    and user: "\<not> superuser_arg (role_cat cat) roleid"
    and m: "m = (if protected_class cat table_oid rel then msk AND NOT SYSTEM_RIGHTS else msk)"
    and L: "L = list_rights (role_cat cat) (class_objtype rel) (relowner rel) (relacl rel) roleid"
  shows "\<exists>r. mask_answer how (m AND L) r \<and> pg_class_aclmask cat table_oid roleid msk how =
    Inr (let r1 = r OR (if privs_of (role_cat cat) roleid ROLE_PG_READ_ALL_DATA then m AND ACL_SELECT else 0)
         in if privs_of (role_cat cat) roleid ROLE_PG_WRITE_ALL_DATA \<and> r1 AND WRITE_RIGHTS = 0
            then r1 OR (m AND WRITE_RIGHTS) else r1)"
proof -
  obtain dba where dba: "database_dba (role_cat cat) = Inr dba" and "list_ok (relacl rel)"
    using ok rel by (auto simp: catalog_ok_def)
  moreover obtain wo where "default_rights (class_objtype rel) = Inr wo" using class_objtype_default by blast
  ultimately obtain r where r: "list_aclmask cat (class_objtype rel) (relowner rel) (relacl rel) roleid m how = Inr r"
    "mask_answer how (m AND L) r"
    using list_aclmask_answer [of cat dba "relacl rel" "class_objtype rel" wo "relowner rel" roleid m how] L by blast
  have "pg_class_aclmask_ext cat table_oid roleid msk how False =
      rbind (list_aclmask cat (class_objtype rel) (relowner rel) (relacl rel) roleid m how) (\<lambda>result.
      rbind (add_read_all (role_cat cat) roleid m result) (\<lambda>result.
      rbind (add_write_all (role_cat cat) roleid m result) (\<lambda>result. Inr (result, False))))"
    unfolding pg_class_aclmask_ext_def rel option.simps Let_def protected_mask m using user by simp
  then show ?thesis
    using r(2) by (intro exI [of _ r]) (simp add: pg_class_aclmask_def r(1) add_read_all_eq [OF dba] add_write_all_eq [OF dba] Let_def)
qed

lemma write_rights_bits: "w AND WRITE_RIGHTS = 0 \<longleftrightarrow> \<not> bit w 0 \<and> \<not> bit w 2 \<and> \<not> bit w 3"
  unfolding word_zero_bits WRITE_RIGHTS_def bit_and_iff bit_or_iff bit_rights by blast

lemma or_zero: "(a :: word64) OR b = 0 \<longleftrightarrow> a = 0 \<and> b = 0"
  by (auto simp: word_zero_bits bit_simps)

lemma superuser_aclmask:
  assumes "RELOID cat table_oid = Some rel" and "superuser_arg (role_cat cat) roleid"
  shows "pg_class_aclmask cat table_oid roleid msk how = Inr msk" and "relation_rights cat table_oid roleid = - 1"
  using assms by (simp_all add: pg_class_aclmask_def pg_class_aclmask_ext_def relation_rights_def)

lemma protected_write: "(msk AND NOT SYSTEM_RIGHTS) AND WRITE_RIGHTS AND L = 0"
proof -
  have "(msk AND NOT SYSTEM_RIGHTS) AND WRITE_RIGHTS = 0"
    unfolding write_rights_bits by (simp add: SYSTEM_RIGHTS_def bit_simps word_bits)
  then show ?thesis by (simp flip: and.assoc)
qed

lemma mask_rights:
  assumes "RELOID cat table_oid = Some rel" and "\<not> superuser_arg (role_cat cat) roleid"
    and "m = (if protected_class cat table_oid rel then msk AND NOT SYSTEM_RIGHTS else msk)"
    and "L = list_rights (role_cat cat) (class_objtype rel) (relowner rel) (relacl rel) roleid"
  shows "msk AND relation_rights cat table_oid roleid =
    (m AND L) OR (if privs_of (role_cat cat) roleid ROLE_PG_READ_ALL_DATA then m AND ACL_SELECT else 0) OR
    (if privs_of (role_cat cat) roleid ROLE_PG_WRITE_ALL_DATA then m AND WRITE_RIGHTS else 0)"
  unfolding relation_rights_def assms(1,3) option.simps assms(4) [symmetric] using assms(2)
  by (simp add: bit.conj_disj_distrib bit.conj_disj_distrib2 ac_simps)

text \<open>In mode ANY the answer tells whether the role has one of the rights.\<close>

lemma pg_class_aclmask_any:
  assumes ok: "catalog_ok cat" and rel: "RELOID cat table_oid = Some rel"
  shows "\<exists>r. pg_class_aclmask cat table_oid roleid msk ACLMASK_ANY = Inr r \<and>
    (r \<noteq> 0 \<longleftrightarrow> msk AND relation_rights cat table_oid roleid \<noteq> 0)"
proof (cases "superuser_arg (role_cat cat) roleid")
  case True
  then show ?thesis using superuser_aclmask [OF rel] by simp
next
  case False
  define m where "m = (if protected_class cat table_oid rel then msk AND NOT SYSTEM_RIGHTS else msk)"
  define L where "L = list_rights (role_cat cat) (class_objtype rel) (relowner rel) (relacl rel) roleid"
  from pg_class_aclmask_eq [OF ok rel False m_def L_def, of ACLMASK_ANY] show ?thesis
    unfolding mask_rights [OF rel False m_def L_def] by (auto simp: mask_answer_def Let_def or_zero)
qed

text \<open>In mode ALL it is the rights of the mask that the role has.\<close>

lemma write_all_step:
  assumes part: "m AND WRITE_RIGHTS AND L \<in> {0, m AND WRITE_RIGHTS}"
    and x: "x = (m AND L) OR (if b then m AND ACL_SELECT else 0)"
  shows "(if x AND WRITE_RIGHTS = 0 then x OR (m AND WRITE_RIGHTS) else x) = x OR (m AND WRITE_RIGHTS)"
proof (cases "x AND WRITE_RIGHTS = 0")
  case False
  have wbit: "bit WRITE_RIGHTS n \<longleftrightarrow> n = 0 \<or> n = 2 \<or> n = 3" for n
    by (simp add: WRITE_RIGHTS_def bit_simps word_bits)
  have bits: "bit (m AND WRITE_RIGHTS AND L) n \<longleftrightarrow> bit (x AND WRITE_RIGHTS) n" for n
    by (auto simp: x bit_simps word_bits wbit)
  then have "m AND WRITE_RIGHTS AND L \<noteq> 0" using False unfolding word_zero_bits by simp
  with part have "m AND WRITE_RIGHTS AND L = m AND WRITE_RIGHTS" by blast
  with bits have "bit (m AND WRITE_RIGHTS) n \<longleftrightarrow> bit (x AND WRITE_RIGHTS) n" for n by simp
  then have "m AND WRITE_RIGHTS = x AND WRITE_RIGHTS" by (intro bit_word_eqI) simp
  moreover have "x OR (x AND WRITE_RIGHTS) = x" by (rule bit_word_eqI) (auto simp: bit_simps)
  ultimately show ?thesis using False by simp
qed simp

lemma pg_class_aclmask_all:
  assumes ok: "catalog_ok cat" and rel: "RELOID cat table_oid = Some rel"
    and applies: "write_all_applies cat table_oid roleid msk"
  shows "pg_class_aclmask cat table_oid roleid msk ACLMASK_ALL = Inr (msk AND relation_rights cat table_oid roleid)"
proof (cases "superuser_arg (role_cat cat) roleid")
  case True
  then show ?thesis using superuser_aclmask [OF rel] by simp
next
  case False
  define m where "m = (if protected_class cat table_oid rel then msk AND NOT SYSTEM_RIGHTS else msk)"
  define L where "L = list_rights (role_cat cat) (class_objtype rel) (relowner rel) (relacl rel) roleid"
  define x where "x = (m AND L) OR (if privs_of (role_cat cat) roleid ROLE_PG_READ_ALL_DATA then m AND ACL_SELECT else 0)"
  have part: "m AND WRITE_RIGHTS AND L \<in> {0, m AND WRITE_RIGHTS}"
    if "privs_of (role_cat cat) roleid ROLE_PG_WRITE_ALL_DATA"
    using applies that False protected_write [of msk L] unfolding write_all_applies_def rel option.simps L_def [symmetric] m_def by auto
  from pg_class_aclmask_eq [OF ok rel False m_def L_def, of ACLMASK_ALL]
  have "pg_class_aclmask cat table_oid roleid msk ACLMASK_ALL =
      Inr (if privs_of (role_cat cat) roleid ROLE_PG_WRITE_ALL_DATA then x OR (m AND WRITE_RIGHTS) else x)"
    using write_all_step [OF part x_def] unfolding mask_answer_def x_def Let_def by auto
  then show ?thesis
    unfolding mask_rights [OF rel False m_def L_def] x_def by (simp add: ac_simps)
qed

section \<open>Columns\<close>

lemma pg_attribute_aclmask_answer:
  assumes ok: "catalog_ok cat" and live: "live_column cat table_oid attnum"
  shows "\<exists>r. pg_attribute_aclmask cat table_oid attnum roleid msk how = Inr r \<and>
    mask_answer how (msk AND column_rights cat table_oid attnum roleid) r"
proof -
  obtain att where att: "ATTNUM cat table_oid attnum = Some att" "\<not> attisdropped att"
    using live by (auto simp: live_column_def split: option.splits)
  obtain dba where dba: "database_dba (role_cat cat) = Inr dba" and "list_ok (attacl att)"
    using ok att(1) unfolding catalog_ok_def by blast
  have zero: "mask_answer how 0 0" by (simp add: mask_answer_def split: AclMaskHow.split)
  show ?thesis
  proof (cases "attacl att")
    case None
    with att zero show ?thesis
      by (simp add: pg_attribute_aclmask_def pg_attribute_aclmask_ext_def column_rights_def split: option.split)
  next
    case (Some acl)
    then have acl: "acl_ok acl" using \<open>list_ok (attacl att)\<close> by (simp add: list_ok_def)
    show ?thesis
    proof (cases "RELOID cat table_oid")
      case None
      with att zero Some show ?thesis
        by (simp add: pg_attribute_aclmask_def pg_attribute_aclmask_ext_def column_rights_def)
    next
      case (Some rel)
      with aclmask_answer [OF dba acl, of roleid "relowner rel" msk how] att \<open>attacl att = Some acl\<close> show ?thesis
        by (auto simp: pg_attribute_aclmask_def pg_attribute_aclmask_ext_def column_rights_def)
    qed
  qed
qed

lemma pg_attribute_aclcheck_eq:
  assumes "catalog_ok cat" and "live_column cat table_oid attnum"
  shows "pg_attribute_aclcheck cat table_oid attnum roleid mode =
    Inr (if mode AND column_rights cat table_oid attnum roleid \<noteq> 0 then ACLCHECK_OK else ACLCHECK_NO_PRIV)"
  using pg_attribute_aclmask_answer [OF assms, of roleid mode ACLMASK_ANY]
  by (auto simp: pg_attribute_aclcheck_def pg_attribute_aclcheck_ext_def pg_attribute_aclmask_def mask_answer_def
      result_iff split_def rbind_assoc)

text \<open>The loop over the columns of a relation.\<close>

lemma aclcheck_all_loop_eq:
  assumes ok: "catalog_ok cat"
  shows "aclcheck_all_loop cat table_oid roleid mode how atts result =
    Inr (let live = filter (live_column cat table_oid) atts;
             has = (\<lambda>a. mode AND column_rights cat table_oid a roleid \<noteq> 0)
         in if live = [] then result
            else if (case how of ACLMASK_ALL \<Rightarrow> list_all has live | ACLMASK_ANY \<Rightarrow> list_ex has live)
            then ACLCHECK_OK else ACLCHECK_NO_PRIV)"
proof (induction atts arbitrary: result)
  case (Cons a atts)
  show ?case
  proof (cases "live_column cat table_oid a")
    case False
    then have "aclcheck_all_loop cat table_oid roleid mode how (a # atts) result = aclcheck_all_loop cat table_oid roleid mode how atts result"
      by (auto simp: live_column_def split: option.splits)
    with False Cons.IH show ?thesis by simp
  next
    case True
    then obtain att where att: "ATTNUM cat table_oid a = Some att" "\<not> attisdropped att"
      by (auto simp: live_column_def split: option.splits)
    obtain r where r: "pg_attribute_aclmask cat table_oid a roleid mode ACLMASK_ANY = Inr r"
        "r \<noteq> 0 \<longleftrightarrow> mode AND column_rights cat table_oid a roleid \<noteq> 0"
      using pg_attribute_aclmask_answer [OF ok True, of roleid mode ACLMASK_ANY] by (auto simp: mask_answer_def)
    have none: "mode AND column_rights cat table_oid a roleid = 0" if "attacl att = None"
      using that att by (simp add: column_rights_def split: option.split)
    show ?thesis
      using True att r none Cons.IH by (cases how) (auto simp: Let_def)
  qed
qed simp

lemma pg_attribute_aclcheck_all_eq:
  assumes "catalog_ok cat"
  shows "pg_attribute_aclcheck_all cat table_oid roleid mode how =
    Inr (let has = (\<lambda>a. mode AND column_rights cat table_oid a roleid \<noteq> 0); cols = user_columns cat table_oid
         in if (case how of ACLMASK_ALL \<Rightarrow> cols \<noteq> [] \<and> list_all has cols | ACLMASK_ANY \<Rightarrow> list_ex has cols)
            then ACLCHECK_OK else ACLCHECK_NO_PRIV)"
  by (auto simp: pg_attribute_aclcheck_all_def aclcheck_all_loop_eq [OF assms] user_columns_def Let_def
      split: option.splits AclMaskHow.splits)

section \<open>Other objects\<close>

lemmas class_ids = DatabaseRelationId_def ProcedureRelationId_def LanguageRelationId_def LargeObjectMetadataRelationId_def
  NamespaceRelationId_def TableSpaceRelationId_def ForeignDataWrapperRelationId_def ForeignServerRelationId_def TypeRelationId_def

lemma object_list_default:
  assumes "object_list cat objtype oid = Some (ownerId, acl)"
  shows "\<exists>wo. default_rights objtype = Inr wo"
  using assms by (cases objtype) (auto simp: object_list_def acl_class_def default_rights_def)

lemma object_list_ok:
  assumes "catalog_ok cat" and "object_list cat objtype oid = Some (ownerId, acl)"
  shows "list_ok acl"
  using assms unfolding catalog_ok_def object_list_def list_all_iff
  by (auto split: if_splits option.splits dest!: find_Some_iff [THEN iffD1])

lemma pg_aclmask_list:
  assumes "object_list cat objtype oid = Some (ownerId, acl)" and "\<not> superuser_arg (role_cat cat) roleid"
    and "objtype \<noteq> OBJECT_SCHEMA"
  shows "pg_aclmask cat objtype oid attnum roleid msk how = list_aclmask cat objtype ownerId acl roleid msk how"
  using assms
  by (cases objtype)
    (auto simp: object_list_def acl_class_def pg_aclmask_def object_aclmask_def catalog_aclmask_def class_ids get_object_type_def
      pg_type_aclmask_def pg_largeobject_aclmask_snapshot_def pg_parameter_acl_aclmask_def split: if_splits option.splits)

lemma usage_step:
  assumes r: "mask_answer how (msk AND L) r"
  shows "mask_answer how (msk AND (L OR (if a then ACL_USAGE else 0)))
    (if msk AND ACL_USAGE \<noteq> 0 \<and> r AND ACL_USAGE = 0 \<and> a then r OR ACL_USAGE else r)"
proof (cases a)
  case True
  have usage: "w AND ACL_USAGE = 0 \<longleftrightarrow> \<not> bit w 8" for w :: AclMode
    unfolding word_zero_bits bit_and_iff bit_rights by blast
  show ?thesis
  proof (cases how)
    case ACLMASK_ALL
    with r have "r = msk AND L" by (simp add: mask_answer_def)
    then have "(if bit msk 8 \<and> \<not> bit r 8 then r OR ACL_USAGE else r) = msk AND (L OR ACL_USAGE)"
      by (intro bit_word_eqI) (auto simp: bit_simps word_bits)
    then show ?thesis using True ACLMASK_ALL by (simp add: mask_answer_def usage)
  next
    case ACLMASK_ANY
    have sub: "\<forall>n. bit r n \<longrightarrow> bit (msk AND L) n" and iff: "r \<noteq> 0 \<longleftrightarrow> msk AND L \<noteq> 0"
      using r bit_imp_le_length [of r]
      unfolding ACLMASK_ANY mask_answer_def AclMaskHow.simps word_zero_bits bit_and_iff bit_not_iff by auto
    show ?thesis
      unfolding mask_answer_def ACLMASK_ANY AclMaskHow.simps usage
      using sub iff True unfolding word_zero_bits by (auto simp: bit_simps word_bits)
  qed
qed (use r in simp)

lemma pg_namespace_aclmask_answer:
  assumes ok: "catalog_ok cat" and nsp: "object_list cat OBJECT_SCHEMA oid = Some (ownerId, acl)"
    and user: "\<not> superuser_arg (role_cat cat) roleid" and temp: "\<not> isTempNamespace cat oid"
  shows "\<exists>r. pg_aclmask cat OBJECT_SCHEMA oid attnum roleid msk how = Inr r \<and>
    mask_answer how (msk AND object_rights cat OBJECT_SCHEMA ownerId acl roleid) r"
proof -
  let ?all = "privs_of (role_cat cat) roleid ROLE_PG_READ_ALL_DATA \<or> privs_of (role_cat cat) roleid ROLE_PG_WRITE_ALL_DATA"
  let ?L = "list_rights (role_cat cat) OBJECT_SCHEMA ownerId acl roleid"
  obtain dba where dba: "database_dba (role_cat cat) = Inr dba" using ok by (auto simp: catalog_ok_def)
  obtain wo where "default_rights OBJECT_SCHEMA = Inr wo" by (simp add: default_rights_def)
  from list_aclmask_answer [OF dba object_list_ok [OF ok nsp] this] obtain r where
    r: "list_aclmask cat OBJECT_SCHEMA ownerId acl roleid msk how = Inr r" "mask_answer how (msk AND ?L) r" by blast
  have eq: "pg_aclmask cat OBJECT_SCHEMA oid attnum roleid msk how =
      Inr (if msk AND ACL_USAGE \<noteq> 0 \<and> r AND ACL_USAGE = 0 \<and> ?all then r OR ACL_USAGE else r)"
    using nsp user temp r(1) has_privs_total [OF dba]
    by (auto simp: object_list_def acl_class_def pg_aclmask_def object_aclmask_def pg_namespace_aclmask_def split: option.splits)
  have "mask_answer how (msk AND object_rights cat OBJECT_SCHEMA ownerId acl roleid)
      (if msk AND ACL_USAGE \<noteq> 0 \<and> r AND ACL_USAGE = 0 \<and> ?all then r OR ACL_USAGE else r)"
    using usage_step [OF r(2), of ?all] by (simp add: object_rights_def)
  with eq show ?thesis by blast
qed

section \<open>Properties\<close>

text \<open>
  C15. The privileges on a relation: asked for any of some rights, \<^verbatim>\<open>pg_class_aclmask\<close> answers non-zero exactly
  when the role has one of them, through the relation's list, as a superuser, or through
  \<^verbatim>\<open>pg_read_all_data\<close> and \<^verbatim>\<open>pg_write_all_data\<close>, where system catalogs can be changed by superusers only. Asked for
  all of them it returns those that the role has, provided that the list gives the role all of the
  rights to write in the mask or none, or the role is not a member of \<^verbatim>\<open>pg_write_all_data\<close>.
\<close>

theorem class_masks_spec:
  assumes "catalog_ok cat" and "RELOID cat table_oid = Some rel"
  shows "(\<exists>r. pg_class_aclmask cat table_oid roleid msk ACLMASK_ANY = Inr r \<and>
      (r \<noteq> 0 \<longleftrightarrow> msk AND relation_rights cat table_oid roleid \<noteq> 0)) \<and>
    (write_all_applies cat table_oid roleid msk \<longrightarrow>
      pg_class_aclmask cat table_oid roleid msk ACLMASK_ALL = Inr (msk AND relation_rights cat table_oid roleid))"
  using pg_class_aclmask_any [OF assms] pg_class_aclmask_all [OF assms] by blast

text \<open>
  C31. A grant can take rights away from a member of \<^verbatim>\<open>pg_write_all_data\<close>: when the list of the relation gives it
  some but not all of the rights to write in the mask, \<^verbatim>\<open>pg_class_aclmask\<close> does not look at the membership, and
  the rights that are missing in the list are missing in the answer.
\<close>

theorem write_all_not_added:
  assumes "catalog_ok cat" and "RELOID cat table_oid = Some rel" and "\<not> superuser_arg (role_cat cat) roleid"
    and "\<not> protected_class cat table_oid rel"
    and "msk AND WRITE_RIGHTS AND list_rights (role_cat cat) (class_objtype rel) (relowner rel) (relacl rel) roleid \<noteq> 0"
  shows "\<exists>r. pg_class_aclmask cat table_oid roleid msk ACLMASK_ALL = Inr r \<and>
    r AND WRITE_RIGHTS =
      msk AND WRITE_RIGHTS AND list_rights (role_cat cat) (class_objtype rel) (relowner rel) (relacl rel) roleid"
proof -
  define L where "L = list_rights (role_cat cat) (class_objtype rel) (relowner rel) (relacl rel) roleid"
  define x where "x = (msk AND L) OR (if privs_of (role_cat cat) roleid ROLE_PG_READ_ALL_DATA then msk AND ACL_SELECT else 0)"
  have x: "x AND WRITE_RIGHTS = msk AND WRITE_RIGHTS AND L"
    by (rule bit_word_eqI) (auto simp: x_def WRITE_RIGHTS_def bit_simps word_bits)
  with assms(5) have "x AND WRITE_RIGHTS \<noteq> 0" by (simp add: L_def)
  moreover have "msk = (if protected_class cat table_oid rel then msk AND NOT SYSTEM_RIGHTS else msk)"
    using assms(4) by simp
  ultimately have "pg_class_aclmask cat table_oid roleid msk ACLMASK_ALL = Inr x"
    using pg_class_aclmask_eq [OF assms(1-3) _ L_def, of msk msk ACLMASK_ALL] unfolding mask_answer_def Let_def x_def by auto
  with x show ?thesis by (simp add: L_def)
qed

text \<open>
  The privileges on the other objects: for a role that is not a superuser the rights in the answer
  are those of the list of the object, or of the built-in default when it has none, where an array type has
  the list of its element type; with \<^verbatim>\<open>pg_read_all_data\<close> or \<^verbatim>\<open>pg_write_all_data\<close> the role may also use every schema. A
  superuser has every right on an object of any of these types.
\<close>

theorem object_masks_spec:
  assumes "catalog_ok cat" and "object_list cat objtype oid = Some (ownerId, acl)"
    and "objtype = OBJECT_SCHEMA \<longrightarrow> \<not> isTempNamespace cat oid"
  shows "if superuser_arg (role_cat cat) roleid then pg_aclmask cat objtype oid attnum roleid msk how = Inr msk
    else \<exists>r. pg_aclmask cat objtype oid attnum roleid msk how = Inr r \<and>
      mask_answer how (msk AND object_rights cat objtype ownerId acl roleid) r"
proof (cases "superuser_arg (role_cat cat) roleid")
  case True
  then have "pg_aclmask cat objtype oid attnum roleid msk how = Inr msk"
    using assms(2) by (cases objtype) (auto simp: object_list_def acl_class_def pg_aclmask_def object_aclmask_def catalog_aclmask_def
        class_ids pg_type_aclmask_def pg_namespace_aclmask_def pg_largeobject_aclmask_snapshot_def pg_parameter_acl_aclmask_def)
  with True show ?thesis by simp
next
  case False
  show ?thesis
  proof (cases "objtype = OBJECT_SCHEMA")
    case True
    then show ?thesis using pg_namespace_aclmask_answer [OF assms(1)] assms(2,3) False by simp
  next
    case plain: False
    obtain dba wo where "database_dba (role_cat cat) = Inr dba" "default_rights objtype = Inr wo"
      using assms(1) object_list_default [OF assms(2)] by (auto simp: catalog_ok_def)
    from list_aclmask_answer [OF this(1) object_list_ok [OF assms(1,2)] this(2)] show ?thesis
      using pg_aclmask_list [OF assms(2) False plain] False plain by (simp add: object_rights_def)
  qed
qed

lemma score_catalog_ok: "catalog_ok score_catalog"
  by (simp add: catalog_ok_def score_catalog_def score_roles_def score_relation_def list_ok_def acl_ok_def check_acl_def allocacl_def database_dba_def OidIsValid_def)

theorem class_masks_spec_witness:
  "\<exists>r. pg_class_aclmask score_catalog 20000 103 (ACL_SELECT OR ACL_INSERT) ACLMASK_ANY = Inr r \<and>
     (r \<noteq> 0 \<longleftrightarrow> (ACL_SELECT OR ACL_INSERT) AND relation_rights score_catalog 20000 103 \<noteq> 0)"
proof -
  have "RELOID score_catalog 20000 = Some score_relation" by (simp add: score_catalog_def)
  from class_masks_spec [OF score_catalog_ok this, of 103 "ACL_SELECT OR ACL_INSERT"] show ?thesis by blast
qed

theorem object_masks_spec_witness:
  "object_list score_catalog OBJECT_SCHEMA 2200 = Some (10, None) \<and>
   (\<exists>r. pg_aclmask score_catalog OBJECT_SCHEMA 2200 0 103 ACL_USAGE ACLMASK_ALL = Inr r \<and>
      mask_answer ACLMASK_ALL (ACL_USAGE AND object_rights score_catalog OBJECT_SCHEMA 10 None 103) r)"
proof -
  have "object_list score_catalog OBJECT_SCHEMA 2200 = Some (10, None)" "\<not> isTempNamespace score_catalog 2200"
    "\<not> superuser_arg (role_cat score_catalog) 103" by code_simp+
  then show ?thesis
    using object_masks_spec [OF score_catalog_ok, of OBJECT_SCHEMA 2200 10 None 103 0 ACL_USAGE ACLMASK_ALL] by simp
qed

theorem write_all_not_added_witness:
  "privs_of (role_cat score_catalog) 103 ROLE_PG_WRITE_ALL_DATA \<and>
   (\<exists>r. pg_class_aclmask score_catalog 20000 103 (ACL_INSERT OR ACL_UPDATE) ACLMASK_ALL = Inr r \<and>
      r AND WRITE_RIGHTS = ACL_INSERT)"
proof -
  have rel: "RELOID score_catalog 20000 = Some score_relation" by (simp add: score_catalog_def)
  have rights: "(ACL_INSERT OR ACL_UPDATE) AND WRITE_RIGHTS AND
      list_rights (role_cat score_catalog) (class_objtype score_relation) (relowner score_relation) (relacl score_relation) 103 = ACL_INSERT"
    by code_simp
  have "\<not> superuser_arg (role_cat score_catalog) 103" "\<not> protected_class score_catalog 20000 score_relation"
    "privs_of (role_cat score_catalog) 103 ROLE_PG_WRITE_ALL_DATA" by code_simp+
  moreover have "ACL_INSERT \<noteq> 0" by (simp add: ACL_INSERT_def)
  ultimately show ?thesis
    using write_all_not_added [OF score_catalog_ok rel, of 103 "ACL_INSERT OR ACL_UPDATE"] rights by simp
qed

end
