(* ===== verification/Bitutils.thy ===== *)
theory Bitutils
  imports Prelude
begin

unbundle bit_operations_syntax

text \<open>
  The bit-twiddling helpers of \<^verbatim>\<open>src/include/port/pg_bitutils.h\<close> and
  \<^verbatim>\<open>src/port/pg_bitutils.c\<close> that the bitmap sets are built on.

  \<^item> \<open>builtin_ctzl\<close>, \<open>builtin_clzl\<close> and \<open>builtin_popcountl\<close> are the compiler intrinsics the
    source calls when the build finds them.
  \<^item> \<open>pg_rightmost_one_pos64_portable\<close>, \<open>pg_leftmost_one_pos64_portable\<close> and
    \<open>pg_popcount64_slow\<close> are the table-driven loops of the other preprocessor branch; their
    loops do not end on a zero word, so they return an \<open>option\<close>.
  \<^item> The theorems show that the two branches agree and characterise the result by bits.
\<close>

section \<open>Compiler intrinsics\<close>

definition builtin_ctzl :: "word64 \<Rightarrow> nat" where
  "builtin_ctzl w = length (takeWhile (\<lambda>i. \<not> bit w i) [0..<64])"

definition builtin_clzl :: "word64 \<Rightarrow> nat" where
  "builtin_clzl w = length (takeWhile (\<lambda>i. \<not> bit w i) (rev [0..<64]))"

definition builtin_popcountl :: "word64 \<Rightarrow> nat" where
  "builtin_popcountl w = length (filter (bit w) [0..<64])"

section \<open>Position of the extreme one-bits\<close>

definition pg_rightmost_one_pos64 :: "word64 \<Rightarrow> nat" where
  "pg_rightmost_one_pos64 w = builtin_ctzl w"

definition pg_leftmost_one_pos64 :: "word64 \<Rightarrow> nat" where
  "pg_leftmost_one_pos64 w = 63 - builtin_clzl w"

definition pg_popcount64 :: "word64 \<Rightarrow> nat" where
  "pg_popcount64 w = builtin_popcountl w"

section \<open>The table-driven branch\<close>

definition pg_leftmost_one_pos :: "nat list" where
  "pg_leftmost_one_pos = [
     0, 0, 1, 1, 2, 2, 2, 2, 3, 3, 3, 3, 3, 3, 3, 3, 4, 4, 4, 4, 4, 4, 4, 4, 4, 4, 4, 4, 4, 4, 4, 4,
     5, 5, 5, 5, 5, 5, 5, 5, 5, 5, 5, 5, 5, 5, 5, 5, 5, 5, 5, 5, 5, 5, 5, 5, 5, 5, 5, 5, 5, 5, 5, 5,
     6, 6, 6, 6, 6, 6, 6, 6, 6, 6, 6, 6, 6, 6, 6, 6, 6, 6, 6, 6, 6, 6, 6, 6, 6, 6, 6, 6, 6, 6, 6, 6,
     6, 6, 6, 6, 6, 6, 6, 6, 6, 6, 6, 6, 6, 6, 6, 6, 6, 6, 6, 6, 6, 6, 6, 6, 6, 6, 6, 6, 6, 6, 6, 6,
     7, 7, 7, 7, 7, 7, 7, 7, 7, 7, 7, 7, 7, 7, 7, 7, 7, 7, 7, 7, 7, 7, 7, 7, 7, 7, 7, 7, 7, 7, 7, 7,
     7, 7, 7, 7, 7, 7, 7, 7, 7, 7, 7, 7, 7, 7, 7, 7, 7, 7, 7, 7, 7, 7, 7, 7, 7, 7, 7, 7, 7, 7, 7, 7,
     7, 7, 7, 7, 7, 7, 7, 7, 7, 7, 7, 7, 7, 7, 7, 7, 7, 7, 7, 7, 7, 7, 7, 7, 7, 7, 7, 7, 7, 7, 7, 7,
     7, 7, 7, 7, 7, 7, 7, 7, 7, 7, 7, 7, 7, 7, 7, 7, 7, 7, 7, 7, 7, 7, 7, 7, 7, 7, 7, 7, 7, 7, 7, 7]"

definition pg_rightmost_one_pos :: "nat list" where
  "pg_rightmost_one_pos = [
     0, 0, 1, 0, 2, 0, 1, 0, 3, 0, 1, 0, 2, 0, 1, 0, 4, 0, 1, 0, 2, 0, 1, 0, 3, 0, 1, 0, 2, 0, 1, 0,
     5, 0, 1, 0, 2, 0, 1, 0, 3, 0, 1, 0, 2, 0, 1, 0, 4, 0, 1, 0, 2, 0, 1, 0, 3, 0, 1, 0, 2, 0, 1, 0,
     6, 0, 1, 0, 2, 0, 1, 0, 3, 0, 1, 0, 2, 0, 1, 0, 4, 0, 1, 0, 2, 0, 1, 0, 3, 0, 1, 0, 2, 0, 1, 0,
     5, 0, 1, 0, 2, 0, 1, 0, 3, 0, 1, 0, 2, 0, 1, 0, 4, 0, 1, 0, 2, 0, 1, 0, 3, 0, 1, 0, 2, 0, 1, 0,
     7, 0, 1, 0, 2, 0, 1, 0, 3, 0, 1, 0, 2, 0, 1, 0, 4, 0, 1, 0, 2, 0, 1, 0, 3, 0, 1, 0, 2, 0, 1, 0,
     5, 0, 1, 0, 2, 0, 1, 0, 3, 0, 1, 0, 2, 0, 1, 0, 4, 0, 1, 0, 2, 0, 1, 0, 3, 0, 1, 0, 2, 0, 1, 0,
     6, 0, 1, 0, 2, 0, 1, 0, 3, 0, 1, 0, 2, 0, 1, 0, 4, 0, 1, 0, 2, 0, 1, 0, 3, 0, 1, 0, 2, 0, 1, 0,
     5, 0, 1, 0, 2, 0, 1, 0, 3, 0, 1, 0, 2, 0, 1, 0, 4, 0, 1, 0, 2, 0, 1, 0, 3, 0, 1, 0, 2, 0, 1, 0]"

definition pg_number_of_ones :: "nat list" where
  "pg_number_of_ones = [
     0, 1, 1, 2, 1, 2, 2, 3, 1, 2, 2, 3, 2, 3, 3, 4, 1, 2, 2, 3, 2, 3, 3, 4, 2, 3, 3, 4, 3, 4, 4, 5,
     1, 2, 2, 3, 2, 3, 3, 4, 2, 3, 3, 4, 3, 4, 4, 5, 2, 3, 3, 4, 3, 4, 4, 5, 3, 4, 4, 5, 4, 5, 5, 6,
     1, 2, 2, 3, 2, 3, 3, 4, 2, 3, 3, 4, 3, 4, 4, 5, 2, 3, 3, 4, 3, 4, 4, 5, 3, 4, 4, 5, 4, 5, 5, 6,
     2, 3, 3, 4, 3, 4, 4, 5, 3, 4, 4, 5, 4, 5, 5, 6, 3, 4, 4, 5, 4, 5, 5, 6, 4, 5, 5, 6, 5, 6, 6, 7,
     1, 2, 2, 3, 2, 3, 3, 4, 2, 3, 3, 4, 3, 4, 4, 5, 2, 3, 3, 4, 3, 4, 4, 5, 3, 4, 4, 5, 4, 5, 5, 6,
     2, 3, 3, 4, 3, 4, 4, 5, 3, 4, 4, 5, 4, 5, 5, 6, 3, 4, 4, 5, 4, 5, 5, 6, 4, 5, 5, 6, 5, 6, 6, 7,
     2, 3, 3, 4, 3, 4, 4, 5, 3, 4, 4, 5, 4, 5, 5, 6, 3, 4, 4, 5, 4, 5, 5, 6, 4, 5, 5, 6, 5, 6, 6, 7,
     3, 4, 4, 5, 4, 5, 5, 6, 4, 5, 5, 6, 5, 6, 6, 7, 4, 5, 5, 6, 5, 6, 6, 7, 5, 6, 6, 7, 6, 7, 7, 8]"

partial_function (option) rightmost_loop :: "word64 \<Rightarrow> nat \<Rightarrow> nat option" where
  "rightmost_loop word result =
     (if word AND 255 = 0 then rightmost_loop (drop_bit 8 word) (result + 8)
      else Some (result + pg_rightmost_one_pos ! unat (word AND 255)))"

definition pg_rightmost_one_pos64_portable :: "word64 \<Rightarrow> nat option" where
  "pg_rightmost_one_pos64_portable word = rightmost_loop word 0"

partial_function (option) leftmost_loop :: "word64 \<Rightarrow> nat \<Rightarrow> nat option" where
  "leftmost_loop word shift =
     (if drop_bit shift word = 0 then leftmost_loop word (shift - 8)
      else Some (shift + pg_leftmost_one_pos ! unat (drop_bit shift word AND 255)))"

definition pg_leftmost_one_pos64_portable :: "word64 \<Rightarrow> nat option" where
  "pg_leftmost_one_pos64_portable word = leftmost_loop word (64 - 8)"

function popcount_loop :: "word64 \<Rightarrow> nat \<Rightarrow> nat" where
  "popcount_loop word result =
     (if word \<noteq> 0
      then popcount_loop (drop_bit 8 word) (result + pg_number_of_ones ! unat (word AND 255))
      else result)"
  by pat_completeness auto
termination
  by (relation "measure (\<lambda>(word, result). unat word)")
     (auto simp: drop_bit_eq_div unat_div_distrib intro!: div_less_dividend unat_gt_0 [THEN iffD2])

declare popcount_loop.simps [simp del]

definition pg_popcount64_slow :: "word64 \<Rightarrow> nat" where
  "pg_popcount64_slow word = popcount_loop word 0"

section \<open>First and last index with a property\<close>

lemma first_index_spec:
  assumes "n < N" and "P n"
  defines "k \<equiv> length (takeWhile (\<lambda>i. \<not> P i) [0..<N])"
  shows "k < N" and "P k" and "j < k \<Longrightarrow> \<not> P j"
proof -
  let ?Q = "\<lambda>i. \<not> P i"
  have tw: "\<not> P (takeWhile ?Q [0..<N] ! j)" if "j < k" for j
    using set_takeWhileD [OF nth_mem] that unfolding k_def by blast
  have le: "k \<le> N" using length_takeWhile_le [of ?Q "[0..<N]"] by (simp add: k_def)
  have below: "\<not> P j" if "j < k" for j
    using tw [OF that] that le by (simp add: takeWhile_nth k_def)
  show less: "k < N"
    using below [of n] assms(1,2) by (metis not_le_imp_less less_le_trans)
  show "P k"
    using nth_length_takeWhile [of ?Q "[0..<N]"] less by (simp add: k_def)
  show "\<not> P j" if "j < k" using below [OF that] .
qed

lemma last_index_spec:
  assumes "n < N" and "P n"
  defines "k \<equiv> N - 1 - length (takeWhile (\<lambda>i. \<not> P i) (rev [0..<N]))"
  shows "k < N" and "P k" and "k < j \<Longrightarrow> j < N \<Longrightarrow> \<not> P j"
proof -
  let ?R = "\<lambda>i. P (N - 1 - i)"
  have rev: "rev [0..<N] = map (\<lambda>i. N - 1 - i) [0..<N]"
    by (rule nth_equalityI) (auto simp: rev_nth)
  have len: "length (takeWhile (\<lambda>i. \<not> P i) (rev [0..<N])) = length (takeWhile (\<lambda>i. \<not> ?R i) [0..<N])"
    by (simp add: rev takeWhile_map comp_def)
  have "N - 1 - n < N" and "?R (N - 1 - n)" using assms(1,2) by auto
  note first = first_index_spec [where P = ?R, OF this]
  show "k < N" using assms(1) by (simp add: k_def)
  show "P k" using first(2) by (simp add: k_def len)
  show "\<not> P j" if "k < j" "j < N"
    using first(3) [of "N - 1 - j"] that by (auto simp: k_def len)
qed

section \<open>The intrinsics\<close>

lemma rightmost_one_pos64_spec:
  assumes "w \<noteq> 0"
  shows "bit w (pg_rightmost_one_pos64 w)"
    and "j < pg_rightmost_one_pos64 w \<Longrightarrow> \<not> bit w j"
proof -
  from assms obtain n where n: "bit w n" by (auto simp: word_bits)
  note first = first_index_spec [where P = "bit w" and N = 64, OF bit64_less [OF n] n,
      folded builtin_ctzl_def, folded pg_rightmost_one_pos64_def]
  show "bit w (pg_rightmost_one_pos64 w)" by (rule first(2))
  show "j < pg_rightmost_one_pos64 w \<Longrightarrow> \<not> bit w j" by (rule first(3))
qed

lemma rightmost_one_pos64_unique:
  assumes "bit w n" and "\<And>j. j < n \<Longrightarrow> \<not> bit w j"
  shows "pg_rightmost_one_pos64 w = n"
proof -
  have "w \<noteq> 0" using assms(1) by auto
  from rightmost_one_pos64_spec [OF this] show ?thesis
    using assms by (metis nat_neq_iff)
qed

lemma leftmost_one_pos64_spec:
  assumes "w \<noteq> 0"
  shows "bit w (pg_leftmost_one_pos64 w)"
    and "pg_leftmost_one_pos64 w < j \<Longrightarrow> \<not> bit w j"
proof -
  from assms obtain n where n: "bit w n" by (auto simp: word_bits)
  have eq: "pg_leftmost_one_pos64 w = 64 - 1 - builtin_clzl w"
    by (simp add: pg_leftmost_one_pos64_def)
  note last = last_index_spec [where P = "bit w" and N = 64, OF bit64_less [OF n] n,
      folded builtin_clzl_def, folded eq]
  show "bit w (pg_leftmost_one_pos64 w)" by (rule last(2))
  show "pg_leftmost_one_pos64 w < j \<Longrightarrow> \<not> bit w j"
    using last(3) [of j] bit64_less [of w j] by blast
qed

lemma leftmost_one_pos64_unique:
  assumes "bit w n" and "\<And>j. n < j \<Longrightarrow> \<not> bit w j"
  shows "pg_leftmost_one_pos64 w = n"
proof -
  have "w \<noteq> 0" using assms(1) by auto
  from leftmost_one_pos64_spec [OF this] show ?thesis
    using assms by (metis nat_neq_iff)
qed

lemma finite_bits64 [simp]: "finite {n. bit (w :: word64) n}"
  by (rule finite_subset [of _ "{..<64}"]) (auto dest: bit64_less)

lemma popcount64_card: "pg_popcount64 w = card {n. bit w n}"
proof -
  have "length (filter (bit w) [0..<64]) = card (set (filter (bit w) [0..<64]))"
    by (rule distinct_card [symmetric]) simp
  also have "set (filter (bit w) [0..<64]) = {n. bit w n}"
    by (auto dest: bit64_less)
  finally show ?thesis by (simp add: pg_popcount64_def builtin_popcountl_def)
qed

section \<open>The tables\<close>

lemma rightmost_table:
  "pg_rightmost_one_pos =
     0 # map (\<lambda>b::int. length (takeWhile (\<lambda>i. \<not> bit b i) [0..<8])) [1..255]"
  unfolding pg_rightmost_one_pos_def by code_simp

lemma leftmost_table:
  "pg_leftmost_one_pos =
     0 # map (\<lambda>b::int. 7 - length (takeWhile (\<lambda>i. \<not> bit b i) [7, 6, 5, 4, 3, 2, 1, 0])) [1..255]"
  unfolding pg_leftmost_one_pos_def by code_simp

lemma ones_table:
  "pg_number_of_ones = map (\<lambda>b::int. length (filter (bit b) [0..<8])) [0..255]"
  unfolding pg_number_of_ones_def by code_simp

lemma and_255_eq: "w AND 255 = take_bit 8 (w :: word64)"
  by (simp add: take_bit_eq_mask mask_eq_exp_minus_1)

lemma bit_low_byte: "bit (uint (w AND 255 :: word64)) n \<longleftrightarrow> bit w n \<and> n < 8"
  by (auto simp: and_255_eq bit_simps dest: bit64_less)

lemma low_byte_less: "unat (w AND 255 :: word64) < 256"
proof -
  have "w AND 255 \<le> 255" by (rule word_and_le1)
  then show ?thesis by (simp add: word_le_nat_alt)
qed

lemma low_byte_eq_0: "w AND 255 = 0 \<longleftrightarrow> (\<forall>n<8. \<not> bit (w :: word64) n)"
  by (auto simp: and_255_eq word_eq_0_iff_bit bit_simps)

lemma upto_table_nth:
  "int n \<le> m \<Longrightarrow> map f [0..m] ! n = f (int n)"
  "0 < n \<Longrightarrow> int n \<le> m \<Longrightarrow> (c # map f [1..m]) ! n = f (int n)"
  by (cases n; simp add: nth_upto)+

lemma low_byte_index:
  "int (unat (w AND 255 :: word64)) \<le> 255"
  "w AND 255 \<noteq> (0 :: word64) \<Longrightarrow> 0 < unat (w AND 255)"
proof -
  have "unat (w AND 255) \<le> 255" using low_byte_less [of w] by simp
  then have "int (unat (w AND 255)) \<le> int 255" by (rule iffD2 [OF of_nat_le_iff])
  then show "int (unat (w AND 255 :: word64)) \<le> 255" by (simp only: of_nat_numeral)
qed (simp add: unat_gt_0)

lemma ones_nth: "pg_number_of_ones ! unat (w AND 255) = length (filter (bit (w :: word64)) [0..<8])"
proof -
  from upto_table_nth(1) [OF low_byte_index(1) [of w]]
  have "pg_number_of_ones ! unat (w AND 255)
      = length (filter (bit (uint (w AND 255))) [0..<8])"
    unfolding ones_table uint_nat .
  also have "filter (bit (uint (w AND 255))) [0..<8] = filter (bit w) [0..<8]"
    by (rule filter_cong) (auto simp: bit_low_byte)
  finally show ?thesis .
qed

lemma rightmost_nth:
  assumes "w AND 255 \<noteq> (0 :: word64)"
  defines "k \<equiv> pg_rightmost_one_pos ! unat (w AND 255)"
  shows "k < 8" and "bit w k" and "j < k \<Longrightarrow> \<not> bit w j"
proof -
  let ?b = "uint (w AND 255)"
  have eq: "k = length (takeWhile (\<lambda>i. \<not> bit ?b i) [0..<8])"
    unfolding rightmost_table k_def uint_nat
    by (rule upto_table_nth(2) [OF low_byte_index(2) [OF assms(1)] low_byte_index(1)])
  from assms(1) obtain n where "n < 8" "bit ?b n" by (auto simp: low_byte_eq_0 bit_low_byte)
  note first = first_index_spec [where P = "bit ?b", OF this, folded eq]
  show "k < 8" and "bit w k" using first(1,2) by (simp_all add: bit_low_byte)
  show "\<not> bit w j" if "j < k" using first(1) first(3) [of j] that by (simp add: bit_low_byte)
qed

lemma leftmost_nth:
  assumes "w AND 255 \<noteq> (0 :: word64)"
  defines "k \<equiv> pg_leftmost_one_pos ! unat (w AND 255)"
  shows "k < 8" and "bit w k" and "k < j \<Longrightarrow> j < 8 \<Longrightarrow> \<not> bit w j"
proof -
  let ?b = "uint (w AND 255)"
  have rev: "rev [0..<8] = [7, 6, 5, 4, 3, 2, 1, 0 :: nat]" by code_simp
  have "k = 7 - length (takeWhile (\<lambda>i. \<not> bit ?b i) [7, 6, 5, 4, 3, 2, 1, 0])"
    unfolding leftmost_table k_def uint_nat
    by (rule upto_table_nth(2) [OF low_byte_index(2) [OF assms(1)] low_byte_index(1)])
  then have eq: "k = 8 - 1 - length (takeWhile (\<lambda>i. \<not> bit ?b i) (rev [0..<8]))"
    unfolding rev by simp
  from assms(1) obtain n where "n < 8" "bit ?b n" by (auto simp: low_byte_eq_0 bit_low_byte)
  note last = last_index_spec [where P = "bit ?b", OF this, folded eq]
  show "k < 8" and "bit w k" using last(1,2) by (simp_all add: bit_low_byte)
  show "\<not> bit w j" if "k < j" "j < 8" using last(3) [of j] that by (simp add: bit_low_byte)
qed

section \<open>The two branches agree\<close>

lemma unat_drop_8_less: "w \<noteq> 0 \<Longrightarrow> unat (drop_bit 8 (w :: word64)) < unat w"
  by (simp add: drop_bit_eq_div unat_div_distrib unat_gt_0)

lemma drop_8_neq_0: "w \<noteq> 0 \<Longrightarrow> w AND 255 = 0 \<Longrightarrow> drop_bit 8 (w :: word64) \<noteq> 0"
proof -
  assume "w \<noteq> 0" and low: "w AND 255 = 0"
  then obtain n where n: "bit w n" by (auto simp: word_bits)
  with low have "8 \<le> n" by (meson low_byte_eq_0 not_le)
  with n have "bit (drop_bit 8 w) (n - 8)" by (simp add: bit_simps)
  then show ?thesis by auto
qed

lemma rightmost_pos_drop_8:
  assumes "w \<noteq> 0" and "w AND 255 = 0"
  shows "pg_rightmost_one_pos64 w = 8 + pg_rightmost_one_pos64 (drop_bit 8 w)"
proof (rule rightmost_one_pos64_unique)
  note spec = rightmost_one_pos64_spec [OF drop_8_neq_0 [OF assms]]
  show "bit w (8 + pg_rightmost_one_pos64 (drop_bit 8 w))"
    using spec(1) by (simp add: bit_simps)
  show "\<not> bit w j" if "j < 8 + pg_rightmost_one_pos64 (drop_bit 8 w)" for j
  proof (cases "j < 8")
    case True
    then show ?thesis using assms(2) by (simp add: low_byte_eq_0)
  next
    case False
    then show ?thesis using spec(2) [of "j - 8"] that by (simp add: bit_simps)
  qed
qed

lemma rightmost_loop_eq:
  "w \<noteq> 0 \<Longrightarrow> rightmost_loop w r = Some (r + pg_rightmost_one_pos64 w)"
proof (induction "unat w" arbitrary: w r rule: less_induct)
  case less
  show ?case
  proof (cases "w AND 255 = 0")
    case True
    then have "rightmost_loop w r = rightmost_loop (drop_bit 8 w) (r + 8)"
      by (simp add: rightmost_loop.simps [of w])
    also have "\<dots> = Some (r + 8 + pg_rightmost_one_pos64 (drop_bit 8 w))"
      by (rule less.hyps [OF unat_drop_8_less [OF less.prems] drop_8_neq_0 [OF less.prems True]])
    finally show ?thesis by (simp add: rightmost_pos_drop_8 [OF less.prems True])
  next
    case False
    then show ?thesis
      by (simp add: rightmost_loop.simps [of w] rightmost_one_pos64_unique [OF rightmost_nth(2,3)])
  qed
qed

lemma drop_bit_eq_0_iff: "drop_bit s (w :: word64) = 0 \<longleftrightarrow> (\<forall>j. s \<le> j \<longrightarrow> \<not> bit w j)"
  by (auto simp: word_eq_0_iff_bit bit_simps le_iff_add)

lemma leftmost_pos_table:
  assumes "drop_bit s w \<noteq> 0" and "drop_bit (s + 8) w = 0"
  shows "s + pg_leftmost_one_pos ! unat (drop_bit s w AND 255) = pg_leftmost_one_pos64 w"
proof (rule leftmost_one_pos64_unique [symmetric])
  from assms obtain j where "s \<le> j" "bit w j" "j < s + 8"
    by (metis drop_bit_eq_0_iff not_le)
  then have "drop_bit s w AND 255 \<noteq> 0"
    by (auto simp: low_byte_eq_0 bit_simps intro!: exI [of _ "j - s"])
  note p = leftmost_nth [OF this]
  let ?p = "pg_leftmost_one_pos ! unat (drop_bit s w AND 255)"
  show "bit w (s + ?p)" using p(2) by (simp add: bit_simps)
  show "\<not> bit w j" if "s + ?p < j" for j
  proof (cases "j < s + 8")
    case True
    with that p(3) [of "j - s"] show ?thesis by (simp add: bit_simps)
  next
    case False
    with assms(2) show ?thesis by (simp add: drop_bit_eq_0_iff)
  qed
qed

lemma leftmost_loop_eq:
  assumes "w \<noteq> 0"
  shows "drop_bit (8 * k + 8) w = 0 \<Longrightarrow> leftmost_loop w (8 * k) = Some (pg_leftmost_one_pos64 w)"
proof (induction k)
  case 0
  with assms leftmost_pos_table [of 0 w] show ?case
    by (simp add: leftmost_loop.simps [of w 0])
next
  case (Suc k)
  show ?case
  proof (cases "drop_bit (8 * Suc k) w = 0")
    case True
    then have "leftmost_loop w (8 * Suc k) = leftmost_loop w (8 * k)"
      by (subst leftmost_loop.simps) simp
    also have "\<dots> = Some (pg_leftmost_one_pos64 w)"
      using True by (intro Suc.IH) (simp add: algebra_simps)
    finally show ?thesis .
  next
    case False
    then show ?thesis
      using leftmost_pos_table [OF False Suc.prems] by (subst leftmost_loop.simps) simp
  qed
qed

lemma popcount64_drop_8:
  "pg_popcount64 w = length (filter (bit w) [0..<8]) + pg_popcount64 (drop_bit 8 w)"
proof -
  let ?lo = "{n. n < 8 \<and> bit w n}" and ?hi = "(\<lambda>n. 8 + n) ` {n. bit (drop_bit 8 w) n}"
  have "{n. bit w n} = ?lo \<union> ?hi"
  proof (intro set_eqI iffI)
    fix n assume "n \<in> {n. bit w n}"
    then show "n \<in> ?lo \<union> ?hi"
      by (cases "n < 8") (auto simp: bit_simps image_iff intro!: exI [of _ "n - 8"])
  qed (auto simp: bit_simps)
  moreover have "card (?lo \<union> ?hi) = card ?lo + card ?hi"
    by (rule card_Un_disjoint) (auto intro: finite_subset [OF _ finite_bits64 [of w]])
  moreover have "card ?hi = pg_popcount64 (drop_bit 8 w)"
    by (simp add: popcount64_card card_image inj_on_def)
  moreover have "card ?lo = length (filter (bit w) [0..<8])"
  proof -
    have "?lo = set (filter (bit w) [0..<8])" by auto
    then show ?thesis by (simp only: distinct_card [OF distinct_filter [OF distinct_upt]])
  qed
  ultimately show ?thesis by (simp only: popcount64_card)
qed

lemma popcount_loop_eq: "popcount_loop w r = r + pg_popcount64 w"
proof (induction w r rule: popcount_loop.induct)
  case (1 w r)
  show ?case
  proof (cases "w = 0")
    case True
    then show ?thesis by (simp add: popcount_loop.simps [of 0 r] popcount64_card)
  next
    case False
    then show ?thesis
      using 1 [OF False] by (simp only: popcount_loop.simps [of w] popcount64_drop_8 [of w] ones_nth) simp
  qed
qed

section \<open>Property\<close>

text \<open>
  On every non-zero word the table-driven routines terminate and return the answer of the
  branch that uses the compiler intrinsic.
\<close>

theorem portable_branches_agree:
  assumes "w \<noteq> 0"
  shows "pg_rightmost_one_pos64_portable w = Some (pg_rightmost_one_pos64 w) \<and>
    pg_leftmost_one_pos64_portable w = Some (pg_leftmost_one_pos64 w) \<and>
    pg_popcount64_slow w = pg_popcount64 w"
proof -
  have "drop_bit 64 w = 0" by (auto simp: drop_bit_eq_0_iff dest: bit64_less)
  then have "pg_leftmost_one_pos64_portable w = Some (pg_leftmost_one_pos64 w)"
    using leftmost_loop_eq [OF assms, of 7] by (simp add: pg_leftmost_one_pos64_portable_def)
  then show ?thesis
    by (simp add: assms rightmost_loop_eq popcount_loop_eq pg_popcount64_slow_def
        pg_rightmost_one_pos64_portable_def)
qed

theorem portable_branches_agree_witness:
  "(40 :: word64) \<noteq> 0 \<and> pg_rightmost_one_pos64_portable 40 = Some (pg_rightmost_one_pos64 40) \<and>
   pg_popcount64_slow 40 = pg_popcount64 40"
  using portable_branches_agree [of 40] by simp

end
