(* ===== verification/Bitmapset.thy ===== *)
theory Bitmapset
  imports Bitutils
begin

unbundle bit_operations_syntax

text \<open>
  The bitmap sets of \<^verbatim>\<open>src/backend/nodes/bitmapset.c\<close>, which carry the column sets of the
  permission checks.

  A \<^verbatim>\<open>Bitmapset *\<close> is \<open>None\<close> for NULL and otherwise \<open>Some ws\<close> with \<open>ws\<close> the \<open>nwords\<close> live
  words of the array (\<^verbatim>\<open>BITS_PER_BITMAPWORD\<close> is 64 on the 64-bit platforms the layer is
  deployed on); an operation that recycles its argument in place returns the new value.
  A loop over the words is a recursion over them, in the order the code visits them.
  \<^verbatim>\<open>elog(ERROR)\<close> on a negative member is an error value.

  The lemmas show that every routine computes the set operation it is named after on the
  abstraction \<open>bms_members\<close>, keeps the representation invariant \<open>bms_wf\<close> (no trailing zero
  word, empty set only as NULL), and that the representation is canonical.
\<close>

section \<open>Data representation and macros\<close>

type_synonym bitmapword = word64
type_synonym bitmapset = "bitmapword list option"

datatype BMS_Comparison = BMS_EQUAL | BMS_SUBSET1 | BMS_SUBSET2 | BMS_DIFFERENT

datatype BMS_Membership = BMS_EMPTY_SET | BMS_SINGLETON | BMS_MULTIPLE

definition WORDNUM :: "int \<Rightarrow> nat" where
  "WORDNUM x = nat (x div 64)"

definition BITNUM :: "int \<Rightarrow> nat" where
  "BITNUM x = nat (x mod 64)"

definition RIGHTMOST_ONE :: "bitmapword \<Rightarrow> bitmapword" where
  "RIGHTMOST_ONE x = x AND (- x)"

definition HAS_MULTIPLE_ONES :: "bitmapword \<Rightarrow> bool" where
  "HAS_MULTIPLE_ONES x = (RIGHTMOST_ONE x \<noteq> x)"

abbreviation negative_member_error :: "'a pg_result" where
  "negative_member_error \<equiv> elog_error ''negative bitmapset member not allowed''"

section \<open>Comparison and construction\<close>

definition bms_copy :: "bitmapset \<Rightarrow> bitmapset" where
  "bms_copy a = a"

fun words_equal_loop :: "bitmapword list \<Rightarrow> bitmapword list \<Rightarrow> bool" where
  "words_equal_loop (x # xs) (y # ys) = (if x \<noteq> y then False else words_equal_loop xs ys)"
| "words_equal_loop _ _ = True"

definition bms_equal :: "bitmapset \<Rightarrow> bitmapset \<Rightarrow> bool" where
  "bms_equal a b =
     (case a of
        None \<Rightarrow> (case b of None \<Rightarrow> True | Some _ \<Rightarrow> False)
      | Some aw \<Rightarrow>
          (case b of
             None \<Rightarrow> False
           | Some bw \<Rightarrow> if length aw \<noteq> length bw then False else words_equal_loop aw bw))"

text \<open>The word lists are visited from the last word down, so the loop gets them reversed.\<close>

fun words_compare_loop :: "bitmapword list \<Rightarrow> bitmapword list \<Rightarrow> int" where
  "words_compare_loop (x # xs) (y # ys) =
     (if x \<noteq> y then (if x > y then 1 else -1) else words_compare_loop xs ys)"
| "words_compare_loop _ _ = 0"

definition bms_compare :: "bitmapset \<Rightarrow> bitmapset \<Rightarrow> int" where
  "bms_compare a b =
     (case a of
        None \<Rightarrow> (if b = None then 0 else -1)
      | Some aw \<Rightarrow>
          (case b of
             None \<Rightarrow> 1
           | Some bw \<Rightarrow>
               if length aw \<noteq> length bw then (if length aw > length bw then 1 else -1)
               else words_compare_loop (rev aw) (rev bw)))"

definition bms_make_singleton :: "int \<Rightarrow> bitmapset pg_result" where
  "bms_make_singleton x =
     (if x < 0 then negative_member_error
      else let wordnum = WORDNUM x; bitnum = BITNUM x
           in Inr (Some ((replicate (wordnum + 1) 0)[wordnum := push_bit bitnum 1])))"

section \<open>Set algebra on fresh results\<close>

text \<open>\<^verbatim>\<open>result->words[i] |= other->words[i]\<close> for the words of the shorter \<open>other\<close>.\<close>

fun or_loop :: "bitmapword list \<Rightarrow> bitmapword list \<Rightarrow> bitmapword list" where
  "or_loop (r # rs) (q # qs) = (r OR q) # or_loop rs qs"
| "or_loop rs _ = rs"

definition bms_union :: "bitmapset \<Rightarrow> bitmapset \<Rightarrow> bitmapset" where
  "bms_union a b =
     (case a of
        None \<Rightarrow> bms_copy b
      | Some aw \<Rightarrow>
          (case b of
             None \<Rightarrow> bms_copy a
           | Some bw \<Rightarrow>
               if length aw \<le> length bw then Some (or_loop bw aw) else Some (or_loop aw bw)))"

text \<open>
  The loops that clear bits and remember the last non-zero word: \<open>f\<close> is \<^verbatim>\<open>&\<close> for an
  intersection and \<^verbatim>\<open>& ~\<close> for a difference; \<open>i\<close> is the index of the first word left, and
  the loop runs over the words of its first list.
\<close>

fun clear_loop ::
  "(bitmapword \<Rightarrow> bitmapword \<Rightarrow> bitmapword) \<Rightarrow> nat \<Rightarrow> bitmapword list \<Rightarrow> bitmapword list \<Rightarrow>
   int \<Rightarrow> bitmapword list \<times> int" where
  "clear_loop f i (r # rs) (q # qs) lastnonzero =
     (let w = f r q;
          (ws, l) = clear_loop f (Suc i) rs qs (if w \<noteq> 0 then int i else lastnonzero)
      in (w # ws, l))"
| "clear_loop f i rs _ lastnonzero = (rs, lastnonzero)"

text \<open>\<^verbatim>\<open>nwords = lastnonzero + 1\<close>, with NULL when every word became zero.\<close>

definition trim_result :: "bitmapword list \<times> int \<Rightarrow> bitmapset" where
  "trim_result r =
     (case r of (ws, lastnonzero) \<Rightarrow>
        if lastnonzero = -1 then None else Some (take (nat (lastnonzero + 1)) ws))"

definition bms_intersect :: "bitmapset \<Rightarrow> bitmapset \<Rightarrow> bitmapset" where
  "bms_intersect a b =
     (case (a, b) of
        (Some aw, Some bw) \<Rightarrow>
          (if length aw \<le> length bw then trim_result (clear_loop (AND) 0 aw bw (-1))
           else trim_result (clear_loop (AND) 0 bw aw (-1)))
      | _ \<Rightarrow> None)"

fun nonempty_difference_loop :: "bitmapword list \<Rightarrow> bitmapword list \<Rightarrow> bool" where
  "nonempty_difference_loop (x # xs) (y # ys) =
     (if x AND NOT y \<noteq> 0 then True else nonempty_difference_loop xs ys)"
| "nonempty_difference_loop _ _ = False"

definition bms_nonempty_difference :: "bitmapset \<Rightarrow> bitmapset \<Rightarrow> bool" where
  "bms_nonempty_difference a b =
     (case a of
        None \<Rightarrow> False
      | Some aw \<Rightarrow>
          (case b of
             None \<Rightarrow> True
           | Some bw \<Rightarrow>
               if length aw > length bw then True else nonempty_difference_loop aw bw))"

text \<open>\<^verbatim>\<open>words[i] &= ~b->words[i]\<close> over all words of the shorter \<open>b\<close>.\<close>

fun andnot_loop :: "bitmapword list \<Rightarrow> bitmapword list \<Rightarrow> bitmapword list" where
  "andnot_loop (r # rs) (q # qs) = (r AND NOT q) # andnot_loop rs qs"
| "andnot_loop rs _ = rs"

definition bms_difference :: "bitmapset \<Rightarrow> bitmapset \<Rightarrow> bitmapset" where
  "bms_difference a b =
     (case a of
        None \<Rightarrow> None
      | Some aw \<Rightarrow>
          (case b of
             None \<Rightarrow> bms_copy a
           | Some bw \<Rightarrow>
               if \<not> bms_nonempty_difference a b then None
               else if length aw > length bw then Some (andnot_loop aw bw)
               else (case clear_loop (\<lambda>r q. r AND NOT q) 0 aw bw (-1) of
                       (ws, lastnonzero) \<Rightarrow> Some (take (nat (lastnonzero + 1)) ws))))"

fun is_subset_loop :: "bitmapword list \<Rightarrow> bitmapword list \<Rightarrow> bool" where
  "is_subset_loop (x # xs) (y # ys) = (if x AND NOT y \<noteq> 0 then False else is_subset_loop xs ys)"
| "is_subset_loop _ _ = True"

definition bms_is_subset :: "bitmapset \<Rightarrow> bitmapset \<Rightarrow> bool" where
  "bms_is_subset a b =
     (case a of
        None \<Rightarrow> True
      | Some aw \<Rightarrow>
          (case b of
             None \<Rightarrow> False
           | Some bw \<Rightarrow> if length aw > length bw then False else is_subset_loop aw bw))"

text \<open>\<open>None\<close> is the early \<^verbatim>\<open>return BMS_DIFFERENT\<close>; \<open>Some\<close> is the status after the common words.\<close>

fun subset_compare_loop ::
  "bitmapword list \<Rightarrow> bitmapword list \<Rightarrow> BMS_Comparison \<Rightarrow> BMS_Comparison option" where
  "subset_compare_loop (aword # as) (bword # bs) result =
     (let step1 =
            (if aword AND NOT bword \<noteq> 0
             then (if result = BMS_SUBSET1 then None else Some BMS_SUBSET2)
             else Some result)
      in case step1 of
           None \<Rightarrow> None
         | Some result1 \<Rightarrow>
             if bword AND NOT aword \<noteq> 0
             then (if result1 = BMS_SUBSET2 then None
                   else subset_compare_loop as bs BMS_SUBSET1)
             else subset_compare_loop as bs result1)"
| "subset_compare_loop _ _ result = Some result"

definition bms_subset_compare :: "bitmapset \<Rightarrow> bitmapset \<Rightarrow> BMS_Comparison" where
  "bms_subset_compare a b =
     (case a of
        None \<Rightarrow> (case b of None \<Rightarrow> BMS_EQUAL | Some _ \<Rightarrow> BMS_SUBSET1)
      | Some aw \<Rightarrow>
          (case b of
             None \<Rightarrow> BMS_SUBSET2
           | Some bw \<Rightarrow>
               (case subset_compare_loop aw bw BMS_EQUAL of
                  None \<Rightarrow> BMS_DIFFERENT
                | Some result \<Rightarrow>
                    if length aw > length bw
                    then (if result = BMS_SUBSET1 then BMS_DIFFERENT else BMS_SUBSET2)
                    else if length aw < length bw
                    then (if result = BMS_SUBSET2 then BMS_DIFFERENT else BMS_SUBSET1)
                    else result)))"

section \<open>Membership and counting\<close>

definition bms_is_member :: "int \<Rightarrow> bitmapset \<Rightarrow> bool pg_result" where
  "bms_is_member x a =
     (if x < 0 then negative_member_error
      else case a of
             None \<Rightarrow> Inr False
           | Some ws \<Rightarrow>
               let wordnum = WORDNUM x; bitnum = BITNUM x
               in if wordnum \<ge> length ws then Inr False
                  else Inr (ws ! wordnum AND push_bit bitnum 1 \<noteq> 0))"

fun count_loop :: "bitmapword list \<Rightarrow> int \<Rightarrow> int" where
  "count_loop [] result = result"
| "count_loop (w # ws) result =
     count_loop ws (if w \<noteq> 0 then result + int (pg_popcount64 w) else result)"

definition bms_member_index :: "bitmapset \<Rightarrow> int \<Rightarrow> int pg_result" where
  "bms_member_index a x =
     rbind (bms_is_member x a) (\<lambda>is_member.
       if \<not> is_member then Inr (-1)
       else case a of
              None \<Rightarrow> Inr (-1)
            | Some ws \<Rightarrow>
                let wordnum = WORDNUM x; bitnum = BITNUM x;
                    result = count_loop (take wordnum ws) 0;
                    mask = push_bit bitnum 1 - 1
                in Inr (result + int (pg_popcount64 (ws ! wordnum AND mask))))"

fun overlap_loop :: "bitmapword list \<Rightarrow> bitmapword list \<Rightarrow> bool" where
  "overlap_loop (x # xs) (y # ys) = (if x AND y \<noteq> 0 then True else overlap_loop xs ys)"
| "overlap_loop _ _ = False"

definition bms_overlap :: "bitmapset \<Rightarrow> bitmapset \<Rightarrow> bool" where
  "bms_overlap a b =
     (case (a, b) of (Some aw, Some bw) \<Rightarrow> overlap_loop aw bw | _ \<Rightarrow> False)"

fun overlap_list_loop :: "bitmapword list \<Rightarrow> int list \<Rightarrow> bool pg_result" where
  "overlap_list_loop ws [] = Inr False"
| "overlap_list_loop ws (x # xs) =
     (if x < 0 then negative_member_error
      else if WORDNUM x < length ws \<and> ws ! WORDNUM x AND push_bit (BITNUM x) 1 \<noteq> 0 then Inr True
      else overlap_list_loop ws xs)"

definition bms_overlap_list :: "bitmapset \<Rightarrow> int list \<Rightarrow> bool pg_result" where
  "bms_overlap_list a b =
     (case a of
        None \<Rightarrow> Inr False
      | Some ws \<Rightarrow> if b = [] then Inr False else overlap_list_loop ws b)"

text \<open>
  The scan of \<^verbatim>\<open>bms_singleton_member\<close> and \<^verbatim>\<open>bms_get_singleton_member\<close>: \<open>None\<close> when a second
  member is met, otherwise the value of \<open>result\<close> at the end of the loop.
\<close>

fun singleton_loop :: "nat \<Rightarrow> bitmapword list \<Rightarrow> int \<Rightarrow> int option" where
  "singleton_loop wordnum [] result = Some result"
| "singleton_loop wordnum (w # ws) result =
     (if w \<noteq> 0
      then (if result \<ge> 0 \<or> HAS_MULTIPLE_ONES w then None
            else singleton_loop (Suc wordnum) ws
                   (int wordnum * 64 + int (pg_rightmost_one_pos64 w)))
      else singleton_loop (Suc wordnum) ws result)"

definition bms_singleton_member :: "bitmapset \<Rightarrow> int pg_result" where
  "bms_singleton_member a =
     (case a of
        None \<Rightarrow> elog_error ''bitmapset is empty''
      | Some ws \<Rightarrow>
          (case singleton_loop 0 ws (-1) of
             None \<Rightarrow> elog_error ''bitmapset has multiple members''
           | Some result \<Rightarrow> Inr result))"

definition bms_get_singleton_member :: "bitmapset \<Rightarrow> int option" where
  "bms_get_singleton_member a =
     (case a of None \<Rightarrow> None | Some ws \<Rightarrow> singleton_loop 0 ws (-1))"

definition bms_num_members :: "bitmapset \<Rightarrow> int" where
  "bms_num_members a = (case a of None \<Rightarrow> 0 | Some ws \<Rightarrow> count_loop ws 0)"

fun membership_loop :: "bitmapword list \<Rightarrow> BMS_Membership \<Rightarrow> BMS_Membership" where
  "membership_loop [] result = result"
| "membership_loop (w # ws) result =
     (if w \<noteq> 0
      then (if result \<noteq> BMS_EMPTY_SET \<or> HAS_MULTIPLE_ONES w then BMS_MULTIPLE
            else membership_loop ws BMS_SINGLETON)
      else membership_loop ws result)"

definition bms_membership :: "bitmapset \<Rightarrow> BMS_Membership" where
  "bms_membership a =
     (case a of None \<Rightarrow> BMS_EMPTY_SET | Some ws \<Rightarrow> membership_loop ws BMS_EMPTY_SET)"

section \<open>Operations that recycle their input\<close>

text \<open>\<^verbatim>\<open>repalloc\<close> to \<open>wordnum + 1\<close> words and zero the enlarged portion.\<close>

definition enlarge_words :: "bitmapword list \<Rightarrow> nat \<Rightarrow> bitmapword list" where
  "enlarge_words ws wordnum =
     (if wordnum \<ge> length ws then ws @ replicate (wordnum + 1 - length ws) 0 else ws)"

definition bms_add_member :: "bitmapset \<Rightarrow> int \<Rightarrow> bitmapset pg_result" where
  "bms_add_member a x =
     (if x < 0 then negative_member_error
      else case a of
             None \<Rightarrow> bms_make_singleton x
           | Some ws \<Rightarrow>
               let wordnum = WORDNUM x; bitnum = BITNUM x; ws' = enlarge_words ws wordnum
               in Inr (Some (ws'[wordnum := ws' ! wordnum OR push_bit bitnum 1])))"

text \<open>The scan for the last non-empty word below index \<open>i\<close>: the new word count.\<close>

fun del_trim_loop :: "bitmapword list \<Rightarrow> nat \<Rightarrow> nat option" where
  "del_trim_loop ws 0 = None"
| "del_trim_loop ws (Suc i) = (if ws ! i \<noteq> 0 then Some (i + 1) else del_trim_loop ws i)"

definition bms_del_member :: "bitmapset \<Rightarrow> int \<Rightarrow> bitmapset pg_result" where
  "bms_del_member a x =
     (if x < 0 then negative_member_error
      else case a of
             None \<Rightarrow> Inr None
           | Some ws \<Rightarrow>
               let wordnum = WORDNUM x; bitnum = BITNUM x
               in if wordnum \<ge> length ws then Inr a
                  else let ws' = ws[wordnum := ws ! wordnum AND NOT (push_bit bitnum 1)]
                       in if ws' ! wordnum = 0 \<and> wordnum = length ws' - 1
                          then (case del_trim_loop ws' wordnum of
                                  Some nwords \<Rightarrow> Inr (Some (take nwords ws'))
                                | None \<Rightarrow> Inr None)
                          else Inr (Some ws'))"

definition bms_add_members :: "bitmapset \<Rightarrow> bitmapset \<Rightarrow> bitmapset" where
  "bms_add_members a b =
     (case a of
        None \<Rightarrow> bms_copy b
      | Some aw \<Rightarrow>
          (case b of
             None \<Rightarrow> a
           | Some bw \<Rightarrow>
               if length aw < length bw then Some (or_loop bw aw) else Some (or_loop aw bw)))"

text \<open>All bits from \<open>lbitnum\<close> up, and all bits up to the one left by a shift of \<open>ushiftbits\<close>.\<close>

definition lower_mask :: "nat \<Rightarrow> bitmapword" where
  "lower_mask lbitnum = NOT (push_bit lbitnum 1 - 1)"

definition upper_mask :: "nat \<Rightarrow> bitmapword" where
  "upper_mask ushiftbits = drop_bit ushiftbits (NOT 0)"

fun range_fill_loop :: "bitmapword list \<Rightarrow> nat \<Rightarrow> nat \<Rightarrow> bitmapword list" where
  "range_fill_loop ws wordnum 0 = ws"
| "range_fill_loop ws wordnum (Suc n) = range_fill_loop (ws[wordnum := NOT 0]) (Suc wordnum) n"

definition bms_add_range :: "bitmapset \<Rightarrow> int \<Rightarrow> int \<Rightarrow> bitmapset pg_result" where
  "bms_add_range a lower upper =
     (if upper < lower then Inr a
      else if lower < 0 then negative_member_error
      else
        let uwordnum = WORDNUM upper;
            ws = (case a of
                    None \<Rightarrow> replicate (uwordnum + 1) 0
                  | Some ws \<Rightarrow> enlarge_words ws uwordnum);
            lwordnum = WORDNUM lower;
            lbitnum = BITNUM lower;
            ushiftbits = 64 - (BITNUM upper + 1)
        in if lwordnum = uwordnum
           then Inr (Some (ws[lwordnum := ws ! lwordnum OR
                                (lower_mask lbitnum AND upper_mask ushiftbits)]))
           else
             let ws1 = ws[lwordnum := ws ! lwordnum OR lower_mask lbitnum];
                 ws2 = range_fill_loop ws1 (lwordnum + 1) (uwordnum - (lwordnum + 1))
             in Inr (Some (ws2[uwordnum := ws2 ! uwordnum OR upper_mask ushiftbits])))"

definition bms_int_members :: "bitmapset \<Rightarrow> bitmapset \<Rightarrow> bitmapset" where
  "bms_int_members a b =
     (case a of
        None \<Rightarrow> None
      | Some aw \<Rightarrow>
          (case b of
             None \<Rightarrow> None
           | Some bw \<Rightarrow> trim_result (clear_loop (AND) 0 aw bw (-1))))"

definition bms_del_members :: "bitmapset \<Rightarrow> bitmapset \<Rightarrow> bitmapset" where
  "bms_del_members a b =
     (case a of
        None \<Rightarrow> None
      | Some aw \<Rightarrow>
          (case b of
             None \<Rightarrow> a
           | Some bw \<Rightarrow>
               if length aw > length bw then Some (andnot_loop aw bw)
               else trim_result (clear_loop (\<lambda>r q. r AND NOT q) 0 aw bw (-1))))"

definition bms_join :: "bitmapset \<Rightarrow> bitmapset \<Rightarrow> bitmapset" where
  "bms_join a b =
     (case a of
        None \<Rightarrow> b
      | Some aw \<Rightarrow>
          (case b of
             None \<Rightarrow> a
           | Some bw \<Rightarrow>
               if length aw < length bw then Some (or_loop bw aw) else Some (or_loop aw bw)))"

section \<open>Iteration\<close>

text \<open>The words from index \<open>wordnum\<close> on; after the first word the mask is all ones.\<close>

fun next_loop :: "nat \<Rightarrow> bitmapword list \<Rightarrow> bitmapword \<Rightarrow> int" where
  "next_loop wordnum [] msk = -2"
| "next_loop wordnum (w # ws) msk =
     (let w' = w AND msk
      in if w' \<noteq> 0 then int wordnum * 64 + int (pg_rightmost_one_pos64 w')
         else next_loop (Suc wordnum) ws (NOT 0))"

definition bms_next_member :: "bitmapset \<Rightarrow> int \<Rightarrow> int" where
  "bms_next_member a prevbit =
     (case a of
        None \<Rightarrow> -2
      | Some ws \<Rightarrow>
          let prevbit1 = prevbit + 1;
              msk = push_bit (BITNUM prevbit1) (NOT 0)
          in next_loop (WORDNUM prevbit1) (drop (WORDNUM prevbit1) ws) msk)"

text \<open>
  The words from index \<open>wordnum\<close> down to 0, read one at a time; \<open>None\<close> is a read past the
  array, which the routine's contract excludes.
\<close>

fun prev_loop :: "bitmapword list \<Rightarrow> nat \<Rightarrow> bitmapword \<Rightarrow> int option" where
  "prev_loop ws wordnum msk =
     (if wordnum \<ge> length ws then None
      else let w = ws ! wordnum AND msk
           in if w \<noteq> 0 then Some (int wordnum * 64 + int (pg_leftmost_one_pos64 w))
              else (case wordnum of 0 \<Rightarrow> Some (-2) | Suc n \<Rightarrow> prev_loop ws n (NOT 0)))"

declare prev_loop.simps [simp del]

definition bms_prev_member :: "bitmapset \<Rightarrow> int \<Rightarrow> int option" where
  "bms_prev_member a prevbit =
     (case a of
        None \<Rightarrow> Some (-2)
      | Some ws \<Rightarrow>
          if prevbit = 0 then Some (-2)
          else
            let prevbit1 = (if prevbit = -1 then int (length ws) * 64 - 1 else prevbit - 1);
                ushiftbits = 64 - (BITNUM prevbit1 + 1)
            in prev_loop ws (WORDNUM prevbit1) (upper_mask ushiftbits))"

text \<open>
  The loop \<^verbatim>\<open>x = -1; while ((x = bms_next_member(a, x)) >= 0) { body }\<close> as the callers write it
  (the comment at bms_next_member gives it): \<open>body x = Some r\<close> when the body leaves the enclosing
  routine with \<open>r\<close>, \<open>None\<close> when it goes on; \<open>fin\<close> is what follows the loop.
\<close>

partial_function (option) member_loop ::
  "(int \<Rightarrow> 'r option) \<Rightarrow> 'r \<Rightarrow> bitmapset \<Rightarrow> int \<Rightarrow> 'r option" where
  "member_loop body fin a x =
     (let x' = bms_next_member a x
      in if x' \<ge> 0
         then (case body x' of Some r \<Rightarrow> Some r | None \<Rightarrow> member_loop body fin a x')
         else Some fin)"

definition bitmap_match :: "bitmapset \<Rightarrow> bitmapset \<Rightarrow> bool" where
  "bitmap_match key1 key2 = (\<not> bms_equal key1 key2)"

section \<open>Abstraction and invariant\<close>

definition word_members :: "bitmapword list \<Rightarrow> nat set" where
  "word_members ws = {n. n div 64 < length ws \<and> bit (ws ! (n div 64)) (n mod 64)}"

definition bms_members :: "bitmapset \<Rightarrow> nat set" where
  "bms_members a = (case a of None \<Rightarrow> {} | Some ws \<Rightarrow> word_members ws)"

definition bms_wf :: "bitmapset \<Rightarrow> bool" where
  "bms_wf a = (case a of None \<Rightarrow> True | Some ws \<Rightarrow> ws \<noteq> [] \<and> last ws \<noteq> 0)"

text \<open>The word array after the range has been switched on, for an array that reaches \<open>U\<close>.\<close>

definition range_words :: "bitmapword list \<Rightarrow> nat \<Rightarrow> nat \<Rightarrow> bitmapword list" where
  "range_words ws L U =
     (let lw = L div 64; uw = U div 64; um = upper_mask (64 - (U mod 64 + 1))
      in if lw = uw then ws[lw := ws ! lw OR (lower_mask (L mod 64) AND um)]
         else let ws2 = range_fill_loop (ws[lw := ws ! lw OR lower_mask (L mod 64)]) (lw + 1) (uw - (lw + 1))
              in ws2[uw := ws2 ! uw OR um])"

text \<open>\<open>d\<close> is the highest-numbered bit on which two sets differ, and it belongs to the first.\<close>

definition top_difference :: "nat set \<Rightarrow> nat set \<Rightarrow> nat \<Rightarrow> bool" where
  "top_difference A B d \<longleftrightarrow> d \<in> A \<and> d \<notin> B \<and> (\<forall>m > d. m \<in> A \<longleftrightarrow> m \<in> B)"

text \<open>The verdict when \<open>p\<close>: something of the first set is missing from the second, \<open>q\<close>: conversely.\<close>

definition comparison_of :: "bool \<Rightarrow> bool \<Rightarrow> BMS_Comparison" where
  "comparison_of p q =
     (if p then (if q then BMS_DIFFERENT else BMS_SUBSET2)
      else if q then BMS_SUBSET1 else BMS_EQUAL)"

fun extra_bits :: "bitmapword list \<Rightarrow> bitmapword list \<Rightarrow> bool" where
  "extra_bits (x # xs) (y # ys) \<longleftrightarrow> x AND NOT y \<noteq> 0 \<or> extra_bits xs ys"
| "extra_bits _ _ \<longleftrightarrow> False"

lemma bms_members_simps [simp]:
  "bms_members None = {}"
  "bms_members (Some ws) = word_members ws"
  by (simp_all add: bms_members_def)

lemma bms_wf_simps [simp]:
  "bms_wf None"
  "bms_wf (Some ws) \<longleftrightarrow> ws \<noteq> [] \<and> last ws \<noteq> 0"
  by (simp_all add: bms_wf_def)

lemma word_members_iff:
  "n \<in> word_members ws \<longleftrightarrow> n div 64 < length ws \<and> bit (ws ! (n div 64)) (n mod 64)"
  by (simp add: word_members_def)

lemma word_members_less: "n \<in> word_members ws \<Longrightarrow> n < 64 * length ws"
  by (auto simp: word_members_iff)

lemma finite_word_members [simp]: "finite (word_members ws)"
  by (rule finite_subset [of _ "{..<64 * length ws}"]) (auto dest: word_members_less)

lemma finite_bms_members [simp]: "finite (bms_members a)"
  by (cases a) simp_all

lemma word_nonzero_iff:
  assumes "i < length ws"
  shows "ws ! i \<noteq> 0 \<longleftrightarrow> (\<exists>n \<in> word_members ws. n div 64 = i)"
proof
  assume "ws ! i \<noteq> 0"
  then obtain k where k: "bit (ws ! i) k" by (auto simp: word_bits)
  then have "k < 64" by (rule bit64_less)
  with k assms have "64 * i + k \<in> word_members ws" and "(64 * i + k) div 64 = i"
    by (simp_all add: word_members_iff)
  then show "\<exists>n \<in> word_members ws. n div 64 = i" by blast
next
  assume "\<exists>n \<in> word_members ws. n div 64 = i"
  then show "ws ! i \<noteq> 0" by (auto simp: word_members_iff)
qed

lemma bit_word_iff_member:
  assumes "i < length ws"
  shows "bit (ws ! i) k \<longleftrightarrow> k < 64 \<and> 64 * i + k \<in> word_members ws"
  using assms bit64_less [of "ws ! i" k] by (auto simp: word_members_iff)

lemma word_members_inject:
  assumes "length xs = length ys" and "word_members xs = word_members ys"
  shows "xs = ys"
proof (rule nth_equalityI [OF assms(1)])
  fix i assume i: "i < length xs"
  show "xs ! i = ys ! i"
    by (rule bit_eqI) (use i assms in \<open>simp add: bit_word_iff_member\<close>)
qed

lemma wf_iff_last_member:
  "bms_wf (Some ws) \<longleftrightarrow> (\<exists>n \<in> word_members ws. n div 64 = length ws - 1)"
proof (cases "ws = []")
  case True
  then show ?thesis by (auto simp: word_members_iff)
next
  case False
  then have "length ws - 1 < length ws" by simp
  with False show ?thesis
    using word_nonzero_iff [of "length ws - 1" ws] by (simp add: last_conv_nth)
qed

lemmas wf_last_member = wf_iff_last_member [THEN iffD1]

lemma wf_members_nonempty: "bms_wf (Some ws) \<Longrightarrow> word_members ws \<noteq> {}"
  using wf_last_member by blast

lemma wf_length_eq:
  assumes "bms_wf (Some xs)" and "bms_wf (Some ys)" and "word_members xs \<subseteq> word_members ys"
  shows "length xs \<le> length ys"
proof -
  from wf_last_member [OF assms(1)] assms(3) obtain n
    where "n \<in> word_members ys" "n div 64 = length xs - 1" by auto
  with assms(1) show ?thesis by (auto simp: word_members_iff)
qed

lemma bms_canonical:
  assumes "bms_wf a" and "bms_wf b"
  shows "bms_members a = bms_members b \<longleftrightarrow> a = b"
proof (cases a; cases b)
  fix xs ys assume ab: "a = Some xs" "b = Some ys"
  show ?thesis
  proof
    assume eq: "bms_members a = bms_members b"
    with ab assms have "length xs = length ys"
      by (intro antisym wf_length_eq) auto
    with eq ab show "a = b" by (simp add: word_members_inject)
  qed simp
qed (use assms wf_members_nonempty in auto)

section \<open>Member numbers\<close>

lemma WORDNUM_int [simp]: "WORDNUM (int n) = n div 64"
  by (simp add: WORDNUM_def nat_div_distrib)

lemma BITNUM_int [simp]: "BITNUM (int n) = n mod 64"
  by (simp add: BITNUM_def nat_mod_distrib)

lemma BITNUM_less [simp]: "BITNUM x < 64"
  by (simp add: BITNUM_def nat_less_iff)

lemma and_exp_neq_0 [word_bits]: "(w :: word64) AND 2 ^ k \<noteq> 0 \<longleftrightarrow> bit w k"
  by (simp add: and_exp_eq_0_iff_not_bit)

lemma bms_is_member_int: "bms_is_member (int n) a = Inr (n \<in> bms_members a)"
  by (cases a) (auto simp: bms_is_member_def word_members_iff and_exp_eq_0_iff_not_bit Let_def)

section \<open>The word loops\<close>

lemma words_equal_loop_iff: "length xs = length ys \<Longrightarrow> words_equal_loop xs ys \<longleftrightarrow> xs = ys"
  by (induction xs ys rule: words_equal_loop.induct) auto

lemma length_or_loop [simp]: "length (or_loop rs qs) = length rs"
  by (induction rs qs rule: or_loop.induct) auto

lemma nth_or_loop:
  "i < length rs \<Longrightarrow> or_loop rs qs ! i = (if i < length qs then rs ! i OR qs ! i else rs ! i)"
  by (induction rs qs arbitrary: i rule: or_loop.induct) (auto simp: nth_Cons split: nat.split)

lemma word_members_or_loop:
  "length qs \<le> length rs \<Longrightarrow> word_members (or_loop rs qs) = word_members rs \<union> word_members qs"
  by (auto simp: word_members_iff nth_or_loop bit_or_iff split: if_splits)

lemma wf_or_loop:
  "length qs \<le> length rs \<Longrightarrow> bms_wf (Some rs) \<Longrightarrow> bms_wf (Some (or_loop rs qs))"
  unfolding wf_iff_last_member by (auto simp: word_members_or_loop)

lemma length_andnot_loop [simp]: "length (andnot_loop rs qs) = length rs"
  by (induction rs qs rule: andnot_loop.induct) auto

lemma nth_andnot_loop:
  "i < length rs \<Longrightarrow>
   andnot_loop rs qs ! i = (if i < length qs then rs ! i AND NOT (qs ! i) else rs ! i)"
  by (induction rs qs arbitrary: i rule: andnot_loop.induct) (auto simp: nth_Cons split: nat.split)

lemma word_members_andnot_loop:
  "word_members (andnot_loop rs qs) = word_members rs - word_members qs"
  by (auto simp: word_members_iff nth_andnot_loop bit_simps split: if_splits)

lemma length_clear_loop [simp]: "length (fst (clear_loop f i rs qs l)) = length rs"
  by (induction f i rs qs l rule: clear_loop.induct) (auto simp: Let_def split: prod.split)

lemma nth_clear_loop:
  "k < length rs \<Longrightarrow>
   fst (clear_loop f i rs qs l) ! k = (if k < length qs then f (rs ! k) (qs ! k) else rs ! k)"
proof (induction f i rs qs l arbitrary: k rule: clear_loop.induct)
  case (1 f i r rs q qs l)
  then show ?case by (cases k) (auto simp: Let_def split: prod.split)
qed auto

text \<open>\<open>lastnonzero\<close> after the loop: the last index whose new word is not zero.\<close>

lemma snd_clear_loop:
  defines "g \<equiv> \<lambda>f rs qs k. f (rs ! k) (qs ! k) :: bitmapword"
  shows "(snd (clear_loop f i rs qs l) = l \<and> (\<forall>k < min (length rs) (length qs). g f rs qs k = 0)) \<or>
    (\<exists>k < min (length rs) (length qs). snd (clear_loop f i rs qs l) = int (i + k) \<and>
       g f rs qs k \<noteq> 0 \<and> (\<forall>j. k < j \<and> j < min (length rs) (length qs) \<longrightarrow> g f rs qs j = 0))"
proof (induction f i rs qs l rule: clear_loop.induct)
  case (1 f i r rs q qs l)
  let ?w = "f r q" and ?n = "min (length rs) (length qs)"
  let ?l = "if ?w \<noteq> 0 then int i else l"
  have snd: "snd (clear_loop f i (r # rs) (q # qs) l) = snd (clear_loop f (Suc i) rs qs ?l)"
    by (simp add: Let_def split: prod.split)
  have g: "g f (r # rs) (q # qs) (Suc k) = g f rs qs k" "g f (r # rs) (q # qs) 0 = ?w" for k
    by (simp_all add: g_def)
  have n: "min (length (r # rs)) (length (q # qs)) = Suc ?n" by simp
  consider (none) "snd (clear_loop f (Suc i) rs qs ?l) = ?l" "\<forall>k < ?n. g f rs qs k = 0"
    | (some) k where "k < ?n" "snd (clear_loop f (Suc i) rs qs ?l) = int (Suc i + k)"
        "g f rs qs k \<noteq> 0" "\<forall>j. k < j \<and> j < ?n \<longrightarrow> g f rs qs j = 0"
    using 1 [OF refl] by blast
  then show ?case
  proof cases
    case none
    then show ?thesis unfolding snd n
      by (cases "?w = 0") (auto simp: g All_less_Suc2 less_Suc_eq_0_disj)
  next
    case some
    show ?thesis unfolding snd n
      by (intro disjI2 exI [of _ "Suc k"]) (use some in \<open>auto simp: g less_Suc_eq_0_disj\<close>)
  qed
qed auto

lemma word_members_take: "word_members (take n ws) = {m \<in> word_members ws. m div 64 < n}"
  by (auto simp: word_members_iff)

lemma clear_loop_take:
  assumes run: "clear_loop f 0 rs qs (-1) = (ws, l)"
  defines "S \<equiv> {m. m div 64 < min (length rs) (length qs) \<and>
    bit (f (rs ! (m div 64)) (qs ! (m div 64))) (m mod 64)}"
  shows "word_members (take (nat (l + 1)) ws) = S"
    and "l = -1 \<longleftrightarrow> S = {}"
    and "l \<noteq> -1 \<Longrightarrow> bms_wf (Some (take (nat (l + 1)) ws))"
proof -
  let ?n = "min (length rs) (length qs)"
  have len: "length ws = length rs" using length_clear_loop [of f 0 rs qs "-1"] run by simp
  have nth: "ws ! k = f (rs ! k) (qs ! k)" if "k < ?n" for k
    using nth_clear_loop [of k rs f 0 qs "-1"] run that by simp
  consider (none) "l = -1" "\<forall>k < ?n. f (rs ! k) (qs ! k) = 0"
    | (some) k where "k < ?n" "l = int k" "f (rs ! k) (qs ! k) \<noteq> 0"
        "\<forall>j. k < j \<and> j < ?n \<longrightarrow> f (rs ! j) (qs ! j) = 0"
    using snd_clear_loop [of f 0 rs qs "-1"] run by auto
  then have "word_members (take (nat (l + 1)) ws) = S \<and> (l = -1 \<longleftrightarrow> S = {}) \<and>
      (l \<noteq> -1 \<longrightarrow> bms_wf (Some (take (nat (l + 1)) ws)))"
  proof cases
    case none
    then show ?thesis by (auto simp: S_def word_members_iff)
  next
    case some
    have "x div 64 \<le> k" if "x \<in> S" for x
    proof (rule ccontr)
      assume "\<not> x div 64 \<le> k"
      with some(4) that have "f (rs ! (x div 64)) (qs ! (x div 64)) = 0" by (simp add: S_def)
      with that show False by (simp add: S_def)
    qed
    then have mem: "word_members (take (Suc k) ws) = S"
      using some(1) len nth by (auto simp: S_def word_members_iff less_Suc_eq_le)
    from some(3) obtain b where "bit (f (rs ! k) (qs ! k)) b" by (auto simp: word_bits)
    moreover from this have "b < 64" by (rule bit64_less)
    ultimately have kb: "64 * k + b \<in> S" "(64 * k + b) div 64 = k"
      using some(1) by (simp_all add: S_def)
    have "length (take (Suc k) ws) - 1 = k" using some(1) len by simp
    with kb mem have "bms_wf (Some (take (Suc k) ws))" unfolding wf_iff_last_member by metis
    moreover have "nat (l + 1) = Suc k" using some(2) by simp
    moreover have "S \<noteq> {}" "l \<noteq> -1" using kb(1) some(2) by auto
    ultimately show ?thesis using mem by simp
  qed
  then show "word_members (take (nat (l + 1)) ws) = S" and "l = -1 \<longleftrightarrow> S = {}"
    and "l \<noteq> -1 \<Longrightarrow> bms_wf (Some (take (nat (l + 1)) ws))" by blast+
qed

lemma trim_clear_loop:
  "bms_members (trim_result (clear_loop f 0 rs qs (-1))) =
     {m. m div 64 < min (length rs) (length qs) \<and>
         bit (f (rs ! (m div 64)) (qs ! (m div 64))) (m mod 64)}"
  "bms_wf (trim_result (clear_loop f 0 rs qs (-1)))"
proof -
  obtain ws l where run: "clear_loop f 0 rs qs (-1) = (ws, l)" by fastforce
  note t = clear_loop_take [OF run]
  show "bms_members (trim_result (clear_loop f 0 rs qs (-1))) =
     {m. m div 64 < min (length rs) (length qs) \<and>
         bit (f (rs ! (m div 64)) (qs ! (m div 64))) (m mod 64)}"
    using t(1,2) by (auto simp: run trim_result_def)
  show "bms_wf (trim_result (clear_loop f 0 rs qs (-1)))"
    using t(3) by (simp add: run trim_result_def)
qed

section \<open>Refinement of the set algebra\<close>

lemma nonempty_difference_loop_iff:
  "length xs \<le> length ys \<Longrightarrow>
   nonempty_difference_loop xs ys \<longleftrightarrow> (\<exists>i < length xs. xs ! i AND NOT (ys ! i) \<noteq> 0)"
  by (induction xs ys rule: nonempty_difference_loop.induct) (auto simp: Ex_less_Suc2)

lemma is_subset_loop_iff:
  "length xs \<le> length ys \<Longrightarrow>
   is_subset_loop xs ys \<longleftrightarrow> (\<forall>i < length xs. xs ! i AND NOT (ys ! i) = 0)"
  by (induction xs ys rule: is_subset_loop.induct) (auto simp: All_less_Suc2)

lemma overlap_loop_iff:
  "overlap_loop xs ys \<longleftrightarrow> (\<exists>i < min (length xs) (length ys). xs ! i AND ys ! i \<noteq> 0)"
  by (induction xs ys rule: overlap_loop.induct) (auto simp: Ex_less_Suc2)

lemma words_subset_iff:
  assumes "length xs \<le> length ys"
  shows "(\<forall>i < length xs. xs ! i AND NOT (ys ! i) = 0) \<longleftrightarrow> word_members xs \<subseteq> word_members ys"
proof
  assume "\<forall>i < length xs. xs ! i AND NOT (ys ! i) = 0"
  then show "word_members xs \<subseteq> word_members ys"
    using assms by (auto simp: word_members_iff word_subset_iff)
next
  assume "word_members xs \<subseteq> word_members ys"
  then show "\<forall>i < length xs. xs ! i AND NOT (ys ! i) = 0"
    using assms by (auto simp: word_subset_iff bit_word_iff_member)
qed

lemma words_overlap_iff:
  "(\<exists>i < min (length xs) (length ys). xs ! i AND ys ! i \<noteq> 0) \<longleftrightarrow>
   word_members xs \<inter> word_members ys \<noteq> {}" (is "?L \<longleftrightarrow> ?R")
proof
  assume ?L
  then obtain i k where "i < length xs" "i < length ys" "bit (xs ! i) k" "bit (ys ! i) k"
    by (auto simp: word_disjoint_iff)
  then show ?R by (auto simp: bit_word_iff_member)
next
  assume ?R
  then show ?L by (auto simp: word_members_iff word_disjoint_iff)
qed

lemma bms_equal_iff: "bms_wf a \<Longrightarrow> bms_wf b \<Longrightarrow> bms_equal a b \<longleftrightarrow> bms_members a = bms_members b"
  unfolding bms_canonical by (auto simp: bms_equal_def words_equal_loop_iff split: option.split)

lemma bms_union_refines:
  "bms_members (bms_union a b) = bms_members a \<union> bms_members b"
  "bms_wf a \<Longrightarrow> bms_wf b \<Longrightarrow> bms_wf (bms_union a b)"
  by (auto simp: bms_union_def bms_copy_def word_members_or_loop simp del: bms_wf_simps(2)
      intro: wf_or_loop split: option.split)

lemma bms_add_members_refines:
  "bms_members (bms_add_members a b) = bms_members a \<union> bms_members b"
  "bms_wf a \<Longrightarrow> bms_wf b \<Longrightarrow> bms_wf (bms_add_members a b)"
  by (auto simp: bms_add_members_def bms_copy_def word_members_or_loop simp del: bms_wf_simps(2)
      intro: wf_or_loop split: option.split)

lemma bms_join_refines:
  "bms_members (bms_join a b) = bms_members a \<union> bms_members b"
  "bms_wf a \<Longrightarrow> bms_wf b \<Longrightarrow> bms_wf (bms_join a b)"
  by (auto simp: bms_join_def word_members_or_loop simp del: bms_wf_simps(2)
      intro: wf_or_loop split: option.split)

lemma clear_and_members:
  "bms_members (trim_result (clear_loop (AND) 0 xs ys (-1))) = word_members xs \<inter> word_members ys"
  unfolding trim_clear_loop by (auto simp: word_members_iff bit_and_iff)

lemma clear_andnot_members:
  "length xs \<le> length ys \<Longrightarrow>
   bms_members (trim_result (clear_loop (\<lambda>r q. r AND NOT q) 0 xs ys (-1))) =
     word_members xs - word_members ys"
  unfolding trim_clear_loop by (auto simp: word_members_iff bit_simps)

lemma bms_intersect_refines:
  "bms_members (bms_intersect a b) = bms_members a \<inter> bms_members b"
  "bms_wf (bms_intersect a b)"
  by (auto simp: bms_intersect_def clear_and_members trim_clear_loop(2) split: option.split)

lemma bms_int_members_refines:
  "bms_members (bms_int_members a b) = bms_members a \<inter> bms_members b"
  "bms_wf (bms_int_members a b)"
  by (auto simp: bms_int_members_def clear_and_members trim_clear_loop(2) split: option.split)

lemma bms_nonempty_difference_iff:
  assumes "bms_wf a" and "bms_wf b"
  shows "bms_nonempty_difference a b \<longleftrightarrow> \<not> bms_members a \<subseteq> bms_members b"
proof (cases a; cases b)
  fix xs ys assume ab: "a = Some xs" "b = Some ys"
  show ?thesis
  proof (cases "length ys < length xs")
    case True
    with ab assms wf_length_eq [of xs ys] show ?thesis
      by (auto simp: bms_nonempty_difference_def)
  next
    case False
    with ab show ?thesis
      using words_subset_iff [of xs ys]
      by (auto simp: bms_nonempty_difference_def nonempty_difference_loop_iff)
  qed
qed (use assms wf_members_nonempty in \<open>auto simp: bms_nonempty_difference_def\<close>)

lemma bms_is_subset_iff:
  assumes "bms_wf a" and "bms_wf b"
  shows "bms_is_subset a b \<longleftrightarrow> bms_members a \<subseteq> bms_members b"
proof (cases a; cases b)
  fix xs ys assume ab: "a = Some xs" "b = Some ys"
  show ?thesis
  proof (cases "length ys < length xs")
    case True
    with ab assms wf_length_eq [of xs ys] show ?thesis by (auto simp: bms_is_subset_def)
  next
    case False
    with ab show ?thesis
      using words_subset_iff [of xs ys] by (auto simp: bms_is_subset_def is_subset_loop_iff)
  qed
qed (use assms wf_members_nonempty in \<open>auto simp: bms_is_subset_def\<close>)

lemma bms_overlap_iff: "bms_overlap a b \<longleftrightarrow> bms_members a \<inter> bms_members b \<noteq> {}"
  by (simp add: bms_overlap_def overlap_loop_iff [unfolded words_overlap_iff] split: option.split)

lemma wf_andnot_loop:
  assumes "bms_wf (Some xs)" and "length ys < length xs"
  shows "bms_wf (Some (andnot_loop xs ys))"
proof -
  from wf_last_member [OF assms(1)] obtain n
    where "n \<in> word_members xs" "n div 64 = length xs - 1" by blast
  moreover from this assms(2) have "n \<notin> word_members ys" by (auto simp: word_members_iff)
  ultimately show ?thesis
    unfolding wf_iff_last_member by (auto simp: word_members_andnot_loop)
qed

lemma bms_difference_refines:
  assumes "bms_wf a" and "bms_wf b"
  shows "bms_members (bms_difference a b) = bms_members a - bms_members b \<and>
    bms_wf (bms_difference a b)"
proof (cases a; cases b)
  fix xs ys assume ab: "a = Some xs" "b = Some ys"
  show ?thesis
  proof (cases "bms_nonempty_difference a b")
    case False
    with assms have "bms_members a \<subseteq> bms_members b" by (simp add: bms_nonempty_difference_iff)
    with False ab show ?thesis by (simp add: bms_difference_def)
  next
    case True
    show ?thesis
    proof (cases "length ys < length xs")
      case longer: True
      with True ab assms wf_andnot_loop [of xs ys] show ?thesis
        by (simp add: bms_difference_def word_members_andnot_loop)
    next
      case False
      obtain ws l where run: "clear_loop (\<lambda>r q. r AND NOT q) 0 xs ys (-1) = (ws, l)" by fastforce
      have "word_members xs - word_members ys \<noteq> {}"
        using True ab assms by (simp add: bms_nonempty_difference_iff)
      moreover have "word_members xs - word_members ys =
        {m. m div 64 < min (length xs) (length ys) \<and>
          bit (xs ! (m div 64) AND NOT (ys ! (m div 64))) (m mod 64)}"
        using False by (auto simp: word_members_iff bit_simps)
      ultimately show ?thesis
        using True False ab run clear_loop_take [OF run] by (auto simp: bms_difference_def)
    qed
  qed
qed (use assms in \<open>auto simp: bms_difference_def bms_copy_def\<close>)

lemma bms_del_members_refines:
  assumes "bms_wf a"
  shows "bms_members (bms_del_members a b) = bms_members a - bms_members b \<and>
    bms_wf (bms_del_members a b)"
proof (cases a; cases b)
  fix xs ys assume ab: "a = Some xs" "b = Some ys"
  show ?thesis
  proof (cases "length ys < length xs")
    case True
    with ab assms wf_andnot_loop [of xs ys] show ?thesis
      by (simp add: bms_del_members_def word_members_andnot_loop)
  next
    case False
    with ab show ?thesis
      by (simp add: bms_del_members_def clear_andnot_members trim_clear_loop(2))
  qed
qed (use assms in \<open>auto simp: bms_del_members_def\<close>)

section \<open>Single members and ranges\<close>

lemma word_members_replicate_0 [simp]: "word_members (replicate n 0) = {}"
  by (auto simp: word_members_iff)

lemma length_enlarge_words: "length (enlarge_words ws n) = max (length ws) (Suc n)"
  by (auto simp: enlarge_words_def)

lemma word_members_enlarge [simp]: "word_members (enlarge_words ws n) = word_members ws"
  by (auto simp: enlarge_words_def word_members_iff nth_append split: if_splits)

lemma word_members_update:
  assumes "i < length ws"
  shows "word_members (ws[i := w]) =
    {m \<in> word_members ws. m div 64 \<noteq> i} \<union> {m. m div 64 = i \<and> bit w (m mod 64)}"
  using assms by (auto simp: word_members_iff nth_list_update split: if_splits)

lemma div_mod_64_eq: "m div 64 = n div 64 \<Longrightarrow> m mod 64 = n mod 64 \<Longrightarrow> m = (n::nat)"
  by (metis div_mult_mod_eq)

lemma bit_exp_word64: "bit (2 ^ k :: word64) n \<longleftrightarrow> n = k \<and> k < 64"
  by (auto simp: bit_simps)

lemma word_members_set_bit:
  assumes "n div 64 < length ws"
  shows "word_members (ws[n div 64 := ws ! (n div 64) OR 2 ^ (n mod 64)]) = insert n (word_members ws)"
  using assms
  by (auto simp: word_members_update bit_or_iff bit_exp_word64 dest: div_mod_64_eq)
     (auto simp: word_members_iff)

lemma word_members_clear_bit:
  assumes "n div 64 < length ws"
  shows "word_members (ws[n div 64 := ws ! (n div 64) AND NOT (2 ^ (n mod 64))]) = word_members ws - {n}"
  using assms
  by (auto simp: word_members_update bit_and_iff bit_not_iff bit_exp_word64 dest: div_mod_64_eq)
     (auto simp: word_members_iff dest: div_mod_64_eq)

lemma bms_make_singleton_refines:
  "\<exists>s. bms_make_singleton (int n) = Inr s \<and> bms_members s = {n} \<and> bms_wf s"
proof -
  let ?ws = "(replicate (n div 64 + 1) 0)[n div 64 := 2 ^ (n mod 64) :: word64]"
  have mem: "word_members ?ws = {n}"
    by (auto simp: word_members_update bit_exp_word64 dest: div_mod_64_eq simp del: replicate_Suc)
  moreover have "bms_wf (Some ?ws)" unfolding wf_iff_last_member mem by (simp del: replicate_Suc)
  ultimately show ?thesis by (simp add: bms_make_singleton_def Let_def del: bms_wf_simps(2) replicate_Suc)
qed

lemma bms_add_member_refines:
  assumes "bms_wf a"
  shows "\<exists>s. bms_add_member a (int n) = Inr s \<and> bms_members s = insert n (bms_members a) \<and> bms_wf s"
proof (cases a)
  case None
  then show ?thesis using bms_make_singleton_refines [of n] by (simp add: bms_add_member_def)
next
  case (Some ws)
  let ?en = "enlarge_words ws (n div 64)"
  let ?ws = "?en[n div 64 := ?en ! (n div 64) OR 2 ^ (n mod 64)]"
  have mem: "word_members ?ws = insert n (word_members ws)"
    by (subst word_members_set_bit) (simp_all add: length_enlarge_words)
  have "\<exists>m \<in> insert n (word_members ws). m div 64 = length ?ws - 1"
  proof (cases "n div 64 \<ge> length ws")
    case True
    then show ?thesis by (simp add: length_enlarge_words)
  next
    case False
    with wf_last_member [of ws] assms Some show ?thesis by (auto simp: length_enlarge_words max_def)
  qed
  then have "bms_wf (Some ?ws)" unfolding wf_iff_last_member mem .
  with Some mem show ?thesis by (simp add: bms_add_member_def Let_def del: bms_wf_simps(2))
qed

lemma del_trim_loop_None: "del_trim_loop ws i = None \<longleftrightarrow> (\<forall>k < i. ws ! k = 0)"
  by (induction i) (auto simp: less_Suc_eq)

lemma del_trim_loop_Some:
  "del_trim_loop ws i = Some n \<Longrightarrow> 0 < n \<and> n \<le> i \<and> ws ! (n - 1) \<noteq> 0 \<and> (\<forall>k. n \<le> k \<and> k < i \<longrightarrow> ws ! k = 0)"
proof (induction i)
  case (Suc i)
  show ?case
  proof (cases "ws ! i = 0")
    case True
    with Suc have "del_trim_loop ws i = Some n" by simp
    from Suc.IH [OF this] True show ?thesis by (auto simp: less_Suc_eq)
  next
    case False
    with Suc.prems show ?thesis by auto
  qed
qed simp

lemma word_members_zero_tail:
  assumes "n \<le> length ws" and "\<And>k. n \<le> k \<Longrightarrow> k < length ws \<Longrightarrow> ws ! k = 0"
  shows "word_members (take n ws) = word_members ws"
proof -
  have "m div 64 < n" if "m \<in> word_members ws" for m
    using assms(2) [of "m div 64"] that by (force simp: word_members_iff)
  then show ?thesis by (auto simp: word_members_take)
qed

lemma wf_by_nth: "0 < length ws \<Longrightarrow> ws ! (length ws - 1) \<noteq> 0 \<Longrightarrow> bms_wf (Some ws)"
  by (simp add: last_conv_nth)

text \<open>Dropping the trailing zero words keeps the members and restores the invariant.\<close>

lemma del_trim_refines:
  assumes "i < length ws" and "i = length ws - 1" and "ws ! i = 0"
  defines "s \<equiv> case del_trim_loop ws i of None \<Rightarrow> None | Some n \<Rightarrow> Some (take n ws)"
  shows "bms_members s = word_members ws" and "bms_wf s"
proof -
  have tail: "ws ! k = 0" if "n \<le> k" "k < length ws" "\<forall>j. n \<le> j \<and> j < i \<longrightarrow> ws ! j = 0" for n k
    using assms(1-3) that by (cases "k = i") auto
  have "bms_members s = word_members ws \<and> bms_wf s"
  proof (cases "del_trim_loop ws i")
    case None
    then have "word_members (take 0 ws) = word_members ws"
      using tail [of 0] by (intro word_members_zero_tail) (auto simp: del_trim_loop_None)
    with None show ?thesis by (auto simp: s_def word_members_iff)
  next
    case (Some n)
    note n = del_trim_loop_Some [OF Some]
    then have "word_members (take n ws) = word_members ws"
      using assms(1) tail [of n] by (intro word_members_zero_tail) auto
    moreover have "bms_wf (Some (take n ws))" using n assms(1) by (intro wf_by_nth) auto
    ultimately show ?thesis using Some by (simp add: s_def del: bms_wf_simps(2))
  qed
  then show "bms_members s = word_members ws" and "bms_wf s" by blast+
qed

lemma wf_clear_bit:
  assumes "bms_wf (Some ws)" and "n div 64 < length ws"
  defines "ws' \<equiv> ws[n div 64 := ws ! (n div 64) AND NOT (2 ^ (n mod 64))]"
  assumes "\<not> (ws' ! (n div 64) = 0 \<and> n div 64 = length ws' - 1)"
  shows "bms_wf (Some ws')"
proof (cases "n div 64 = length ws - 1")
  case True
  with assms show ?thesis by (intro wf_by_nth) auto
next
  case False
  from wf_last_member [OF assms(1)] obtain m
    where "m \<in> word_members ws" "m div 64 = length ws - 1" by blast
  with False have "m \<in> word_members ws'" "m div 64 = length ws' - 1"
    by (auto simp: ws'_def word_members_clear_bit [OF assms(2)])
  then show ?thesis unfolding wf_iff_last_member by blast
qed

lemma bms_del_member_refines:
  assumes "bms_wf a"
  shows "\<exists>s. bms_del_member a (int n) = Inr s \<and> bms_members s = bms_members a - {n} \<and> bms_wf s"
proof (cases a)
  case None
  then show ?thesis by (simp add: bms_del_member_def)
next
  case (Some ws)
  let ?i = "n div 64"
  let ?ws = "ws[?i := ws ! ?i AND NOT (2 ^ (n mod 64))]"
  consider (absent) "length ws \<le> ?i"
    | (trim) "?i < length ?ws" "?ws ! ?i = 0" "?i = length ?ws - 1"
    | (keep) "?i < length ws" "\<not> (?ws ! ?i = 0 \<and> ?i = length ?ws - 1)"
    by fastforce
  then show ?thesis
  proof cases
    case absent
    then have "n \<notin> word_members ws" by (simp add: word_members_iff)
    with absent Some assms show ?thesis by (simp add: bms_del_member_def Let_def)
  next
    case trim
    note t = del_trim_refines [OF trim(1,3,2)]
    have "bms_del_member a (int n) =
        Inr (case del_trim_loop ?ws ?i of None \<Rightarrow> None | Some k \<Rightarrow> Some (take k ?ws))"
      using trim Some by (simp add: bms_del_member_def Let_def split: option.split)
    moreover have "word_members ?ws = bms_members a - {n}"
      using trim(1) Some by (simp add: word_members_clear_bit)
    ultimately show ?thesis using t by auto
  next
    case keep
    have "bms_wf (Some ?ws)" using wf_clear_bit keep assms Some by blast
    moreover have "bms_del_member a (int n) = Inr (Some ?ws)"
      using keep Some by (auto simp: bms_del_member_def Let_def)
    ultimately show ?thesis using keep(1) Some by (simp add: word_members_clear_bit del: bms_wf_simps(2))
  qed
qed

section \<open>Ranges\<close>

lemma bit_lower_mask: "bit (lower_mask k) n \<longleftrightarrow> k \<le> n \<and> n < 64"
  by (auto simp: lower_mask_def bit_not_iff bit_mask_iff simp flip: mask_eq_exp_minus_1)

lemma bit_upper_mask: "k < 64 \<Longrightarrow> bit (upper_mask (63 - k)) n \<longleftrightarrow> n \<le> k"
  by (auto simp: upper_mask_def bit_simps)

lemma length_range_fill [simp]: "length (range_fill_loop ws i n) = length ws"
  by (induction n arbitrary: ws i) auto

lemma nth_range_fill:
  "k < length ws \<Longrightarrow> range_fill_loop ws i n ! k = (if i \<le> k \<and> k < i + n then NOT 0 else ws ! k)"
  by (induction n arbitrary: ws i) (auto simp: nth_list_update)

lemma le_iff_div_mod_64:
  "(a::nat) \<le> b \<longleftrightarrow> a div 64 < b div 64 \<or> a div 64 = b div 64 \<and> a mod 64 \<le> b mod 64"
proof -
  have "a = 64 * (a div 64) + a mod 64" "b = 64 * (b div 64) + b mod 64" by simp_all
  moreover have "a mod 64 < 64" "b mod 64 < 64" by simp_all
  ultimately show ?thesis by linarith
qed

lemma less_iff_div_mod_64:
  "(a::nat) < b \<longleftrightarrow> a div 64 < b div 64 \<or> a div 64 = b div 64 \<and> a mod 64 < b mod 64"
  using le_iff_div_mod_64 [of b a] by auto

lemma length_range_words [simp]: "length (range_words ws L U) = length ws"
  by (simp add: range_words_def Let_def)

lemma bit_range_words:
  assumes "L \<le> U" and "U div 64 < length ws" and "m div 64 < length ws"
  shows "bit (range_words ws L U ! (m div 64)) (m mod 64) \<longleftrightarrow>
    bit (ws ! (m div 64)) (m mod 64) \<or> L \<le> m \<and> m \<le> U"
proof -
  have "L div 64 \<le> U div 64" using assms(1) by (rule div_le_mono)
  then show ?thesis
    using assms(2,3)
    by (auto simp: range_words_def Let_def nth_list_update nth_range_fill bit_or_iff bit_and_iff
        bit_lower_mask bit_upper_mask bit_not_iff le_iff_div_mod_64 [of L m] le_iff_div_mod_64 [of m U])
qed

lemma word_members_range_words:
  assumes "L \<le> U" and "U div 64 < length ws"
  shows "word_members (range_words ws L U) = word_members ws \<union> {L..U}"
proof -
  have "m div 64 < length ws" if "m \<le> U" for m
    using div_le_mono [OF that, of 64] assms(2) by linarith
  then show ?thesis by (auto simp: word_members_iff bit_range_words [OF assms])
qed

lemma bms_add_range_eq:
  assumes "L \<le> U"
  shows "bms_add_range a (int L) (int U) =
    Inr (Some (range_words (enlarge_words (case a of None \<Rightarrow> [] | Some ws \<Rightarrow> ws) (U div 64)) L U))"
  using assms by (auto simp: bms_add_range_def range_words_def enlarge_words_def Let_def split: option.split)

lemma bms_add_range_refines:
  assumes "bms_wf a" and "L \<le> U"
  shows "\<exists>s. bms_add_range a (int L) (int U) = Inr s \<and>
    bms_members s = bms_members a \<union> {L..U} \<and> bms_wf s"
proof -
  let ?ws = "case a of None \<Rightarrow> [] | Some ws \<Rightarrow> ws"
  let ?en = "enlarge_words ?ws (U div 64)"
  let ?r = "range_words ?en L U"
  have "word_members ?ws = bms_members a" by (cases a) (simp_all add: word_members_def)
  then have mem: "word_members ?r = bms_members a \<union> {L..U}"
    by (simp add: word_members_range_words assms(2) length_enlarge_words)
  have "\<exists>m \<in> bms_members a \<union> {L..U}. m div 64 = length ?r - 1"
  proof (cases "length ?ws \<le> U div 64")
    case True
    then show ?thesis using assms(2) by (auto simp: length_enlarge_words max_def)
  next
    case False
    then obtain ws where a: "a = Some ws" by (cases a) auto
    with wf_last_member [of ws] assms(1) obtain m
      where "m \<in> word_members ws" "m div 64 = length ws - 1" by blast
    with False a show ?thesis by (auto simp: length_enlarge_words max_absorb1)
  qed
  then have "bms_wf (Some ?r)" unfolding wf_iff_last_member mem .
  with mem show ?thesis by (simp add: bms_add_range_eq [OF assms(2)] del: bms_wf_simps(2))
qed

section \<open>Counting\<close>

lemma count_loop_acc: "count_loop ws r = r + count_loop ws 0"
proof (induction ws arbitrary: r)
  case (Cons w ws)
  show ?case using Cons.IH [of "r + int (pg_popcount64 w)"] Cons.IH [of "int (pg_popcount64 w)"]
      Cons.IH [of r] by simp
qed simp

lemma word_members_snoc:
  "word_members (ws @ [w]) = word_members ws \<union> (\<lambda>k. 64 * length ws + k) ` {k. bit w k}"
proof (intro set_eqI iffI)
  fix n assume n: "n \<in> word_members (ws @ [w])"
  show "n \<in> word_members ws \<union> (\<lambda>k. 64 * length ws + k) ` {k. bit w k}"
  proof (cases "n div 64 < length ws")
    case True
    with n show ?thesis by (simp add: word_members_iff nth_append)
  next
    case False
    with n have "n div 64 = length ws" "bit w (n mod 64)" by (auto simp: word_members_iff nth_append)
    moreover from this have "n = 64 * length ws + n mod 64" by (metis mult_div_mod_eq)
    ultimately show ?thesis by blast
  qed
next
  fix n assume "n \<in> word_members ws \<union> (\<lambda>k. 64 * length ws + k) ` {k. bit w k}"
  then consider "n \<in> word_members ws" | k where "k < 64" "n = 64 * length ws + k" "bit w k"
    using bit64_less [of w] by blast
  then show "n \<in> word_members (ws @ [w])"
    by cases (auto simp: word_members_iff nth_append)
qed

lemma word_members_Cons:
  "word_members (w # ws) = {k. bit w k} \<union> (\<lambda>n. 64 + n) ` word_members ws"
proof (intro set_eqI iffI)
  fix n assume n: "n \<in> word_members (w # ws)"
  show "n \<in> {k. bit w k} \<union> (\<lambda>n. 64 + n) ` word_members ws"
  proof (cases "n < 64")
    case True
    with n show ?thesis by (simp add: word_members_iff)
  next
    case False
    then have "n = 64 + (n - 64)" "n div 64 = Suc ((n - 64) div 64)" "n mod 64 = (n - 64) mod 64"
      by (simp_all add: le_div_geq le_mod_geq)
    with n have "n - 64 \<in> word_members ws" by (simp add: word_members_iff)
    with \<open>n = 64 + (n - 64)\<close> show ?thesis by blast
  qed
next
  fix n assume "n \<in> {k. bit w k} \<union> (\<lambda>n. 64 + n) ` word_members ws"
  then consider "n < 64" "bit w n" | m where "n = 64 + m" "m \<in> word_members ws"
    using bit64_less [of w] by blast
  then show "n \<in> word_members (w # ws)"
    by cases (simp_all add: word_members_iff div_add_self1)
qed

lemma card_word_members_Cons:
  "card (word_members (w # ws)) = pg_popcount64 w + card (word_members ws)"
proof -
  have "{k. bit w k} \<inter> (\<lambda>n. 64 + n) ` word_members ws = {}" by (auto dest: bit64_less)
  then show ?thesis
    by (simp add: word_members_Cons card_Un_disjoint card_image inj_on_def popcount64_card)
qed

lemma popcount64_0: "pg_popcount64 0 = 0"
  by (simp add: pg_popcount64_def builtin_popcountl_def)

lemma count_loop_card: "count_loop ws 0 = int (card (word_members ws))"
proof (induction ws)
  case Nil
  then show ?case by (simp add: word_members_def)
next
  case (Cons w ws)
  then show ?case
    using count_loop_acc [of ws "int (pg_popcount64 w)"]
    by (cases "w = 0") (simp_all add: card_word_members_Cons popcount64_0)
qed

lemma bms_num_members_card: "bms_num_members a = int (card (bms_members a))"
  by (cases a) (simp_all add: bms_num_members_def count_loop_card)

lemma bms_member_index_card:
  "bms_member_index a (int n) =
     Inr (if n \<in> bms_members a then int (card {m \<in> bms_members a. m < n}) else -1)"
proof (cases "n \<in> bms_members a")
  case False
  then show ?thesis by (simp add: bms_member_index_def bms_is_member_int)
next
  case True
  then obtain ws where a: "a = Some ws" and n: "n div 64 < length ws" "bit (ws ! (n div 64)) (n mod 64)"
    by (cases a) (auto simp: word_members_iff)
  let ?pre = "take (n div 64) ws" and ?w = "ws ! (n div 64) AND mask (n mod 64)"
  have nth: "(?pre @ [?w]) ! i = (if i = n div 64 then ?w else ws ! i)" if "i \<le> n div 64" for i
    using that n by (auto simp: nth_append)
  have "{m \<in> bms_members a. m < n} = word_members (?pre @ [?w])"
    using n unfolding a
    by (auto simp: word_members_iff nth bit_and_iff bit_mask_iff less_iff_div_mod_64 [of _ n] less_Suc_eq_le
        simp del: append_take_drop_id split: if_splits)
  moreover have "word_members (?pre @ [?w]) = word_members ?pre \<union> (\<lambda>k. 64 * (n div 64) + k) ` {k. bit ?w k}"
    using n by (simp add: word_members_snoc)
  moreover have "word_members ?pre \<inter> (\<lambda>k. 64 * (n div 64) + k) ` {k. bit ?w k} = {}"
    by (auto dest: word_members_less)
  ultimately have "card {m \<in> bms_members a. m < n} = card (word_members ?pre) + pg_popcount64 ?w"
    by (simp add: card_Un_disjoint card_image inj_on_def popcount64_card)
  then show ?thesis
    using True unfolding bms_member_index_def bms_is_member_int
    by (simp add: a count_loop_card Let_def mask_eq_exp_minus_1)
qed

section \<open>Isolating the rightmost one-bit\<close>

lemma odd_and_minus: "odd y \<Longrightarrow> y AND - y = (1 :: word64)"
proof -
  assume odd: "odd y"
  then have "(y - 1) OR 1 = y" by (simp add: or_one_eq)
  then have y: "bit y n \<longleftrightarrow> bit (y - 1) n \<or> n = 0" for n
    by (metis bit_1_iff bit_or_iff)
  have "- y = NOT (y - 1)" by (simp add: not_eq_complement)
  moreover have "\<not> bit (y - 1) 0" using odd by (simp add: bit_0)
  ultimately show ?thesis by (intro bit_eqI) (auto simp: bit_and_iff bit_not_iff bit_1_iff y)
qed

lemma RIGHTMOST_ONE_eq:
  assumes "x \<noteq> 0"
  shows "RIGHTMOST_ONE x = 2 ^ pg_rightmost_one_pos64 x"
proof -
  let ?k = "pg_rightmost_one_pos64 x" and ?y = "drop_bit (pg_rightmost_one_pos64 x) x"
  note spec = rightmost_one_pos64_spec [OF assms]
  have x: "x = push_bit ?k ?y"
  proof (rule bit_eqI)
    fix n show "bit x n \<longleftrightarrow> bit (push_bit ?k ?y) n"
      using spec(2) [of n] bit64_less [of x n] by (cases "?k \<le> n") (auto simp: bit_simps)
  qed
  have "odd ?y" using spec(1) by (simp add: bit_iff_odd_drop_bit)
  then have "push_bit ?k (?y AND - ?y) = 2 ^ ?k" by (simp add: odd_and_minus)
  moreover have "- x = push_bit ?k (- ?y)" by (subst x) (simp add: push_bit_eq_mult)
  ultimately show ?thesis unfolding RIGHTMOST_ONE_def by (subst (1) x) (simp add: push_bit_and)
qed

lemma HAS_MULTIPLE_ONES_iff:
  assumes "x \<noteq> 0"
  shows "HAS_MULTIPLE_ONES x \<longleftrightarrow> {n. bit x n} \<noteq> {pg_rightmost_one_pos64 x}"
proof -
  have "x = 2 ^ pg_rightmost_one_pos64 x \<longleftrightarrow> {n. bit x n} = {pg_rightmost_one_pos64 x}"
    (is "x = 2 ^ ?k \<longleftrightarrow> _")
  proof
    assume x: "x = 2 ^ ?k"
    have "bit x n \<longleftrightarrow> n = ?k" for n
      using bit64_less [OF rightmost_one_pos64_spec(1) [OF assms]]
      by (subst x) (simp add: bit_exp_word64 conj_commute)
    then show "{n. bit x n} = {?k}" by blast
  next
    assume "{n. bit x n} = {?k}"
    then have "bit x n \<longleftrightarrow> n = ?k" for n by blast
    then show "x = 2 ^ ?k"
      by (intro bit_eqI) (auto simp: bit_exp_word64)
  qed
  then show ?thesis by (auto simp: HAS_MULTIPLE_ONES_def RIGHTMOST_ONE_eq [OF assms])
qed

section \<open>Singletons\<close>

lemma singleton_loop_nonneg:
  "0 \<le> r \<Longrightarrow> singleton_loop i ws r = (if word_members ws = {} then Some r else None)"
proof (induction ws arbitrary: i)
  case Nil
  then show ?case by (simp add: word_members_def)
next
  case (Cons w ws)
  have "{k. bit w k} = {} \<longleftrightarrow> w = 0" by (auto simp: word_eq_0_iff_bit)
  with Cons show ?case by (auto simp: word_members_Cons)
qed

lemma singleton_image_add: "(\<exists>m. (\<lambda>n. c + n) ` S = {m}) \<longleftrightarrow> (\<exists>m. S = {m :: nat})"
  by (simp add: card_image inj_on_def flip: card_1_singleton_iff)

lemma insert_singleton_iff: "k \<notin> A \<Longrightarrow> (\<exists>m. insert k A = {m}) \<longleftrightarrow> A = {}"
  by auto

lemma singleton_loop_start:
  "singleton_loop i ws (-1) =
     (if word_members ws = {} then Some (-1)
      else if \<exists>m. word_members ws = {m} then Some (int (64 * i + the_elem (word_members ws)))
      else None)"
proof (induction ws arbitrary: i)
  case Nil
  then show ?case by (simp add: word_members_def)
next
  case (Cons w ws)
  show ?case
  proof (cases "w = 0")
    case True
    then have "word_members (w # ws) = (\<lambda>n. 64 + n) ` word_members ws" by (auto simp: word_members_Cons)
    then show ?thesis
      using True Cons.IH [of "Suc i"] singleton_image_add [of 64 "word_members ws"] by auto
  next
    case False
    let ?k = "pg_rightmost_one_pos64 w"
    have k: "?k \<in> {n. bit w n}" using rightmost_one_pos64_spec(1) [OF False] by simp
    have dis: "{n. bit w n} \<inter> (\<lambda>n. 64 + n) ` word_members ws = {}" by (auto dest: bit64_less)
    show ?thesis
    proof (cases "HAS_MULTIPLE_ONES w")
      case True
      then obtain j where "bit w j" "j \<noteq> ?k" using k by (auto simp: HAS_MULTIPLE_ONES_iff [OF False])
      with k have "{j, ?k} \<subseteq> word_members (w # ws)" "j \<noteq> ?k" by (auto simp: word_members_Cons)
      then have "\<not> (\<exists>m. word_members (w # ws) = {m})" "word_members (w # ws) \<noteq> {}" by auto
      with False True show ?thesis by simp
    next
      case single: False
      then have bits: "{n. bit w n} = {?k}" by (simp add: HAS_MULTIPLE_ONES_iff [OF False])
      then have mem: "word_members (w # ws) = insert ?k ((\<lambda>n. 64 + n) ` word_members ws)"
        by (simp add: word_members_Cons)
      have notin: "?k \<notin> (\<lambda>n. 64 + n) ` word_members ws" using dis k by blast
      have one: "(\<exists>m. word_members (w # ws) = {m}) \<longleftrightarrow> word_members ws = {}"
        unfolding mem insert_singleton_iff [OF notin] by simp
      have "singleton_loop i (w # ws) (-1) =
          (if word_members ws = {} then Some (int i * 64 + int ?k) else None)"
        using False single singleton_loop_nonneg [of "int i * 64 + int ?k" "Suc i" ws] by simp
      moreover have "word_members (w # ws) \<noteq> {}" unfolding mem by simp
      moreover have "the_elem (word_members (w # ws)) = ?k" if "word_members ws = {}"
        unfolding mem using that by simp
      ultimately show ?thesis using one by simp
    qed
  qed
qed

lemma bms_get_singleton_member_iff:
  assumes "bms_wf a"
  shows "bms_get_singleton_member a = Some (int n) \<longleftrightarrow> bms_members a = {n}"
    and "bms_get_singleton_member a = None \<longleftrightarrow> (\<nexists>n. bms_members a = {n})"
  using assms wf_members_nonempty
  by (auto simp: bms_get_singleton_member_def singleton_loop_start split: option.splits if_splits)

lemma bms_singleton_member_cases:
  assumes "bms_wf a"
  shows "bms_singleton_member a =
    (if bms_members a = {} then elog_error ''bitmapset is empty''
     else if \<exists>n. bms_members a = {n} then Inr (int (the_elem (bms_members a)))
     else elog_error ''bitmapset has multiple members'')"
  using assms wf_members_nonempty
  by (auto simp: bms_singleton_member_def singleton_loop_start split: option.splits)

lemma membership_loop_singleton:
  "membership_loop ws BMS_SINGLETON = (if word_members ws = {} then BMS_SINGLETON else BMS_MULTIPLE)"
proof (induction ws)
  case Nil
  then show ?case by (simp add: word_members_def)
next
  case (Cons w ws)
  have "{k. bit w k} = {} \<longleftrightarrow> w = 0" by (auto simp: word_eq_0_iff_bit)
  with Cons show ?case by (auto simp: word_members_Cons)
qed

lemma membership_loop_eq:
  "membership_loop ws BMS_EMPTY_SET =
     (case singleton_loop i ws (-1) of
        None \<Rightarrow> BMS_MULTIPLE
      | Some r \<Rightarrow> if r < 0 then BMS_EMPTY_SET else BMS_SINGLETON)"
  by (induction ws arbitrary: i)
     (simp_all add: singleton_loop_nonneg membership_loop_singleton)

lemma bms_membership_cases:
  "bms_membership a =
     (if bms_members a = {} then BMS_EMPTY_SET
      else if \<exists>n. bms_members a = {n} then BMS_SINGLETON else BMS_MULTIPLE)"
  by (auto simp: bms_membership_def membership_loop_eq [of _ 0] singleton_loop_start split: option.split)

section \<open>Iteration\<close>

text \<open>The members the loop may return: a mask applies to the first word only.\<close>

lemma next_loop_spec:
  defines "ok \<equiv> \<lambda>msk m. m < 64 \<longrightarrow> bit (msk :: bitmapword) m"
  shows "(next_loop i ws msk = -2 \<and> (\<forall>m \<in> word_members ws. \<not> ok msk m)) \<or>
    (\<exists>m \<in> word_members ws. ok msk m \<and> next_loop i ws msk = int (64 * i + m) \<and>
       (\<forall>m' \<in> word_members ws. ok msk m' \<longrightarrow> m \<le> m'))"
proof (induction ws arbitrary: i msk)
  case Nil
  show ?case by (simp add: word_members_def)
next
  case (Cons w ws)
  show ?case
  proof (cases "w AND msk = 0")
    case False
    let ?k = "pg_rightmost_one_pos64 (w AND msk)"
    note spec = rightmost_one_pos64_spec [OF False]
    have "?k < 64" using spec(1) by (rule bit64_less)
    moreover have "?k \<le> m" if "m \<in> word_members (w # ws)" "ok msk m" for m
    proof (rule ccontr)
      assume "\<not> ?k \<le> m"
      with that spec(2) [of m] \<open>?k < 64\<close> show False by (simp add: word_members_iff ok_def bit_and_iff)
    qed
    ultimately show ?thesis
      using False spec(1)
      by (intro disjI2 bexI [of _ ?k]) (auto simp: word_members_iff ok_def bit_and_iff)
  next
    case True
    have low: "\<not> ok msk m" if "m \<in> word_members (w # ws)" "m < 64" for m
      using that True by (auto simp: word_members_iff ok_def word_disjoint_iff)
    have high: "m \<in> word_members (w # ws) \<and> ok msk m \<longleftrightarrow> (\<exists>m' \<in> word_members ws. m = 64 + m')" for m
    proof
      assume "m \<in> word_members (w # ws) \<and> ok msk m"
      moreover from this low [of m] have "\<not> m < 64" by blast
      ultimately show "\<exists>m' \<in> word_members ws. m = 64 + m'"
        using bit64_less [of w m] by (auto simp: word_members_Cons)
    qed (auto simp: word_members_Cons ok_def)
    have all: "ok (NOT 0) m = True" for m by (simp add: ok_def bit_not_iff)
    have step: "next_loop i (w # ws) msk = next_loop (Suc i) ws (NOT 0)" using True by simp
    have "next_loop (Suc i) ws (NOT 0) = -2 \<and> (\<forall>m \<in> word_members ws. False) \<or>
        (\<exists>m \<in> word_members ws. next_loop (Suc i) ws (NOT 0) = int (64 * Suc i + m) \<and>
          (\<forall>m' \<in> word_members ws. m \<le> m'))"
      using Cons.IH [of "Suc i" "NOT 0"] unfolding all simp_thms .
    then consider (none) "next_loop (Suc i) ws (NOT 0) = -2" "word_members ws = {}"
      | (some) m where "m \<in> word_members ws" "next_loop (Suc i) ws (NOT 0) = int (64 * Suc i + m)"
          "\<forall>m' \<in> word_members ws. m \<le> m'" by blast
    then show ?thesis
    proof cases
      case none
      then show ?thesis using step high by auto
    next
      case some
      then have "64 + m \<in> word_members (w # ws)" "ok msk (64 + m)" using high [of "64 + m"] by auto
      moreover have "64 + m \<le> m'" if "m' \<in> word_members (w # ws)" "ok msk m'" for m'
        using some(3) high [of m'] that by auto
      ultimately show ?thesis using some(2) step by (intro disjI2 bexI [of _ "64 + m"]) auto
    qed
  qed
qed

lemma word_members_drop: "m \<in> word_members (drop k ws) \<longleftrightarrow> 64 * k + m \<in> word_members ws"
  by (auto simp: word_members_iff)

lemma bms_next_member_spec:
  defines "r \<equiv> \<lambda>a p. bms_next_member a (int p - 1)"
  shows "(r a p = -2 \<and> (\<forall>n \<in> bms_members a. n < p)) \<or>
    (\<exists>n \<in> bms_members a. p \<le> n \<and> r a p = int n \<and> (\<forall>m \<in> bms_members a. p \<le> m \<longrightarrow> n \<le> m))"
proof (cases a)
  case None
  then show ?thesis by (simp add: r_def bms_next_member_def)
next
  case (Some ws)
  let ?k = "p div 64" and ?b = "p mod 64"
  let ?msk = "push_bit ?b (NOT 0) :: bitmapword"
  have r: "r a p = next_loop ?k (drop ?k ws) ?msk"
    by (simp add: r_def bms_next_member_def Some Let_def)
  have ok: "(m < 64 \<longrightarrow> bit ?msk m) \<longleftrightarrow> p \<le> 64 * ?k + m" for m
  proof (cases "m < 64")
    case True
    then show ?thesis by (simp add: le_iff_div_mod_64 [of p] bit_push_bit_iff bit_not_iff bit_mask_iff not_less)
  next
    case False
    have "p = 64 * ?k + ?b" "?b < 64" by simp_all
    with False show ?thesis by linarith
  qed
  have shift: "n \<in> word_members ws \<Longrightarrow> p \<le> n \<Longrightarrow> \<exists>m. n = 64 * ?k + m \<and> m \<in> word_members (drop ?k ws)" for n
  proof -
    assume n: "n \<in> word_members ws" and "p \<le> n"
    have "64 * ?k \<le> p" by simp
    with \<open>p \<le> n\<close> have "n = 64 * ?k + (n - 64 * ?k)" by linarith
    with n word_members_drop [of "n - 64 * ?k" ?k ws] show ?thesis by metis
  qed
  from next_loop_spec [of ?k "drop ?k ws" ?msk, folded r, unfolded ok] consider
      (none) "r a p = -2" "\<forall>m \<in> word_members (drop ?k ws). \<not> p \<le> 64 * ?k + m"
    | (some) m where "m \<in> word_members (drop ?k ws)" "p \<le> 64 * ?k + m" "r a p = int (64 * ?k + m)"
        "\<forall>m' \<in> word_members (drop ?k ws). p \<le> 64 * ?k + m' \<longrightarrow> m \<le> m'"
    by blast
  then show ?thesis
  proof cases
    case none
    have "n < p" if "n \<in> word_members ws" for n
    proof (rule ccontr)
      assume "\<not> n < p"
      with shift [OF that] none(2) show False by auto
    qed
    with none(1) Some show ?thesis by simp
  next
    case some
    have "64 * ?k + m \<le> n" if "n \<in> word_members ws" "p \<le> n" for n
      using shift [OF that] some(4) that(2) by auto
    with some Some show ?thesis
      by (intro disjI2 bexI [of _ "64 * ?k + m"]) (simp_all add: word_members_drop)
  qed
qed

text \<open>Members in increasing order, by repeated calls.\<close>

lemma sorted_list_of_set_insert_least:
  assumes "finite T" and "\<And>t. t \<in> T \<Longrightarrow> k < (t :: nat)"
  shows "sorted_list_of_set (insert k T) = k # sorted_list_of_set T"
proof -
  have "T - {k} = T" using assms(2) by blast
  then show ?thesis
    using assms by (simp add: sorted_list_of_set_insert_remove insort_is_Cons less_imp_le)
qed

text \<open>One word of the downward scan: its own bits first, then the words below it.\<close>

lemma prev_loop_hit:
  assumes "i < length ws" and "ws ! i AND msk \<noteq> 0"
  defines "k \<equiv> 64 * i + pg_leftmost_one_pos64 (ws ! i AND msk)"
  shows "prev_loop ws i msk = Some (int k)" and "k \<in> word_members ws" and "k div 64 = i"
    and "bit msk (k mod 64)"
    and "m \<in> word_members ws \<Longrightarrow> m div 64 < i \<or> m div 64 = i \<and> bit msk (m mod 64) \<Longrightarrow> m \<le> k"
proof -
  let ?p = "pg_leftmost_one_pos64 (ws ! i AND msk)"
  note spec = leftmost_one_pos64_spec [OF assms(2)]
  have p: "?p < 64" using spec(1) by (rule bit64_less)
  show "prev_loop ws i msk = Some (int k)"
    using assms(1,2) by (subst prev_loop.simps) (simp add: k_def Let_def)
  show "k div 64 = i" and "bit msk (k mod 64)" and "k \<in> word_members ws"
    using p spec(1) assms(1) by (simp_all add: k_def word_members_iff bit_and_iff)
  show "m \<le> k" if "m \<in> word_members ws" "m div 64 < i \<or> m div 64 = i \<and> bit msk (m mod 64)"
  proof (cases "m div 64 < i")
    case True
    then show ?thesis using p by (simp add: k_def le_iff_div_mod_64 [of m])
  next
    case False
    with that have "m div 64 = i" "bit (ws ! i AND msk) (m mod 64)"
      by (auto simp: word_members_iff bit_and_iff)
    moreover from this(2) spec(2) [of "m mod 64"] have "m mod 64 \<le> ?p" by (meson not_le)
    ultimately show ?thesis using p by (simp add: k_def le_iff_div_mod_64 [of m])
  qed
qed

lemma prev_loop_spec:
  defines "ok \<equiv> \<lambda>i msk m. m div 64 < i \<or> m div 64 = i \<and> bit (msk :: bitmapword) (m mod 64)"
  shows "i < length ws \<Longrightarrow>
    (prev_loop ws i msk = Some (-2) \<and> (\<forall>m \<in> word_members ws. \<not> ok i msk m)) \<or>
    (\<exists>m \<in> word_members ws. ok i msk m \<and> prev_loop ws i msk = Some (int m) \<and>
       (\<forall>m' \<in> word_members ws. ok i msk m' \<longrightarrow> m' \<le> m))"
proof (induction i arbitrary: msk)
  case (0 msk)
  show ?case
  proof (cases "ws ! 0 AND msk = 0")
    case True
    then have "prev_loop ws 0 msk = Some (-2)" using 0 by (subst prev_loop.simps) simp
    moreover have "\<not> ok 0 msk m" if "m \<in> word_members ws" for m
      using that True by (auto simp: ok_def word_members_iff word_disjoint_iff)
    ultimately show ?thesis by blast
  next
    case False
    from prev_loop_hit [OF 0 False] show ?thesis unfolding ok_def by blast
  qed
next
  case (Suc i msk)
  show ?case
  proof (cases "ws ! Suc i AND msk = 0")
    case True
    have step: "prev_loop ws (Suc i) msk = prev_loop ws i (NOT 0)"
      using True Suc.prems by (subst prev_loop.simps) simp
    have ok: "ok (Suc i) msk m \<longleftrightarrow> ok i (NOT 0) m" if "m \<in> word_members ws" for m
      using that True
      by (auto simp: ok_def word_members_iff word_disjoint_iff bit_not_iff less_Suc_eq)
    have "i < length ws" using Suc.prems by simp
    from Suc.IH [OF this, of "NOT 0"] show ?thesis
      unfolding step by (metis (no_types) ok)
  next
    case False
    from prev_loop_hit [OF Suc.prems False] show ?thesis unfolding ok_def by blast
  qed
qed

lemma bms_prev_member_spec:
  fixes p :: nat
  assumes "p \<le> 64 * (case a of None \<Rightarrow> 0 | Some ws \<Rightarrow> length ws)"
  shows "(bms_prev_member a (int p) = Some (-2) \<and> (\<forall>n \<in> bms_members a. p \<le> n)) \<or>
    (\<exists>n \<in> bms_members a. n < p \<and> bms_prev_member a (int p) = Some (int n) \<and>
       (\<forall>m \<in> bms_members a. m < p \<longrightarrow> m \<le> n))"
proof (cases "a = None \<or> p = 0")
  case True
  then show ?thesis by (auto simp: bms_prev_member_def split: option.split)
next
  case False
  then obtain ws q where a: "a = Some ws" and p: "p = Suc q" by (cases p) auto
  let ?i = "q div 64" and ?msk = "upper_mask (63 - q mod 64)"
  have run: "bms_prev_member a (int p) = prev_loop ws ?i ?msk"
    by (simp add: bms_prev_member_def a p Let_def)
  have "q div 64 < length ws" using assms a p by (simp add: less_mult_imp_div_less mult.commute)
  moreover have "m div 64 < ?i \<or> m div 64 = ?i \<and> bit ?msk (m mod 64) \<longleftrightarrow> m < p" for m
    by (simp add: p less_Suc_eq_le le_iff_div_mod_64 [of m q] bit_upper_mask)
  ultimately show ?thesis
    using prev_loop_spec [of ?i ws ?msk] unfolding run unfolding a bms_members_simps
    by (simp add: not_less)
qed

lemma bms_prev_member_start:
  assumes "bms_wf a" and "bms_members a \<noteq> {}"
  shows "bms_prev_member a (-1) = Some (int (Max (bms_members a)))"
proof -
  from assms obtain ws where a: "a = Some ws" "ws \<noteq> []" by (cases a) auto
  let ?p = "64 * length ws"
  have start: "bms_prev_member a (-1) = bms_prev_member a (int ?p)"
    using a by (simp add: bms_prev_member_def mult.commute)
  have below: "m < ?p" if "m \<in> bms_members a" for m
    using that word_members_less a by simp
  have "?p \<le> 64 * (case a of None \<Rightarrow> 0 | Some ws \<Rightarrow> length ws)" by (simp add: a)
  from bms_prev_member_spec [OF this] obtain n where
    n: "n \<in> bms_members a" "bms_prev_member a (int ?p) = Some (int n)"
      "\<forall>m \<in> bms_members a. m < ?p \<longrightarrow> m \<le> n"
    using assms(2) below by (metis all_not_in_conv not_le)
  then have "Max (bms_members a) = n" using below by (intro Max_eqI) auto
  then show ?thesis using start n(2) by simp
qed

section \<open>Comparison\<close>

lemma nat_less_by_bit:
  fixes x y :: nat
  assumes "bit y d" and "\<not> bit x d" and "\<And>j. d < j \<Longrightarrow> bit x j \<longleftrightarrow> bit y j"
  shows "x < y"
proof -
  have "drop_bit (Suc d) x = drop_bit (Suc d) y"
    by (rule bit_eqI) (use assms(3) in \<open>simp add: bit_simps\<close>)
  then have "drop_bit d x div 2 = drop_bit d y div 2" by (simp add: drop_bit_Suc drop_bit_half)
  moreover have "even (drop_bit d x)" "odd (drop_bit d y)"
    using assms(1,2) by (simp_all add: bit_iff_odd_drop_bit)
  ultimately have "drop_bit d x < drop_bit d y" by presburger
  then show ?thesis by (metis drop_bit_eq_div div_le_mono not_le)
qed

lemma word_less_by_bit:
  fixes x y :: word64
  assumes "bit y d" and "\<not> bit x d" and "\<And>j. d < j \<Longrightarrow> bit x j \<longleftrightarrow> bit y j"
  shows "x < y"
proof -
  have "unat x < unat y"
    by (rule nat_less_by_bit [of _ d]) (use assms bit64_less in \<open>auto simp: bit_unsigned_iff\<close>)
  then show ?thesis by (simp add: word_less_nat_alt)
qed

lemma top_difference_exists:
  assumes "finite A" and "finite B" and "A \<noteq> B"
  shows "\<exists>d. top_difference A B d \<or> top_difference B A d"
proof -
  let ?D = "(A - B) \<union> (B - A)"
  have fin: "finite ?D" and ne: "?D \<noteq> {}" using assms by auto
  have "m \<in> A \<longleftrightarrow> m \<in> B" if "m > Max ?D" for m
    using Max_ge [OF fin, of m] that by (meson DiffI UnI1 UnI2 not_le)
  with Max_in [OF fin ne] show ?thesis unfolding top_difference_def by blast
qed

lemma words_compare_loop_antisym:
  "length xs = length ys \<Longrightarrow> words_compare_loop ys xs = - words_compare_loop xs ys"
  by (induction xs ys rule: words_compare_loop.induct) auto

lemma word_members_append:
  "word_members (xs @ [x]) =
   word_members xs \<union> {m. m div 64 = length xs \<and> bit x (m mod 64)}"
  by (auto simp: word_members_iff nth_append split: if_splits)

lemma words_compare_top:
  assumes "length xs = length ys" and "top_difference (word_members xs) (word_members ys) d"
  shows "words_compare_loop (rev xs) (rev ys) = 1"
  using assms
proof (induction xs arbitrary: ys rule: rev_induct)
  case Nil
  then show ?case by (simp add: top_difference_def)
next
  case (snoc x xs zs)
  let ?n = "length xs"
  from snoc.prems(1) obtain ys y where zs: "zs = ys @ [y]" and len: "length xs = length ys"
    by (cases zs rule: rev_cases) auto
  have top: "d \<in> word_members (xs @ [x])" "d \<notin> word_members (ys @ [y])"
      and above: "d < m \<Longrightarrow> m \<in> word_members (xs @ [x]) \<longleftrightarrow> m \<in> word_members (ys @ [y])" for m
    using snoc.prems(2) by (auto simp: top_difference_def zs)
  have bits: "bit x k \<longleftrightarrow> k < 64 \<and> 64 * ?n + k \<in> word_members (xs @ [x])"
      "bit y k \<longleftrightarrow> k < 64 \<and> 64 * ?n + k \<in> word_members (ys @ [y])" for k
    using bit_word_iff_member [of ?n "xs @ [x]" k] bit_word_iff_member [of ?n "ys @ [y]" k] len
    by (simp_all add: nth_append)
  show ?case
  proof (cases "d < 64 * ?n")
    case True
    have "x = y" by (intro bit_eqI) (use True above in \<open>simp add: bits\<close>)
    moreover have "m \<in> word_members xs \<longleftrightarrow> m < 64 * ?n \<and> m \<in> word_members (xs @ [x])"
        "m \<in> word_members ys \<longleftrightarrow> m < 64 * ?n \<and> m \<in> word_members (ys @ [y])" for m
      using word_members_less [of m xs] word_members_less [of m ys] len
      by (auto simp: word_members_append)
    then have "top_difference (word_members xs) (word_members ys) d"
      unfolding top_difference_def using top above True by blast
    ultimately show ?thesis using snoc.IH [OF len] by (simp add: zs)
  next
    case False
    then obtain k where d: "d = 64 * ?n + k" by (metis le_Suc_ex not_less)
    have "k < 64" using word_members_less [OF top(1)] by (simp add: d)
    then have "y < x"
      by (intro word_less_by_bit [of _ k]) (use top above in \<open>auto simp: bits d\<close>)
    then show ?thesis by (auto simp: zs)
  qed
qed

lemma bms_compare_antisym: "bms_compare b a = - bms_compare a b"
  using words_compare_loop_antisym [of "rev (the a)" "rev (the b)"]
  by (cases a; cases b) (auto simp: bms_compare_def)

lemma bms_compare_top:
  assumes wf: "bms_wf a" "bms_wf b" and top: "top_difference (bms_members a) (bms_members b) d"
  shows "bms_compare a b = 1"
proof -
  obtain xs where a: "a = Some xs" using top by (cases a) (auto simp: top_difference_def)
  show ?thesis
  proof (cases b)
    case None
    then show ?thesis by (simp add: a bms_compare_def)
  next
    case (Some ys)
    have "\<not> length xs < length ys"
    proof
      assume less: "length xs < length ys"
      obtain n where n: "n \<in> word_members ys" "n div 64 = length ys - 1"
        using wf(2) Some wf_last_member by blast
      have "n \<notin> word_members xs" using n(2) less by (auto simp: word_members_iff)
      moreover have "d < n"
        using top n less
        by (auto simp: a top_difference_def word_members_iff less_iff_div_mod_64 [of d n])
      ultimately show False using top n(1) by (auto simp: a Some top_difference_def)
    qed
    then show ?thesis
      using top words_compare_top [of xs ys d] by (auto simp: a Some bms_compare_def)
  qed
qed

lemma bms_compare_spec:
  assumes wf: "bms_wf a" "bms_wf b"
  shows "bms_compare a b =
    (if bms_members a = bms_members b then 0
     else if \<exists>d. top_difference (bms_members a) (bms_members b) d then 1 else -1)"
proof -
  consider "bms_members a = bms_members b"
    | d where "top_difference (bms_members a) (bms_members b) d"
    | d where "top_difference (bms_members b) (bms_members a) d"
    using top_difference_exists [OF finite_bms_members finite_bms_members, of a b] by auto
  then show ?thesis
  proof cases
    case 1
    then have "a = b" using bms_canonical [OF wf] by simp
    then show ?thesis using bms_compare_antisym [of a a] by simp
  next
    case 2
    then show ?thesis using bms_compare_top [OF wf 2] by (auto simp: top_difference_def)
  next
    case 3
    then have "bms_compare a b = -1"
      using bms_compare_top [OF wf(2,1) 3] bms_compare_antisym [of b a] by simp
    moreover have "\<not> top_difference (bms_members a) (bms_members b) e" for e
      using 3 by (cases d e rule: linorder_cases) (auto simp: top_difference_def)
    ultimately show ?thesis using 3 by (auto simp: top_difference_def)
  qed
qed

section \<open>Subset comparison\<close>

lemma comparison_of_simps [simp]:
  "comparison_of p q = BMS_DIFFERENT \<longleftrightarrow> p \<and> q"
  "comparison_of p q = BMS_SUBSET1 \<longleftrightarrow> \<not> p \<and> q"
  "comparison_of p q = BMS_SUBSET2 \<longleftrightarrow> p \<and> \<not> q"
  "comparison_of p q = BMS_EQUAL \<longleftrightarrow> \<not> p \<and> \<not> q"
  by (auto simp: comparison_of_def)

lemma subset_compare_loop_eq:
  "\<not> (p \<and> q) \<Longrightarrow> subset_compare_loop as bs (comparison_of p q) =
    (if (p \<or> extra_bits as bs) \<and> (q \<or> extra_bits bs as) then None
     else Some (comparison_of (p \<or> extra_bits as bs) (q \<or> extra_bits bs as)))"
proof (induction as arbitrary: bs p q)
  case (Cons x xs)
  show ?case
  proof (cases bs)
    case (Cons y ys)
    from Cons.IH [of True False ys] Cons.IH [of False True ys] Cons.IH [of False False ys] Cons.prems
    show ?thesis by (cases p; cases q) (simp_all add: Cons comparison_of_def)
  qed (use Cons.prems in simp)
qed simp

lemma extra_bits_nth:
  "extra_bits xs ys \<longleftrightarrow> (\<exists>i < min (length xs) (length ys). xs ! i AND NOT (ys ! i) \<noteq> 0)"
proof (induction xs ys rule: extra_bits.induct)
  case (1 x xs y ys)
  then show ?case by (auto simp: less_Suc_eq_0_disj)
qed auto

lemma extra_bits_iff:
  "extra_bits xs ys \<longleftrightarrow> (\<exists>m \<in> word_members xs. m div 64 < length ys \<and> m \<notin> word_members ys)"
    (is "?L \<longleftrightarrow> ?R")
proof
  assume ?L
  then obtain i k where "i < length xs" "i < length ys" "bit (xs ! i) k" "\<not> bit (ys ! i) k"
    by (auto simp: extra_bits_nth word_neq_0_iff_bit bit_simps)
  then show ?R using bit64_less [of "xs ! i" k]
    by (intro bexI [of _ "64 * i + k"]) (auto simp: word_members_iff)
next
  assume ?R
  then obtain m where "m \<in> word_members xs" "m div 64 < length ys" "m \<notin> word_members ys" by blast
  then show ?L
    unfolding extra_bits_nth word_neq_0_iff_bit
    by (intro exI [of _ "m div 64"] conjI exI [of _ "m mod 64"]) (auto simp: word_members_iff bit_simps)
qed

lemma not_subset_iff:
  assumes "bms_wf (Some xs)"
  shows "\<not> word_members xs \<subseteq> word_members ys \<longleftrightarrow> extra_bits xs ys \<or> length ys < length xs"
proof -
  obtain n where n: "n \<in> word_members xs" "n div 64 = length xs - 1"
    using wf_last_member [OF assms] by blast
  have "n \<notin> word_members ys" if "length ys < length xs"
    using that n(2) by (auto simp: word_members_iff)
  moreover have "length ys < length xs" if "m \<in> word_members xs" "\<not> m div 64 < length ys" for m
    using that by (auto simp: word_members_iff)
  ultimately show ?thesis using n(1) unfolding extra_bits_iff by blast
qed

lemma bms_subset_compare_spec:
  assumes wf: "bms_wf a" "bms_wf b"
  shows "bms_subset_compare a b =
    comparison_of (\<not> bms_members a \<subseteq> bms_members b) (\<not> bms_members b \<subseteq> bms_members a)"
proof (cases "a = None \<or> b = None")
  case True
  then show ?thesis using wf wf_members_nonempty
    by (cases a; cases b)
      (simp_all add: bms_subset_compare_def comparison_of_def del: bms_wf_simps(2))
next
  case False
  then obtain xs ys where ab: "a = Some xs" "b = Some ys" by (cases a; cases b) auto
  have loop: "subset_compare_loop xs ys BMS_EQUAL =
      (if extra_bits xs ys \<and> extra_bits ys xs then None
       else Some (comparison_of (extra_bits xs ys) (extra_bits ys xs)))"
    using subset_compare_loop_eq [of False False xs ys] by (simp add: comparison_of_def)
  note sub = not_subset_iff [OF wf(1) [unfolded ab], of ys] not_subset_iff [OF wf(2) [unfolded ab], of xs]
  show ?thesis
    unfolding ab bms_subset_compare_def bms_members_simps sub
    by (simp add: loop) (simp add: comparison_of_def)
qed

section \<open>Overlap with a list, negative members\<close>

lemma bms_overlap_list_spec:
  assumes "\<forall>x \<in> set l. 0 \<le> x"
  shows "bms_overlap_list a l = Inr (\<exists>x \<in> set l. nat x \<in> bms_members a)"
proof -
  have *: "(WORDNUM x < length ws \<and> ws ! WORDNUM x AND push_bit (BITNUM x) 1 \<noteq> 0) =
      (nat x \<in> word_members ws)" if "0 \<le> x" for x ws
    using that
    by (simp add: word_members_iff WORDNUM_def BITNUM_def nat_div_distrib nat_mod_distrib
        and_exp_eq_0_iff_not_bit)
  have "overlap_list_loop ws l = Inr (\<exists>x \<in> set l. nat x \<in> word_members ws)" for ws
    using assms
  proof (induction l)
    case (Cons x l)
    then show ?case using * [of x ws] by (simp del: push_bit_of_1)
  qed simp
  then show ?thesis by (cases a) (auto simp: bms_overlap_list_def)
qed

lemma bms_negative_member:
  assumes "x < 0"
  shows "bms_make_singleton x = negative_member_error" "bms_is_member x a = negative_member_error"
    "bms_add_member a x = negative_member_error" "bms_del_member a x = negative_member_error"
  using assms by (simp_all add: bms_make_singleton_def bms_is_member_def bms_add_member_def bms_del_member_def)

section \<open>The interface offered to other components\<close>

text \<open>
  What a user of integer sets relies on: the set algebra on representations, canonicity
  (two sets with the same members are the same value) and the iteration law of
  \<^verbatim>\<open>bms_next_member\<close>.
\<close>

locale int_set =
  fixes members :: "'s \<Rightarrow> nat set"
    and wf :: "'s \<Rightarrow> bool"
    and union :: "'s \<Rightarrow> 's \<Rightarrow> 's"
    and inter :: "'s \<Rightarrow> 's \<Rightarrow> 's"
    and diff :: "'s \<Rightarrow> 's \<Rightarrow> 's"
    and next_member :: "'s \<Rightarrow> int \<Rightarrow> int"
  assumes finite_members: "finite (members s)"
    and canonical: "wf s \<Longrightarrow> wf t \<Longrightarrow> members s = members t \<Longrightarrow> s = t"
    and union: "wf s \<Longrightarrow> wf t \<Longrightarrow> members (union s t) = members s \<union> members t \<and> wf (union s t)"
    and inter: "wf s \<Longrightarrow> wf t \<Longrightarrow> members (inter s t) = members s \<inter> members t \<and> wf (inter s t)"
    and diff: "wf s \<Longrightarrow> wf t \<Longrightarrow> members (diff s t) = members s - members t \<and> wf (diff s t)"
    and next_member: "(next_member s (int p - 1) < 0 \<and> (\<forall>n \<in> members s. n < p)) \<or>
      (\<exists>n \<in> members s. p \<le> n \<and> next_member s (int p - 1) = int n \<and>
         (\<forall>m \<in> members s. p \<le> m \<longrightarrow> n \<le> m))"
begin

text \<open>Every identity between sets holds of the representations themselves.\<close>

lemma union_comm: "wf s \<Longrightarrow> wf t \<Longrightarrow> union s t = union t s"
  by (rule canonical) (auto simp: union)

lemma inter_comm: "wf s \<Longrightarrow> wf t \<Longrightarrow> inter s t = inter t s"
  by (rule canonical) (auto simp: inter)

lemma inter_union_distrib:
  "wf s \<Longrightarrow> wf t \<Longrightarrow> wf u \<Longrightarrow> inter s (union t u) = union (inter s t) (inter s u)"
  by (rule canonical) (auto simp: inter union)

lemma diff_union: "wf s \<Longrightarrow> wf t \<Longrightarrow> wf u \<Longrightarrow> diff s (union t u) = diff (diff s t) u"
  by (rule canonical) (auto simp: diff union)

lemma split_by: "wf s \<Longrightarrow> wf t \<Longrightarrow> union (inter s t) (diff s t) = s"
  by (rule canonical) (auto simp: diff union inter)

lemma scan_from:
  assumes rec: "\<And>x. loop x = (let x' = next_member s x
      in if x' \<ge> 0 then (case body x' of Some r \<Rightarrow> Some r | None \<Rightarrow> loop x') else Some fin)"
  shows "loop (int p - 1) =
    Some (scan_list body fin (map int (sorted_list_of_set {m \<in> members s. p \<le> m})))"
proof (induction "card {m \<in> members s. p \<le> m}" arbitrary: p rule: less_induct)
  case less
  let ?S = "{m \<in> members s. p \<le> m}"
  from next_member [of s p] consider
      (none) "next_member s (int p - 1) < 0" "?S = {}"
    | (some) k where "k \<in> ?S" "next_member s (int p - 1) = int k" "\<forall>m \<in> ?S. k \<le> m"
    by fastforce
  then show ?case
  proof cases
    case none
    then show ?thesis unfolding none(2) by (subst rec) simp
  next
    case some
    let ?T = "{m \<in> members s. Suc k \<le> m}"
    have S: "?S = insert k ?T" using some(1,3) by (auto simp: Suc_le_eq order_le_less)
    have fin: "finite ?T" using finite_members by simp
    have "loop (int (Suc k) - 1) = Some (scan_list body fin (map int (sorted_list_of_set ?T)))"
      by (rule less) (simp add: S fin)
    moreover have "sorted_list_of_set (insert k ?T) = k # sorted_list_of_set ?T"
      by (rule sorted_list_of_set_insert_least) (auto simp: fin)
    ultimately show ?thesis using some(2) by (subst rec) (simp add: S split: option.split)
  qed
qed

lemma scan_all:
  assumes rec: "\<And>x. loop x = (let x' = next_member s x
      in if x' \<ge> 0 then (case body x' of Some r \<Rightarrow> Some r | None \<Rightarrow> loop x') else Some fin)"
  shows "loop (-1) = Some (scan_list body fin (map int (sorted_list_of_set (members s))))"
  using scan_from [of loop s body fin 0, OF rec] by simp

end

interpretation bms: int_set bms_members bms_wf bms_union bms_intersect bms_difference bms_next_member
proof
  fix s t :: bitmapset and p :: nat
  show "bms_wf s \<Longrightarrow> bms_wf t \<Longrightarrow> bms_members s = bms_members t \<Longrightarrow> s = t"
    by (simp add: bms_canonical)
  show "bms_wf s \<Longrightarrow> bms_wf t \<Longrightarrow>
      bms_members (bms_difference s t) = bms_members s - bms_members t \<and> bms_wf (bms_difference s t)"
    by (rule bms_difference_refines)
  show "(bms_next_member s (int p - 1) < 0 \<and> (\<forall>n \<in> bms_members s. n < p)) \<or>
      (\<exists>n \<in> bms_members s. p \<le> n \<and> bms_next_member s (int p - 1) = int n \<and>
         (\<forall>m \<in> bms_members s. p \<le> m \<longrightarrow> n \<le> m))"
    using bms_next_member_spec [of s p] by auto
qed (simp_all add: bms_union_refines bms_intersect_refines)

lemma member_loop_scan:
  "member_loop body fin a (-1) =
     Some (scan_list body fin (map int (sorted_list_of_set (bms_members a))))"
  by (rule bms.scan_all) (rule member_loop.simps)

lemmas bms_algebra_refines =
  bms_union_refines bms_intersect_refines bms_difference_refines
  bms_add_members_refines bms_int_members_refines bms_del_members_refines bms_join_refines

section \<open>Properties\<close>

text \<open>
  C40. On well-formed sets (no trailing zero word, the empty set is NULL) union, intersection and
  difference compute these operations on the member sets and return a well-formed set; the
  variants that recycle their first argument return the same value.
\<close>

theorem bms_set_algebra:
  assumes "bms_wf a" and "bms_wf b"
  shows "(bms_members (bms_union a b) = bms_members a \<union> bms_members b \<and> bms_wf (bms_union a b)) \<and>
    (bms_members (bms_intersect a b) = bms_members a \<inter> bms_members b \<and> bms_wf (bms_intersect a b)) \<and>
    (bms_members (bms_difference a b) = bms_members a - bms_members b \<and> bms_wf (bms_difference a b)) \<and>
    bms_add_members a b = bms_union a b \<and> bms_join a b = bms_union a b \<and>
    bms_int_members a b = bms_intersect a b \<and> bms_del_members a b = bms_difference a b"
  using assms bms_difference_refines [OF assms] bms_del_members_refines [OF assms(1), of b]
  by (simp add: bms_union_refines bms_intersect_refines bms_add_members_refines bms_join_refines
      bms_int_members_refines flip: bms_canonical)

theorem bms_set_algebra_witness:
  "bms_wf (Some [5]) \<and> bms_wf (Some [4, 1]) \<and>
   bms_members (bms_difference (Some [5]) (Some [4, 1])) =
     bms_members (Some [5]) - bms_members (Some [4, 1]) \<and>
   bms_join (Some [5]) (Some [4, 1]) = bms_union (Some [5]) (Some [4, 1])"
  using bms_set_algebra [of "Some [5]" "Some [4, 1]"] by simp

text \<open>
  Adding, deleting and testing a single member: on a well-formed set the operation succeeds for
  every member number that is not negative, changes exactly that member and keeps the invariant;
  for a negative number each of them raises the error of the source.
\<close>

theorem bms_single_member:
  assumes "bms_wf a"
  shows "(\<exists>s. bms_add_member a (int n) = Inr s \<and> bms_members s = insert n (bms_members a) \<and> bms_wf s) \<and>
    (\<exists>s. bms_del_member a (int n) = Inr s \<and> bms_members s = bms_members a - {n} \<and> bms_wf s) \<and>
    (\<exists>s. bms_make_singleton (int n) = Inr s \<and> bms_members s = {n} \<and> bms_wf s) \<and>
    bms_is_member (int n) a = Inr (n \<in> bms_members a) \<and>
    (x < 0 \<longrightarrow> bms_add_member a x = negative_member_error \<and> bms_del_member a x = negative_member_error \<and>
       bms_make_singleton x = negative_member_error \<and> bms_is_member x a = negative_member_error)"
  using assms
  by (simp add: bms_negative_member bms_add_member_refines bms_del_member_refines bms_make_singleton_refines
      bms_is_member_int)

theorem bms_single_member_witness:
  "bms_wf (Some [5]) \<and>
   (\<exists>s. bms_del_member (Some [5]) (int 2) = Inr s \<and> bms_members s = bms_members (Some [5]) - {2} \<and>
      bms_wf s) \<and>
   bms_add_member (Some [5]) (-1) = negative_member_error"
  using bms_single_member [of "Some [5]" 2 "-1"] by simp

text \<open>
  \<^verbatim>\<open>bms_add_range\<close>, which fills whole words at a time, adds exactly the members from the lower to
  the upper bound, and nothing when the range is empty.
\<close>

theorem bms_add_range_adds:
  assumes "bms_wf a"
  shows "\<exists>s. bms_add_range a (int L) (int U) = Inr s \<and>
    bms_members s = bms_members a \<union> {L..U} \<and> bms_wf s"
proof (cases "L \<le> U")
  case True
  then show ?thesis using bms_add_range_refines [OF assms] by blast
next
  case False
  then show ?thesis using assms by (simp add: bms_add_range_def)
qed

theorem bms_add_range_adds_witness:
  "bms_wf (Some [1]) \<and>
   (\<exists>s. bms_add_range (Some [1]) (int 60) (int 200) = Inr s \<and>
      bms_members s = bms_members (Some [1]) \<union> {60..200} \<and> bms_wf s)"
  using bms_add_range_adds [of "Some [1]" 60 200] by simp

text \<open>
  The scan \<^verbatim>\<open>x = -1; while ((x = bms_next_member(a, x)) >= 0)\<close> terminates on every set and runs its
  body on exactly the members, in increasing order, until the body leaves the loop.
\<close>

theorem bms_next_member_scan:
  "member_loop body fin a (-1) =
     Some (scan_list body fin (map int (sorted_list_of_set (bms_members a))))"
  by (rule member_loop_scan)

text \<open>
  The comparison predicates decide what they are named after: equality, subset, overlap,
  non-empty difference, and the four-way subset comparison.
\<close>

theorem bms_predicates:
  assumes "bms_wf a" and "bms_wf b"
  shows "(bms_equal a b \<longleftrightarrow> bms_members a = bms_members b) \<and>
    (bms_is_subset a b \<longleftrightarrow> bms_members a \<subseteq> bms_members b) \<and>
    (bms_overlap a b \<longleftrightarrow> bms_members a \<inter> bms_members b \<noteq> {}) \<and>
    (bms_nonempty_difference a b \<longleftrightarrow> bms_members a - bms_members b \<noteq> {}) \<and>
    bms_subset_compare a b =
      comparison_of (\<not> bms_members a \<subseteq> bms_members b) (\<not> bms_members b \<subseteq> bms_members a)"
  using assms
  by (simp add: bms_equal_iff bms_is_subset_iff bms_overlap_iff bms_nonempty_difference_iff
      bms_subset_compare_spec)

theorem bms_predicates_witness:
  "bms_wf (Some [5]) \<and> bms_wf (Some [4, 1]) \<and>
   bms_subset_compare (Some [5]) (Some [4, 1]) =
     comparison_of (\<not> bms_members (Some [5]) \<subseteq> bms_members (Some [4, 1]))
       (\<not> bms_members (Some [4, 1]) \<subseteq> bms_members (Some [5]))"
  using bms_predicates [of "Some [5]" "Some [4, 1]"] by simp

text \<open>
  \<^verbatim>\<open>bms_compare\<close> is the order on sets in which the highest member that belongs to only one of
  them decides, and it returns 0 exactly on equal sets.
\<close>

theorem bms_compare_order:
  assumes "bms_wf a" and "bms_wf b"
  shows "bms_compare a b =
    (if bms_members a = bms_members b then 0
     else if Max (sym_diff (bms_members a) (bms_members b)) \<in> bms_members a then 1 else -1)"
proof (cases "bms_members a = bms_members b")
  case False
  let ?D = "sym_diff (bms_members a) (bms_members b)"
  have fin: "finite ?D" by simp
  have "Max ?D \<in> ?D" using False fin by (intro Max_in) auto
  moreover have "Max ?D = d" if "top_difference (bms_members a) (bms_members b) d" for d
    using that by (intro Max_eqI [OF fin]) (auto simp: top_difference_def not_less [symmetric])
  moreover have "top_difference (bms_members a) (bms_members b) (Max ?D)" if "Max ?D \<in> bms_members a"
    using that calculation(1) Max_ge [OF fin] unfolding top_difference_def
    by (metis DiffD2 DiffI UnE UnI1 UnI2 not_le)
  ultimately have "(\<exists>d. top_difference (bms_members a) (bms_members b) d) \<longleftrightarrow> Max ?D \<in> bms_members a"
    by (metis top_difference_def)
  then show ?thesis using False unfolding bms_compare_spec [OF assms] by presburger
qed (simp add: bms_compare_spec [OF assms])

theorem bms_compare_order_witness:
  "bms_wf (Some [3]) \<and> bms_wf (Some [4]) \<and>
   bms_compare (Some [3]) (Some [4]) =
    (if bms_members (Some [3]) = bms_members (Some [4]) then 0
     else if Max (sym_diff (bms_members (Some [3])) (bms_members (Some [4]))) \<in> bms_members (Some [3])
     then 1 else -1)"
  using bms_compare_order [of "Some [3]" "Some [4]"] by simp

text \<open>
  Counting: the number of members, the index of a member among the members (-1 for a
  non-member), the empty/singleton/multiple classification and the retrieval of the only member
  agree with the member set.
\<close>

theorem bms_counting:
  assumes "bms_wf a"
  shows "bms_num_members a = int (card (bms_members a)) \<and>
    bms_member_index a (int n) =
      Inr (if n \<in> bms_members a then int (card {m \<in> bms_members a. m < n}) else -1) \<and>
    bms_membership a =
      (if card (bms_members a) = 0 then BMS_EMPTY_SET
       else if card (bms_members a) = 1 then BMS_SINGLETON else BMS_MULTIPLE) \<and>
    (bms_singleton_member a = Inr (int n) \<longleftrightarrow> bms_members a = {n}) \<and>
    (bms_get_singleton_member a = Some (int n) \<longleftrightarrow> bms_members a = {n})"
proof -
  have "bms_membership a =
      (if card (bms_members a) = 0 then BMS_EMPTY_SET
       else if card (bms_members a) = 1 then BMS_SINGLETON else BMS_MULTIPLE)"
    by (simp add: bms_membership_cases card_1_singleton_iff)
  moreover have "bms_singleton_member a = Inr (int n) \<longleftrightarrow> bms_members a = {n}"
  proof (cases "\<exists>k. bms_members a = {k}")
    case True
    then obtain k where "bms_members a = {k}" ..
    then show ?thesis by (simp add: bms_singleton_member_cases [OF assms])
  next
    case False
    then have "bms_members a \<noteq> {n}" by blast
    then show ?thesis by (simp add: bms_singleton_member_cases [OF assms] False)
  qed
  ultimately show ?thesis
    by (simp add: bms_num_members_card bms_member_index_card bms_get_singleton_member_iff [OF assms])
qed

theorem bms_counting_witness:
  "bms_wf (Some [4]) \<and> bms_num_members (Some [4]) = int (card (bms_members (Some [4]))) \<and>
   (bms_singleton_member (Some [4]) = Inr (int 2) \<longleftrightarrow> bms_members (Some [4]) = {2})"
  using bms_counting [of "Some [4]" 2] by simp

text \<open>
  The downward scan: \<^verbatim>\<open>bms_prev_member\<close> returns the greatest member below the given position, or
  -2 when there is none, and the greatest member of all when started with -1.
\<close>

theorem bms_prev_member_greatest:
  assumes "bms_wf a" and "p \<in> bms_members a"
  shows "bms_prev_member a (-1) = Some (int (Max (bms_members a))) \<and>
    bms_prev_member a (int p) =
      Some (if \<exists>n \<in> bms_members a. n < p then int (Max {n \<in> bms_members a. n < p}) else -2)"
proof -
  obtain ws where a: "a = Some ws" using assms(2) by (cases a) auto
  have "p \<le> 64 * (case a of None \<Rightarrow> 0 | Some ws \<Rightarrow> length ws)"
    using assms(2) word_members_less [of p ws] by (simp add: a)
  note spec = bms_prev_member_spec [OF this]
  have "Max {n \<in> bms_members a. n < p} = n"
    if "n \<in> bms_members a" "n < p" "\<forall>m \<in> bms_members a. m < p \<longrightarrow> m \<le> n" for n
    using that by (intro Max_eqI) auto
  then have "bms_prev_member a (int p) =
      Some (if \<exists>n \<in> bms_members a. n < p then int (Max {n \<in> bms_members a. n < p}) else -2)"
    using spec by (auto simp: not_less [symmetric])
  then show ?thesis using bms_prev_member_start [OF assms(1)] assms(2) by blast
qed

theorem bms_prev_member_greatest_witness:
  "bms_wf (Some [5]) \<and> 2 \<in> bms_members (Some [5]) \<and>
   bms_prev_member (Some [5]) (-1) = Some (int (Max (bms_members (Some [5]))))"
proof -
  have "2 \<in> bms_members (Some [5])" by (simp add: word_members_iff)
  then show ?thesis using bms_prev_member_greatest [of "Some [5]" 2] by simp
qed

end
