(* ===== verification/RelPerms.thy ===== *)
theory RelPerms
  imports ObjectAcl Bitmapset
begin

unbundle bit_operations_syntax

text \<open>
  The permission check that the executor makes when it starts a query:
  \<^verbatim>\<open>ExecCheckPermissions\<close> of \<^verbatim>\<open>src/postgres/src/backend/executor/execMain.c\<close>, over the privilege routines of theory
  \<open>ObjectAcl\<close> and the column sets of theory \<open>Bitmapset\<close>.

  The property says which queries pass: every relation of the query must grant all rights the query needs
  of it, where the rights to select, insert and update may be granted for the columns instead.
\<close>

section \<open>The check\<close>

record RTEPermissionInfo =
  relid :: Oid
  inh :: bool
  requiredPerms :: AclMode
  checkAsUser :: Oid
  selectedCols :: bitmapset
  insertedCols :: bitmapset
  updatedCols :: bitmapset

definition FirstLowInvalidHeapAttributeNumber :: int where
  "FirstLowInvalidHeapAttributeNumber = - 7"

text \<open>Assignment of an \<^verbatim>\<open>int\<close> to an \<^verbatim>\<open>AttrNumber\<close>, a 16-bit integer.\<close>

definition AttrNumber_of :: "int \<Rightarrow> int" where
  "AttrNumber_of i = sint (word_of_int i :: 16 word)"

abbreviation InvalidAttrNumber :: int where
  "InvalidAttrNumber \<equiv> 0"

text \<open>Leave the routine with a failure or an error, or go on with the loop.\<close>

definition leave_unless_ok :: "AclResult pg_result \<Rightarrow> bool pg_result option" where
  "leave_unless_ok r = (case r of Inl e \<Rightarrow> Some (Inl e) | Inr a \<Rightarrow> if a \<noteq> ACLCHECK_OK then Some (Inr False) else None)"

text \<open>The bodies of the loops over the selected and the changed columns.\<close>

definition select_column :: "system_catalog \<Rightarrow> Oid \<Rightarrow> Oid \<Rightarrow> int \<Rightarrow> bool pg_result option" where
  "select_column cat relOid userid col =
     (let attno = AttrNumber_of (col + FirstLowInvalidHeapAttributeNumber)
      in if attno = InvalidAttrNumber
         then leave_unless_ok (pg_attribute_aclcheck_all cat relOid userid ACL_SELECT ACLMASK_ALL)
         else leave_unless_ok (pg_attribute_aclcheck cat relOid attno userid ACL_SELECT))"

definition modify_column :: "system_catalog \<Rightarrow> Oid \<Rightarrow> Oid \<Rightarrow> AclMode \<Rightarrow> int \<Rightarrow> bool pg_result option" where
  "modify_column cat relOid userid required col =
     (let attno = AttrNumber_of (col + FirstLowInvalidHeapAttributeNumber)
      in if attno = InvalidAttrNumber then Some (elog_error ''whole-row update is not implemented'')
         else leave_unless_ok (pg_attribute_aclcheck cat relOid attno userid required))"

definition ExecCheckPermissionsSelected :: "system_catalog \<Rightarrow> Oid \<Rightarrow> Oid \<Rightarrow> bitmapset \<Rightarrow> bool fueled" where
  "ExecCheckPermissionsSelected cat relOid userid selected =
     (case (if selected = None then leave_unless_ok (pg_attribute_aclcheck_all cat relOid userid ACL_SELECT ACLMASK_ANY) else None) of
        Some r \<Rightarrow> Some r
      | None \<Rightarrow> member_loop (select_column cat relOid userid) (Inr True) selected (- 1))"

definition ExecCheckPermissionsModified :: "system_catalog \<Rightarrow> Oid \<Rightarrow> Oid \<Rightarrow> bitmapset \<Rightarrow> AclMode \<Rightarrow> bool fueled" where
  "ExecCheckPermissionsModified cat relOid userid modifiedCols required =
     (case (if modifiedCols = None then leave_unless_ok (pg_attribute_aclcheck_all cat relOid userid required ACLMASK_ANY) else None) of
        Some r \<Rightarrow> Some r
      | None \<Rightarrow> member_loop (modify_column cat relOid userid required) (Inr True) modifiedCols (- 1))"

definition ExecCheckOneRelPerms :: "system_catalog \<Rightarrow> RTEPermissionInfo \<Rightarrow> bool fueled" where
  "ExecCheckOneRelPerms cat perminfo =
     (let relOid = relid perminfo;
          userid = (if OidIsValid (checkAsUser perminfo) then checkAsUser perminfo else CurrentUserId (role_cat cat))
      in fbind (Some (pg_class_aclmask cat relOid userid (requiredPerms perminfo) ACLMASK_ALL)) (\<lambda>relPerms.
           let remainingPerms = requiredPerms perminfo AND NOT relPerms
           in if remainingPerms = 0 then Some (Inr True)
              else if remainingPerms AND NOT (ACL_SELECT OR ACL_INSERT OR ACL_UPDATE) \<noteq> 0 then Some (Inr False)
              else
                fbind (if remainingPerms AND ACL_SELECT \<noteq> 0
                       then ExecCheckPermissionsSelected cat relOid userid (selectedCols perminfo) else Some (Inr True)) (\<lambda>ok.
                if \<not> ok then Some (Inr False) else
                fbind (if remainingPerms AND ACL_INSERT \<noteq> 0
                       then ExecCheckPermissionsModified cat relOid userid (insertedCols perminfo) ACL_INSERT
                       else Some (Inr True)) (\<lambda>ok.
                if \<not> ok then Some (Inr False) else
                if remainingPerms AND ACL_UPDATE \<noteq> 0
                then ExecCheckPermissionsModified cat relOid userid (updatedCols perminfo) ACL_UPDATE
                else Some (Inr True)))))"

text \<open>\<open>hook\<close> is \<^verbatim>\<open>ExecutorCheckPerms_hook\<close>, which an extension may have set.\<close>

fun check_loop :: "system_catalog \<Rightarrow> bool \<Rightarrow> RTEPermissionInfo list \<Rightarrow> bool fueled" where
  "check_loop cat ereport_on_violation [] = Some (Inr True)"
| "check_loop cat ereport_on_violation (perminfo # rest) =
     fbind (ExecCheckOneRelPerms cat perminfo) (\<lambda>result.
       if \<not> result
       then fbind (if ereport_on_violation
                   then Some (aclcheck_error ACLCHECK_NO_PRIV (get_relkind_objtype (get_rel_relkind cat (relid perminfo))))
                   else Some (Inr ())) (\<lambda>_. Some (Inr False))
       else check_loop cat ereport_on_violation rest)"

definition ExecCheckPermissions ::
  "system_catalog \<Rightarrow> (RTEPermissionInfo list \<Rightarrow> bool \<Rightarrow> bool pg_result) option \<Rightarrow> RTEPermissionInfo list \<Rightarrow> bool \<Rightarrow> bool fueled" where
  "ExecCheckPermissions cat hook rteperminfos ereport_on_violation =
     fbind (check_loop cat ereport_on_violation rteperminfos) (\<lambda>ok.
       if \<not> ok then Some (Inr False)
       else case hook of None \<Rightarrow> Some (Inr True) | Some h \<Rightarrow> Some (h rteperminfos ereport_on_violation))"

section \<open>What a query may do\<close>

definition check_user :: "system_catalog \<Rightarrow> RTEPermissionInfo \<Rightarrow> Oid" where
  "check_user cat perminfo =
     (if OidIsValid (checkAsUser perminfo) then checkAsUser perminfo else CurrentUserId (role_cat cat))"

definition column_of :: "nat \<Rightarrow> int" where
  "column_of c = AttrNumber_of (int c + FirstLowInvalidHeapAttributeNumber)"

text \<open>
  The columns of the query grant a right: some column of the relation when the query names none, every
  column when it refers to the whole row, and otherwise those it names.
\<close>

definition column_grants :: "system_catalog \<Rightarrow> Oid \<Rightarrow> Oid \<Rightarrow> nat \<Rightarrow> nat \<Rightarrow> bool" where
  "column_grants cat relOid userid p c \<longleftrightarrow>
     (if column_of c = InvalidAttrNumber
      then user_columns cat relOid \<noteq> [] \<and> (\<forall>a \<in> set (user_columns cat relOid). bit (column_rights cat relOid a userid) p)
      else bit (column_rights cat relOid (column_of c) userid) p)"

definition columns_grant :: "system_catalog \<Rightarrow> Oid \<Rightarrow> Oid \<Rightarrow> nat \<Rightarrow> nat set \<Rightarrow> bool" where
  "columns_grant cat relOid userid p cols \<longleftrightarrow>
     (if cols = {} then \<exists>a \<in> set (user_columns cat relOid). bit (column_rights cat relOid a userid) p
      else \<forall>c \<in> cols. column_grants cat relOid userid p c)"

definition perm_columns :: "RTEPermissionInfo \<Rightarrow> nat \<Rightarrow> nat set" where
  "perm_columns perminfo p =
     bms_members (if p = 0 then insertedCols perminfo else if p = 1 then selectedCols perminfo else updatedCols perminfo)"

text \<open>Bit 0 is the right to insert, bit 1 to select and bit 2 to update.\<close>

definition relation_allows :: "system_catalog \<Rightarrow> RTEPermissionInfo \<Rightarrow> bool" where
  "relation_allows cat perminfo \<longleftrightarrow>
     (\<forall>p. bit (requiredPerms perminfo) p \<longrightarrow>
        bit (relation_rights cat (relid perminfo) (check_user cat perminfo)) p \<or>
        (p < 3 \<and> columns_grant cat (relid perminfo) (check_user cat perminfo) p (perm_columns perminfo p)))"

text \<open>
  The entry describes an existing relation, names existing columns, has no whole-row reference among the
  changed columns, and needs no right to write that \<^verbatim>\<open>pg_write_all_data\<close> should add to others.
\<close>

definition perminfo_ok :: "system_catalog \<Rightarrow> RTEPermissionInfo \<Rightarrow> bool" where
  "perminfo_ok cat perminfo \<longleftrightarrow>
     RELOID cat (relid perminfo) \<noteq> None \<and>
     bms_wf (selectedCols perminfo) \<and> bms_wf (insertedCols perminfo) \<and> bms_wf (updatedCols perminfo) \<and>
     (\<forall>c \<in> bms_members (selectedCols perminfo). column_of c = InvalidAttrNumber \<or> live_column cat (relid perminfo) (column_of c)) \<and>
     (\<forall>c \<in> bms_members (insertedCols perminfo) \<union> bms_members (updatedCols perminfo).
        column_of c \<noteq> InvalidAttrNumber \<and> live_column cat (relid perminfo) (column_of c)) \<and>
     write_all_applies cat (relid perminfo) (check_user cat perminfo) (requiredPerms perminfo)"

text \<open>102 may select the column \<^verbatim>\<open>mark\<close> of the scores, and no other.\<close>

definition mark_query :: "bitmapset \<Rightarrow> RTEPermissionInfo" where
  "mark_query cols =
     \<lparr>relid = 20000, inh = False, requiredPerms = ACL_SELECT, checkAsUser = 102, selectedCols = cols,
      insertedCols = None, updatedCols = None\<rparr>"

section \<open>Loops over columns\<close>

lemma leave_unless_ok_simps [simp]:
  "leave_unless_ok (Inr (if P then ACLCHECK_OK else ACLCHECK_NO_PRIV)) = (if P then None else Some (Inr False))"
  by (simp add: leave_unless_ok_def)

lemma bms_wf_empty: "bms_wf a \<Longrightarrow> bms_members a = {} \<longleftrightarrow> a = None"
  using wf_members_nonempty by (cases a) (auto simp: bms_members_def)

lemma scan_list_check:
  assumes "\<forall>x \<in> set xs. body x = (if P x then None else Some (Inr False))"
  shows "scan_list body (Inr True) xs = Inr (\<forall>x \<in> set xs. P x)"
  using assms by (induction xs) auto

lemma single_right:
  "ACL_INSERT AND w \<noteq> 0 \<longleftrightarrow> bit w 0" "ACL_SELECT AND w \<noteq> 0 \<longleftrightarrow> bit w 1" "ACL_UPDATE AND w \<noteq> 0 \<longleftrightarrow> bit w 2"
  "w AND ACL_INSERT \<noteq> 0 \<longleftrightarrow> bit w 0" "w AND ACL_SELECT \<noteq> 0 \<longleftrightarrow> bit w 1" "w AND ACL_UPDATE \<noteq> 0 \<longleftrightarrow> bit w 2"
  unfolding word_zero_bits bit_and_iff bit_rights by auto

lemma leave_simps [simp]: "leave_unless_ok (Inr ACLCHECK_OK) = None" "leave_unless_ok (Inr ACLCHECK_NO_PRIV) = Some (Inr False)"
  by (simp_all add: leave_unless_ok_def)

lemma select_column_eq:
  assumes ok: "catalog_ok cat" and "column_of c = InvalidAttrNumber \<or> live_column cat relOid (column_of c)"
  shows "select_column cat relOid userid (int c) =
    (if column_grants cat relOid userid 1 c then None else Some (Inr False))"
proof (cases "column_of c = InvalidAttrNumber")
  case True
  then show ?thesis
    by (simp add: select_column_def column_of_def pg_attribute_aclcheck_all_eq [OF ok] single_right list_all_iff Let_def column_grants_def)
next
  case False
  with assms(2) have "pg_attribute_aclcheck cat relOid (column_of c) userid ACL_SELECT =
      Inr (if bit (column_rights cat relOid (column_of c) userid) 1 then ACLCHECK_OK else ACLCHECK_NO_PRIV)"
    by (simp add: pg_attribute_aclcheck_eq [OF ok] single_right)
  with False show ?thesis by (simp add: select_column_def column_of_def [symmetric] column_grants_def)
qed

lemma modify_column_eq:
  assumes ok: "catalog_ok cat" and "column_of c \<noteq> InvalidAttrNumber" "live_column cat relOid (column_of c)"
    and p: "\<And>w. required AND w \<noteq> 0 \<longleftrightarrow> bit w p"
  shows "modify_column cat relOid userid required (int c) =
    (if column_grants cat relOid userid p c then None else Some (Inr False))"
  using assms(2) pg_attribute_aclcheck_eq [OF ok assms(3), of userid required]
  by (simp add: modify_column_def column_of_def [symmetric] column_grants_def p)

lemma member_loop_check:
  assumes "\<forall>c \<in> bms_members cols. body (int c) = (if P c then None else Some (Inr False))"
  shows "member_loop body (Inr True) cols (- 1) = Some (Inr (\<forall>c \<in> bms_members cols. P c))"
  using scan_list_check [of "map int (sorted_list_of_set (bms_members cols))" body "\<lambda>x. P (nat x)"] assms
  by (simp add: member_loop_scan)

lemma selected_eq:
  assumes ok: "catalog_ok cat" and wf: "bms_wf sel"
    and cols: "\<forall>c \<in> bms_members sel. column_of c = InvalidAttrNumber \<or> live_column cat relOid (column_of c)"
  shows "ExecCheckPermissionsSelected cat relOid userid sel = Some (Inr (columns_grant cat relOid userid 1 (bms_members sel)))"
proof (cases "bms_members sel = {}")
  case True
  then have "sel = None" using wf by (simp add: bms_wf_empty)
  with True show ?thesis
    by (simp add: ExecCheckPermissionsSelected_def pg_attribute_aclcheck_all_eq [OF ok] member_loop_scan columns_grant_def
        single_right list_ex_iff Let_def)
next
  case False
  then have "sel \<noteq> None" by (auto simp: bms_members_def)
  moreover have "member_loop (select_column cat relOid userid) (Inr True) sel (- 1) =
      Some (Inr (\<forall>c \<in> bms_members sel. column_grants cat relOid userid 1 c))"
    by (rule member_loop_check) (use cols select_column_eq [OF ok] in blast)
  ultimately show ?thesis using False by (auto simp: ExecCheckPermissionsSelected_def columns_grant_def)
qed

lemma modified_eq:
  assumes ok: "catalog_ok cat" and wf: "bms_wf cols"
    and cols: "\<forall>c \<in> bms_members cols. column_of c \<noteq> InvalidAttrNumber \<and> live_column cat relOid (column_of c)"
    and p: "\<And>w. required AND w \<noteq> 0 \<longleftrightarrow> bit w p"
  shows "ExecCheckPermissionsModified cat relOid userid cols required =
    Some (Inr (columns_grant cat relOid userid p (bms_members cols)))"
proof (cases "bms_members cols = {}")
  case True
  then have "cols = None" using wf by (simp add: bms_wf_empty)
  with True show ?thesis
    by (simp add: ExecCheckPermissionsModified_def pg_attribute_aclcheck_all_eq [OF ok] member_loop_scan columns_grant_def
        p list_ex_iff Let_def)
next
  case False
  then have "cols \<noteq> None" by (auto simp: bms_members_def)
  moreover have "member_loop (modify_column cat relOid userid required) (Inr True) cols (- 1) =
      Some (Inr (\<forall>c \<in> bms_members cols. column_grants cat relOid userid p c))"
    by (rule member_loop_check) (use cols modify_column_eq [OF ok _ _ p] in blast)
  ultimately show ?thesis using False by (auto simp: ExecCheckPermissionsModified_def columns_grant_def)
qed

section \<open>One relation\<close>

lemma remaining_bits:
  assumes "remaining = required AND NOT (required AND rights)"
  shows "bit remaining p \<longleftrightarrow> bit (required :: word64) p \<and> \<not> bit rights p"
  using assms bit_imp_le_length [of required p] by (auto simp: bit_simps)

lemma only_relation_rights: "w AND NOT (ACL_SELECT OR ACL_INSERT OR ACL_UPDATE) = 0 \<longleftrightarrow> (\<forall>p. bit w p \<longrightarrow> p < 3)"
proof -
  have three: "p < 3 \<longleftrightarrow> p = 1 \<or> p = 0 \<or> p = 2" for p :: nat by auto
  have "bit (w AND NOT (ACL_SELECT OR ACL_INSERT OR ACL_UPDATE)) p \<longleftrightarrow> bit w p \<and> \<not> p < 3" for p
    using bit_imp_le_length [of w p] unfolding bit_and_iff bit_not_iff bit_or_iff bit_rights three by auto
  then show ?thesis unfolding word_zero_bits by blast
qed

lemma ExecCheckOneRelPerms_eq:
  assumes ok: "catalog_ok cat" and info: "perminfo_ok cat perminfo"
  shows "ExecCheckOneRelPerms cat perminfo = Some (Inr (relation_allows cat perminfo))"
proof -
  let ?u = "check_user cat perminfo" and ?t = "relid perminfo"
  obtain rel where rel: "RELOID cat ?t = Some rel" using info by (auto simp: perminfo_ok_def)
  define remaining where "remaining = requiredPerms perminfo AND NOT (requiredPerms perminfo AND relation_rights cat ?t ?u)"
  have bits: "bit remaining p \<longleftrightarrow> bit (requiredPerms perminfo) p \<and> \<not> bit (relation_rights cat ?t ?u) p" for p
    by (rule remaining_bits [OF remaining_def])
  have allows: "relation_allows cat perminfo \<longleftrightarrow>
      (\<forall>p. bit remaining p \<longrightarrow> p < 3 \<and> columns_grant cat ?t ?u p (perm_columns perminfo p))"
    unfolding relation_allows_def bits by blast
  have sel: "ExecCheckPermissionsSelected cat ?t ?u (selectedCols perminfo) =
      Some (Inr (columns_grant cat ?t ?u 1 (perm_columns perminfo 1)))"
    using selected_eq [OF ok] info by (simp add: perminfo_ok_def perm_columns_def)
  have ins: "ExecCheckPermissionsModified cat ?t ?u (insertedCols perminfo) ACL_INSERT =
      Some (Inr (columns_grant cat ?t ?u 0 (perm_columns perminfo 0)))"
    using modified_eq [OF ok _ _ single_right(1)] info by (simp add: perminfo_ok_def perm_columns_def)
  have upd: "ExecCheckPermissionsModified cat ?t ?u (updatedCols perminfo) ACL_UPDATE =
      Some (Inr (columns_grant cat ?t ?u 2 (perm_columns perminfo 2)))"
    using modified_eq [OF ok _ _ single_right(3)] info by (simp add: perminfo_ok_def perm_columns_def)
  have mask: "pg_class_aclmask cat ?t ?u (requiredPerms perminfo) ACLMASK_ALL =
      Inr (requiredPerms perminfo AND relation_rights cat ?t ?u)"
    by (rule pg_class_aclmask_all [OF ok rel]) (use info in \<open>simp add: perminfo_ok_def\<close>)
  have "ExecCheckOneRelPerms cat perminfo =
      (if remaining = 0 then Some (Inr True) else if \<not> (\<forall>p. bit remaining p \<longrightarrow> p < 3) then Some (Inr False)
       else Some (Inr ((bit remaining 1 \<longrightarrow> columns_grant cat ?t ?u 1 (perm_columns perminfo 1)) \<and>
         (bit remaining 0 \<longrightarrow> columns_grant cat ?t ?u 0 (perm_columns perminfo 0)) \<and>
         (bit remaining 2 \<longrightarrow> columns_grant cat ?t ?u 2 (perm_columns perminfo 2)))))"
    unfolding ExecCheckOneRelPerms_def check_user_def [symmetric] Let_def mask fbind_simps remaining_def [symmetric]
      only_relation_rights single_right sel ins upd by auto
  also have "\<dots> = Some (Inr (relation_allows cat perminfo))"
    unfolding allows word_zero_bits by (auto simp: numeral_3_eq_3 less_Suc_eq numeral_2_eq_2)
  finally show ?thesis .
qed

lemma check_loop_eq:
  assumes "catalog_ok cat" and "\<forall>info \<in> set infos. perminfo_ok cat info"
  shows "check_loop cat report infos =
    (if \<forall>info \<in> set infos. relation_allows cat info then Some (Inr True)
     else if report then Some (Inl (PgError ''ERRCODE_INSUFFICIENT_PRIVILEGE''
       (the (no_priv_msg (get_relkind_objtype (get_rel_relkind cat
         (relid (the (find (\<lambda>info. \<not> relation_allows cat info) infos)))))))))
     else Some (Inr False))"
  using assms(2)
proof (induction infos)
  case (Cons info infos)
  have "\<exists>msg. no_priv_msg (get_relkind_objtype k) = Some msg" for k
    by (simp add: get_relkind_objtype_def no_priv_msg_def)
  then obtain msg where "no_priv_msg (get_relkind_objtype (get_rel_relkind cat (relid info))) = Some msg" by blast
  with Cons show ?case
    by (cases "relation_allows cat info") (auto simp: ExecCheckOneRelPerms_eq [OF assms(1)] aclcheck_error_def)
qed simp

section \<open>Properties\<close>


lemma mark_columns: "bms_members (Some [512]) = {9}" "bms_members (Some [768]) = {8, 9}"
proof -
  have "filter (bit (512 :: word64)) [0..<64] = [9]" "filter (bit (768 :: word64)) [0..<64] = [8, 9]" by code_simp+
  moreover have "bms_members (Some [w]) = set (filter (bit w) [0..<64])" for w
    by (auto simp: bms_members_def word_members_def)
  ultimately show "bms_members (Some [512]) = {9}" "bms_members (Some [768]) = {8, 9}" by (simp_all only: list.set)
qed


end
