(* ===== verification/AclUpdate.thy ===== *)
theory AclUpdate
  imports Acl
begin

unbundle bit_operations_syntax

text \<open>
  Changing access control lists: \<^verbatim>\<open>aclupdate\<close> with \<^verbatim>\<open>recursive_revoke\<close> and \<^verbatim>\<open>check_circularity\<close>,
  \<^verbatim>\<open>aclmerge\<close> and \<^verbatim>\<open>aclnewowner\<close> of \<^verbatim>\<open>src/postgres/src/backend/utils/adt/acl.c\<close>.

  The three routines call each other and restart their loops with \<^verbatim>\<open>goto\<close>, so they are mutually
  recursive functions with a step budget; \<open>aclupdate_returns\<close> shows which budget is always enough on
  lists in which no two items have the same grantee and grantor. The lemmas give the effect of an
  update on the rights of every grantee and grantor, that nothing but the addressed item ever gains
  a right, and that cascading revocation leaves no privilege whose grantor lost its grant option.
  Assertions of the source are not modelled: production builds compile them out.
\<close>

section \<open>Updating\<close>

datatype modechg = ACL_MODECHG_ADD | ACL_MODECHG_DEL | ACL_MODECHG_EQL

datatype DropBehavior = DROP_RESTRICT | DROP_CASCADE

text \<open>The rights of the addressed item after the change.\<close>

definition changed_rights :: "modechg \<Rightarrow> AclMode \<Rightarrow> AclMode \<Rightarrow> AclMode" where
  "changed_rights modechg old_rights mod_rights =
     (case modechg of
        ACL_MODECHG_ADD \<Rightarrow> old_rights OR mod_rights
      | ACL_MODECHG_DEL \<Rightarrow> old_rights AND NOT mod_rights
      | ACL_MODECHG_EQL \<Rightarrow> mod_rights)"

text \<open>
  The body of \<^verbatim>\<open>aclupdate\<close> between the circularity check and the cascade: the new items, and the grant
  options of the addressed item before and after.
\<close>

definition modify_item :: "AclItem list \<Rightarrow> AclItem \<Rightarrow> modechg \<Rightarrow> AclItem list \<times> AclMode \<times> AclMode" where
  "modify_item items mod_aip modechg =
     (let (new_aip, dst) =
            (case find_index (aclitem_match mod_aip) items of
               Some dst \<Rightarrow> (items, dst)
             | None \<Rightarrow> (items @ [AclItem (ai_grantee mod_aip) (ai_grantor mod_aip)
                                  (PRIVS_GOPTIONS ACL_NO_RIGHTS ACL_NO_RIGHTS)], length items));
          old_item = new_aip ! dst;
          new_item = ACLITEM_SET_RIGHTS old_item
                       (changed_rights modechg (ACLITEM_GET_RIGHTS old_item) (ACLITEM_GET_RIGHTS mod_aip));
          result = (if ACLITEM_GET_RIGHTS new_item = ACL_NO_RIGHTS
                    then take dst new_aip @ drop (dst + 1) new_aip
                    else new_aip[dst := new_item])
      in (result, ACLITEM_GET_GOPTIONS old_item, ACLITEM_GET_GOPTIONS new_item))"

text \<open>
  The routines below call \<^verbatim>\<open>aclupdate\<close>, which calls them; \<open>upd\<close> is that call, for a deletion. \<open>n\<close> is the
  budget of a loop.
\<close>

fun revoke_loop ::
  "nat \<Rightarrow> (Acl \<Rightarrow> AclItem \<Rightarrow> Acl fueled) \<Rightarrow> Acl \<Rightarrow> Oid \<Rightarrow> AclMode \<Rightarrow> DropBehavior \<Rightarrow> Acl fueled" where
  "revoke_loop 0 upd acl grantee revoke_privs behavior = None"
| "revoke_loop (Suc n) upd acl grantee revoke_privs behavior =
     (case find (\<lambda>item. ai_grantor item = grantee \<and> ACLITEM_GET_PRIVS item AND revoke_privs \<noteq> 0) (ACL_DAT acl) of
        None \<Rightarrow> Some (Inr acl)
      | Some item \<Rightarrow>
          if behavior = DROP_RESTRICT
          then Some (ereport_error ''ERRCODE_DEPENDENT_OBJECTS_STILL_EXIST'' ''dependent privileges exist'')
          else fbind (upd acl (AclItem (ai_grantee item) grantee (PRIVS_GOPTIONS revoke_privs revoke_privs)))
                 (\<lambda>new_acl. revoke_loop n upd new_acl grantee revoke_privs behavior))"

definition recursive_revoke ::
  "nat \<Rightarrow> (Acl \<Rightarrow> AclItem \<Rightarrow> Acl fueled) \<Rightarrow> role_catalog \<Rightarrow> Acl \<Rightarrow> Oid \<Rightarrow> AclMode \<Rightarrow> Oid \<Rightarrow> DropBehavior \<Rightarrow>
   Acl fueled" where
  "recursive_revoke n upd cat acl grantee revoke_privs ownerId behavior =
     fbind (Some (check_acl acl)) (\<lambda>_.
       if grantee = ownerId then Some (Inr acl)
       else fbind (Some (aclmask cat (Some acl) grantee ownerId (ACL_GRANT_OPTION_FOR revoke_privs) ACLMASK_ALL))
              (\<lambda>still_has.
                 let revoke_privs1 = revoke_privs AND NOT (ACL_OPTION_TO_PRIVS still_has)
                 in if revoke_privs1 = ACL_NO_RIGHTS then Some (Inr acl)
                    else revoke_loop n upd acl grantee revoke_privs1 behavior))"

fun cc_loop :: "nat \<Rightarrow> (Acl \<Rightarrow> AclItem \<Rightarrow> Acl fueled) \<Rightarrow> Acl \<Rightarrow> AclItem \<Rightarrow> Acl fueled" where
  "cc_loop 0 upd acl mod_aip = None"
| "cc_loop (Suc n) upd acl mod_aip =
     (case find (\<lambda>item. ai_grantee item = ai_grantee mod_aip \<and> ACLITEM_GET_GOPTIONS item \<noteq> ACL_NO_RIGHTS) (ACL_DAT acl) of
        None \<Rightarrow> Some (Inr acl)
      | Some item \<Rightarrow> fbind (upd acl item) (\<lambda>new_acl. cc_loop n upd new_acl mod_aip))"

definition check_circularity ::
  "nat \<Rightarrow> (Acl \<Rightarrow> AclItem \<Rightarrow> Acl fueled) \<Rightarrow> role_catalog \<Rightarrow> Acl \<Rightarrow> AclItem \<Rightarrow> Oid \<Rightarrow> unit fueled" where
  "check_circularity n upd cat old_acl mod_aip ownerId =
     fbind (Some (check_acl old_acl)) (\<lambda>_.
       if ai_grantor mod_aip = ownerId then Some (Inr ())
       else fbind (cc_loop n upd (allocacl (ACL_DAT old_acl)) mod_aip) (\<lambda>acl.
            fbind (Some (aclmask cat (Some acl) (ai_grantor mod_aip) ownerId
                           (ACL_GRANT_OPTION_FOR (ACLITEM_GET_GOPTIONS mod_aip)) ACLMASK_ALL)) (\<lambda>own_privs.
              if ACLITEM_GET_GOPTIONS mod_aip AND NOT (ACL_OPTION_TO_PRIVS own_privs) \<noteq> 0
              then Some (ereport_error ''ERRCODE_INVALID_GRANT_OPERATION''
                           ''grant options cannot be granted back to your own grantor'')
              else Some (Inr ()))))"

primrec aclupdate ::
  "nat \<Rightarrow> role_catalog \<Rightarrow> Acl \<Rightarrow> AclItem \<Rightarrow> modechg \<Rightarrow> Oid \<Rightarrow> DropBehavior \<Rightarrow> Acl fueled" where
  "aclupdate 0 = (\<lambda>cat old_acl mod_aip modechg ownerId behavior. None)"
| "aclupdate (Suc n) = (\<lambda>cat old_acl mod_aip modechg ownerId behavior.
     fbind (Some (check_acl old_acl)) (\<lambda>_.
     fbind (if modechg \<noteq> ACL_MODECHG_DEL \<and> ACLITEM_GET_GOPTIONS mod_aip \<noteq> ACL_NO_RIGHTS
            then check_circularity n (\<lambda>acl aip. aclupdate n cat acl aip ACL_MODECHG_DEL ownerId DROP_CASCADE)
                   cat old_acl mod_aip ownerId
            else Some (Inr ())) (\<lambda>_.
       let (new_items, old_goptions, new_goptions) = modify_item (ACL_DAT old_acl) mod_aip modechg;
           new_acl = allocacl new_items
       in if old_goptions AND NOT new_goptions \<noteq> 0
          then recursive_revoke n (\<lambda>acl aip. aclupdate n cat acl aip ACL_MODECHG_DEL ownerId behavior)
                 cat new_acl (ai_grantee mod_aip) (old_goptions AND NOT new_goptions) ownerId behavior
          else Some (Inr new_acl))))"

section \<open>Merging and changing the owner\<close>

fun merge_items :: "nat \<Rightarrow> role_catalog \<Rightarrow> Oid \<Rightarrow> AclItem list \<Rightarrow> Acl \<Rightarrow> Acl fueled" where
  "merge_items n cat ownerId [] result_acl = Some (Inr result_acl)"
| "merge_items n cat ownerId (aip # rest) result_acl =
     fbind (aclupdate n cat result_acl aip ACL_MODECHG_ADD ownerId DROP_RESTRICT)
       (\<lambda>tmp_acl. merge_items n cat ownerId rest tmp_acl)"

definition aclmerge ::
  "nat \<Rightarrow> role_catalog \<Rightarrow> Acl option \<Rightarrow> Acl option \<Rightarrow> Oid \<Rightarrow> Acl option fueled" where
  "aclmerge n cat left_acl right_acl ownerId =
     (if acl_is_empty left_acl then
        (if acl_is_empty right_acl then Some (Inr None) else Some (Inr (Some (aclcopy (the right_acl)))))
      else if acl_is_empty right_acl then Some (Inr (Some (aclcopy (the left_acl))))
      else fbind (merge_items n cat ownerId (ACL_DAT (the right_acl)) (aclcopy (the left_acl)))
             (\<lambda>acl. Some (Inr (Some acl))))"

definition subst_owner :: "Oid \<Rightarrow> Oid \<Rightarrow> AclItem \<Rightarrow> AclItem" where
  "subst_owner oldOwnerId newOwnerId item =
     AclItem (if ai_grantee item = oldOwnerId then newOwnerId else ai_grantee item)
             (if ai_grantor item = oldOwnerId then newOwnerId else ai_grantor item)
             (ai_privs item)"

text \<open>\<^verbatim>\<open>newpresent\<close> after the substitution loop.\<close>

definition mentions_new_owner :: "Oid \<Rightarrow> Oid \<Rightarrow> AclItem \<Rightarrow> bool" where
  "mentions_new_owner oldOwnerId newOwnerId item \<longleftrightarrow>
     (ai_grantor item \<noteq> oldOwnerId \<and> ai_grantor item = newOwnerId) \<or>
     (ai_grantee item \<noteq> oldOwnerId \<and> ai_grantee item = newOwnerId)"

text \<open>The \<^verbatim>\<open>src\<close> loop: later duplicates of the target item are merged into it and marked deleted.\<close>

fun absorb_duplicates :: "AclItem \<Rightarrow> AclItem list \<Rightarrow> AclItem \<times> AclItem list" where
  "absorb_duplicates targ [] = (targ, [])"
| "absorb_duplicates targ (src # rest) =
     (if ACLITEM_GET_RIGHTS src = ACL_NO_RIGHTS then
        (let (targ1, rest1) = absorb_duplicates targ rest in (targ1, src # rest1))
      else if aclitem_match targ src then
        (let (targ1, rest1) =
               absorb_duplicates
                 (ACLITEM_SET_RIGHTS targ (ACLITEM_GET_RIGHTS targ OR ACLITEM_GET_RIGHTS src)) rest
         in (targ1, ACLITEM_SET_RIGHTS src ACL_NO_RIGHTS # rest1))
      else (let (targ1, rest1) = absorb_duplicates targ rest in (targ1, src # rest1)))"

lemma length_absorb_duplicates [simp]: "length (snd (absorb_duplicates targ rest)) = length rest"
  by (induction rest arbitrary: targ) (simp_all add: split_def Let_def)

function emit_merged :: "AclItem list \<Rightarrow> AclItem list" where
  "emit_merged [] = []"
| "emit_merged (targ # rest) =
     (if ACLITEM_GET_RIGHTS targ = ACL_NO_RIGHTS then emit_merged rest
      else fst (absorb_duplicates targ rest) # emit_merged (snd (absorb_duplicates targ rest)))"
  by pat_completeness auto
termination by (relation "measure length") auto

definition aclnewowner :: "Acl \<Rightarrow> Oid \<Rightarrow> Oid \<Rightarrow> Acl pg_result" where
  "aclnewowner old_acl oldOwnerId newOwnerId =
     rbind (check_acl old_acl) (\<lambda>_.
       let new_aip = map (subst_owner oldOwnerId newOwnerId) (ACL_DAT old_acl)
       in if list_ex (mentions_new_owner oldOwnerId newOwnerId) (ACL_DAT old_acl)
          then Inr (allocacl (emit_merged new_aip))
          else Inr (allocacl new_aip))"

section \<open>Abstraction and invariants\<close>

definition ai_pair :: "AclItem \<Rightarrow> Oid \<times> Oid" where
  "ai_pair item = (ai_grantee item, ai_grantor item)"

text \<open>The rights that a list gives to a grantee through a grantor.\<close>

definition pair_rights :: "AclItem list \<Rightarrow> Oid \<times> Oid \<Rightarrow> AclMode" where
  "pair_rights items p = foldr (\<lambda>i r. ai_privs i OR r) (filter (\<lambda>i. ai_pair i = p) items) 0"

definition acl_unique :: "AclItem list \<Rightarrow> bool" where
  "acl_unique items \<longleftrightarrow> distinct (map ai_pair items)"

text \<open>The number of rights in a list, which bounds the number of revocation steps.\<close>

definition total_rights :: "AclItem list \<Rightarrow> nat" where
  "total_rights items = sum_list (map (\<lambda>i. count_one_bits (ai_privs i)) items)"

text \<open>Every item of the first list is in the second, with at least the same rights.\<close>

definition sub_items :: "AclItem list \<Rightarrow> AclItem list \<Rightarrow> bool" where
  "sub_items xs ys \<longleftrightarrow>
     (\<forall>i \<in> set xs. \<exists>j \<in> set ys. ai_pair j = ai_pair i \<and> (\<forall>n. bit (ai_privs i) n \<longrightarrow> bit (ai_privs j) n))"

text \<open>
  Every privilege outside \<open>S\<close> that was not granted by the owner was granted by a role that holds
  the grant option for it.
\<close>

definition grounded_except :: "(Oid \<times> nat) set \<Rightarrow> Oid \<Rightarrow> AclItem list \<Rightarrow> bool" where
  "grounded_except S ownerId items \<longleftrightarrow>
     (\<forall>i \<in> set items. ai_grantor i \<noteq> ownerId \<longrightarrow>
        (\<forall>p < 32. bit (ai_privs i) p \<longrightarrow> (ai_grantor i, p) \<in> S \<or>
           (\<exists>j \<in> set items. ai_grantee j = ai_grantor i \<and> bit (ai_privs j) (32 + p))))"

abbreviation grounded :: "Oid \<Rightarrow> AclItem list \<Rightarrow> bool" where
  "grounded \<equiv> grounded_except {}"

text \<open>No grant options for the public, and no role of the list inherits from another.\<close>

definition plain_roles :: "role_catalog \<Rightarrow> Oid \<Rightarrow> Oid set \<Rightarrow> AclItem list \<Rightarrow> bool" where
  "plain_roles cat ownerId R items \<longleftrightarrow>
     (\<forall>i \<in> set items. ai_grantee i \<in> insert ACL_ID_PUBLIC R \<and>
        (ai_grantee i = ACL_ID_PUBLIC \<longrightarrow> ACLITEM_GET_GOPTIONS i = 0)) \<and>
     (\<forall>a \<in> R. \<forall>b \<in> insert ownerId R. privs_of cat a b \<longleftrightarrow> a = b)"

text \<open>A sequence of updates, as successive \<^verbatim>\<open>GRANT\<close> and \<^verbatim>\<open>REVOKE ... CASCADE\<close> statements make it.\<close>

fun run_updates :: "nat \<Rightarrow> role_catalog \<Rightarrow> Oid \<Rightarrow> (modechg \<times> AclItem) list \<Rightarrow> Acl \<Rightarrow> Acl fueled" where
  "run_updates n cat ownerId [] acl = Some (Inr acl)"
| "run_updates n cat ownerId ((chg, m) # rest) acl =
     fbind (aclupdate n cat acl m chg ownerId DROP_CASCADE) (run_updates n cat ownerId rest)"

text \<open>Four roles without memberships, and a privilege granted with its grant option.\<close>

definition grant_roles :: role_catalog where
  "grant_roles =
     \<lparr>pg_authid = [\<lparr>auth_oid = 10, rolname = ''owner'', rolsuper = False, rolinherit = True, rolcreaterole = False, rolbypassrls = False\<rparr>,
                   \<lparr>auth_oid = 201, rolname = ''b'', rolsuper = False, rolinherit = True, rolcreaterole = False, rolbypassrls = False\<rparr>,
                   \<lparr>auth_oid = 202, rolname = ''c'', rolsuper = False, rolinherit = True, rolcreaterole = False, rolbypassrls = False\<rparr>],
      pg_auth_members = [], pg_database = [(5, 10)], MyDatabaseId = 5, IsUnderPostmaster = True,
      CurrentUserId = 10, SessionUserId = 10\<rparr>"

definition select_with_option :: "Oid \<Rightarrow> Oid \<Rightarrow> AclItem" where
  "select_with_option grantee grantor = AclItem grantee grantor (PRIVS_GOPTIONS ACL_SELECT ACL_SELECT)"

text \<open>The owner grants to 201 and 202, they grant to each other, the owner revokes both.\<close>

definition mutual_grants :: "(modechg \<times> AclItem) list" where
  "mutual_grants =
     [(ACL_MODECHG_ADD, select_with_option 201 10), (ACL_MODECHG_ADD, select_with_option 202 10),
      (ACL_MODECHG_ADD, select_with_option 202 201), (ACL_MODECHG_ADD, select_with_option 201 202),
      (ACL_MODECHG_DEL, select_with_option 201 10), (ACL_MODECHG_DEL, select_with_option 202 10)]"

text \<open>The owner granted with grant option to 201, who granted to 202.\<close>

definition chain_acl :: Acl where
  "chain_acl = allocacl [select_with_option 201 10, AclItem 202 201 ACL_SELECT]"

section \<open>Rights per grantee and grantor\<close>

lemma bit_pair_rights [word_bits]:
  "bit (pair_rights items p) n \<longleftrightarrow> (\<exists>i \<in> set items. ai_pair i = p \<and> bit (ai_privs i) n)"
  unfolding pair_rights_def by (induction items) (auto simp: bit_simps)

lemma pair_rights_item:
  assumes "acl_unique items" and "i \<in> set items"
  shows "pair_rights items (ai_pair i) = ai_privs i"
proof (rule bit_eqI)
  fix n
  have "j = i" if "j \<in> set items" "ai_pair j = ai_pair i" for j
    using assms that by (auto simp: acl_unique_def distinct_map inj_on_def)
  then show "bit (pair_rights items (ai_pair i)) n \<longleftrightarrow> bit (ai_privs i) n"
    using assms(2) unfolding bit_pair_rights by blast
qed

lemma pair_rights_absent: "\<forall>i \<in> set items. ai_pair i \<noteq> p \<Longrightarrow> pair_rights items p = 0"
  by (auto simp: word_eq_0_iff_bit bit_pair_rights)

lemma match_iff_pair: "aclitem_match a b \<longleftrightarrow> ai_pair a = ai_pair b"
  by (auto simp: aclitem_match_def ai_pair_def)

lemma pair_SET_RIGHTS [simp]: "ai_pair (ACLITEM_SET_RIGHTS i r) = ai_pair i"
  "ai_privs (ACLITEM_SET_RIGHTS i r) = r" "ai_grantee (ACLITEM_SET_RIGHTS i r) = ai_grantee i"
  "ai_grantor (ACLITEM_SET_RIGHTS i r) = ai_grantor i"
  "ai_pair (AclItem a b r) = (a, b)" "(ai_grantee i, ai_grantor i) = ai_pair i"
  by (simp_all add: ACLITEM_SET_RIGHTS_def ai_pair_def)

lemmas rights_simps [simp] = ACL_NO_RIGHTS_def ACLITEM_GET_RIGHTS_def

lemma no_rights [simp]: "PRIVS_GOPTIONS 0 0 = 0" "ACLITEM_GET_GOPTIONS (AclItem a b 0) = 0"
  by (simp_all add: PRIVS_GOPTIONS_def ACLITEM_GET_GOPTIONS_def)

lemma pair_rights_simps [simp]:
  "pair_rights [] p = 0"
  "pair_rights (i # items) p = (if ai_pair i = p then ai_privs i OR pair_rights items p else pair_rights items p)"
  by (simp_all add: pair_rights_def)

lemma pair_rights_append [simp]: "pair_rights (xs @ ys) p = pair_rights xs p OR pair_rights ys p"
  by (induction xs) (simp_all add: or.assoc)

lemma unique_simps:
  "acl_unique (xs @ i # ys) \<longleftrightarrow> acl_unique (xs @ ys) \<and> (\<forall>j \<in> set (xs @ ys). ai_pair j \<noteq> ai_pair i)"
  by (auto simp: acl_unique_def image_iff)

text \<open>Replacing or dropping one item of a list with distinct pairs.\<close>

lemma unique_split:
  assumes "acl_unique (xs @ i # ys)"
  shows "pair_rights (xs @ i # ys) = (pair_rights (xs @ ys))(ai_pair i := ai_privs i)"
    and "acl_unique (xs @ ys)" and "pair_rights (xs @ ys) (ai_pair i) = 0"
    and "ai_pair j = ai_pair i \<Longrightarrow> acl_unique (xs @ j # ys)"
    and "total_rights (xs @ i # ys) = total_rights (xs @ ys) + count_one_bits (ai_privs i)"
proof -
  have "\<forall>j \<in> set (xs @ ys). ai_pair j \<noteq> ai_pair i" using assms unfolding unique_simps ..
  then have "\<forall>j \<in> set xs. ai_pair j \<noteq> ai_pair i" "\<forall>j \<in> set ys. ai_pair j \<noteq> ai_pair i" by simp_all
  note zero = this [THEN pair_rights_absent]
  then show "pair_rights (xs @ ys) (ai_pair i) = 0" by simp
  show "pair_rights (xs @ i # ys) = (pair_rights (xs @ ys))(ai_pair i := ai_privs i)"
    by (rule ext) (simp add: zero)
  show "acl_unique (xs @ ys)" "ai_pair j = ai_pair i \<Longrightarrow> acl_unique (xs @ j # ys)"
    using assms unfolding unique_simps by metis+
  show "total_rights (xs @ i # ys) = total_rights (xs @ ys) + count_one_bits (ai_privs i)"
    by (simp add: total_rights_def)
qed

lemma modify_item_cases [consumes 1, case_names present absent]:
  assumes "acl_unique items"
  obtains (present) xs i ys where "items = xs @ i # ys" "ai_pair i = ai_pair m"
      "modify_item items m chg =
        (let r = changed_rights chg (ai_privs i) (ai_privs m); new = ACLITEM_SET_RIGHTS i r
         in (if r = 0 then xs @ ys else xs @ new # ys, ACLITEM_GET_GOPTIONS i, ACLITEM_GET_GOPTIONS new))"
    | (absent) "\<forall>i \<in> set items. ai_pair i \<noteq> ai_pair m"
      "modify_item items m chg =
        (let r = changed_rights chg 0 (ai_privs m); new = AclItem (ai_grantee m) (ai_grantor m) r
         in (if r = 0 then items else items @ [new], 0, ACLITEM_GET_GOPTIONS new))"
proof (cases "find_index (aclitem_match m) items")
  case None
  then have "\<forall>i \<in> set items. ai_pair i \<noteq> ai_pair m"
    by (simp add: find_index_None_iff match_iff_pair) metis
  then show ?thesis
    by (rule absent) (simp add: modify_item_def Let_def None ACLITEM_SET_RIGHTS_def)
next
  case (Some d)
  from find_index_Some [OF Some] have d: "d < length items" "ai_pair (items ! d) = ai_pair m"
    by (auto simp: match_iff_pair)
  have split: "items = take d items @ items ! d # drop (d + 1) items"
    using d(1) by (simp add: id_take_nth_drop)
  have upd: "items[d := x] = take d items @ x # drop (d + 1) items" for x
    using d(1) by (simp add: upd_conv_take_nth_drop)
  show ?thesis
    by (rule present [OF split d(2)]) (simp add: modify_item_def Let_def Some upd)
qed

lemma modify_item_spec:
  assumes "acl_unique items" and "modify_item items m chg = (items', og, ng)"
  defines "old \<equiv> pair_rights items (ai_pair m)"
  shows "acl_unique items'"
    and "pair_rights items' = (pair_rights items)(ai_pair m := changed_rights chg old (ai_privs m))"
    and "bit og k \<longleftrightarrow> k < 32 \<and> bit old (32 + k)"
    and "bit ng k \<longleftrightarrow> k < 32 \<and> bit (changed_rights chg old (ai_privs m)) (32 + k)"
    and "total_rights items' + count_one_bits old =
      total_rights items + count_one_bits (changed_rights chg old (ai_privs m))"
proof -
  let ?r = "changed_rights chg old (ai_privs m)"
  have "acl_unique items' \<and> pair_rights items' = (pair_rights items)(ai_pair m := ?r) \<and>
      (bit og k \<longleftrightarrow> k < 32 \<and> bit old (32 + k)) \<and> (bit ng k \<longleftrightarrow> k < 32 \<and> bit ?r (32 + k)) \<and>
      total_rights items' + count_one_bits old = total_rights items + count_one_bits ?r"
    using assms(1)
  proof (cases rule: modify_item_cases [where m = m and chg = chg])
    case (present xs i ys)
    note uniq = assms(1) [unfolded present(1)]
    have old: "old = ai_privs i" using pair_rights_item [OF assms(1), of i] present(1,2) by (simp add: old_def)
    let ?new = "ACLITEM_SET_RIGHTS i ?r"
    have new: "acl_unique (xs @ ?new # ys)" by (rule unique_split(4) [OF uniq]) simp
    have res: "items' = (if ?r = 0 then xs @ ys else xs @ ?new # ys)" "og = ACLITEM_GET_GOPTIONS i"
        "ng = ACLITEM_GET_GOPTIONS ?new"
      using assms(2) unfolding present(3) old Let_def by (auto simp only: prod.inject)
    have "pair_rights items' = (pair_rights items)(ai_pair m := ?r)"
      using unique_split(1,3) [OF uniq] unique_split(1) [OF new] present(2)
      unfolding res present(1) by (auto simp: fun_eq_iff)
    moreover have "total_rights items' + count_one_bits old = total_rights items + count_one_bits ?r"
      using unique_split(5) [OF uniq] unique_split(5) [OF new] unfolding res present(1) old by simp
    ultimately show ?thesis
      using unique_split(2) [OF uniq] new unfolding res by (simp add: bit_GET_GOPTIONS old)
  next
    case absent
    have old: "old = 0" unfolding old_def by (rule pair_rights_absent [OF absent(1)])
    let ?new = "AclItem (ai_grantee m) (ai_grantor m) ?r"
    have new: "acl_unique (items @ ?new # [])"
      using assms(1) absent(1) by (auto simp: acl_unique_def)
    have res: "items' = (if ?r = 0 then items else items @ [?new])" "og = 0"
        "ng = ACLITEM_GET_GOPTIONS ?new"
      using assms(2) unfolding absent(2) old Let_def by (auto simp only: prod.inject)
    have "pair_rights items' = (pair_rights items)(ai_pair m := ?r)"
      using unique_split(1) [OF new] old unfolding res old_def by (auto simp: fun_eq_iff)
    moreover have "total_rights items' + count_one_bits old = total_rights items + count_one_bits ?r"
      using unique_split(5) [OF new] unfolding res old by simp
    ultimately show ?thesis
      using assms(1) new unfolding res by (simp add: bit_GET_GOPTIONS old)
  qed
  then show "acl_unique items'"
    and "pair_rights items' = (pair_rights items)(ai_pair m := ?r)"
    and "bit og k \<longleftrightarrow> k < 32 \<and> bit old (32 + k)" and "bit ng k \<longleftrightarrow> k < 32 \<and> bit ?r (32 + k)"
    and "total_rights items' + count_one_bits old = total_rights items + count_one_bits ?r"
    by blast+
qed

section \<open>Counting rights\<close>

lemma sub_items_refl [simp]: "sub_items xs xs"
  by (auto simp: sub_items_def)

lemma sub_items_trans: "sub_items xs ys \<Longrightarrow> sub_items ys zs \<Longrightarrow> sub_items xs zs"
  unfolding sub_items_def by (metis (no_types))

lemma sub_items_bits: "sub_items xs ys \<Longrightarrow> bit (pair_rights xs p) n \<Longrightarrow> bit (pair_rights ys p) n"
  unfolding sub_items_def bit_pair_rights by metis

lemma total_rights_sum:
  "acl_unique items \<Longrightarrow> finite P \<Longrightarrow> ai_pair ` set items \<subseteq> P \<Longrightarrow>
   total_rights items = (\<Sum>p \<in> P. count_one_bits (pair_rights items p))"
proof (induction items)
  case (Cons i items)
  have uniq: "acl_unique ([] @ i # items)" using Cons.prems(1) by simp
  have zero: "pair_rights items (ai_pair i) = 0" using unique_split(3) [OF uniq] by simp
  have IH: "total_rights items = (\<Sum>p \<in> P. count_one_bits (pair_rights items p))"
    using Cons unique_split(2) [OF uniq] by simp
  have "(\<Sum>p \<in> P. count_one_bits (pair_rights (i # items) p)) =
      (\<Sum>p \<in> P. count_one_bits (pair_rights items p) + (if p = ai_pair i then count_one_bits (ai_privs i) else 0))"
    by (rule sum.cong) (auto simp: zero)
  also have "\<dots> = total_rights items + count_one_bits (ai_privs i)"
    using Cons.prems(2,3) by (simp add: sum.distrib IH)
  finally show ?case by (simp add: total_rights_def)
qed (simp add: total_rights_def)

lemma total_rights_mono:
  assumes "acl_unique xs" and "acl_unique ys" and "sub_items xs ys"
  shows "total_rights xs \<le> total_rights ys"
    and "bit (pair_rights ys p) n \<Longrightarrow> \<not> bit (pair_rights xs p) n \<Longrightarrow> total_rights xs < total_rights ys"
proof -
  let ?P = "insert p (ai_pair ` set xs \<union> ai_pair ` set ys)"
  have x: "total_rights xs = (\<Sum>p \<in> ?P. count_one_bits (pair_rights xs p))"
    and y: "total_rights ys = (\<Sum>p \<in> ?P. count_one_bits (pair_rights ys p))"
    by (rule total_rights_sum; use assms in auto)+
  have le: "count_one_bits (pair_rights xs q) \<le> count_one_bits (pair_rights ys q)" for q
    using sub_items_bits [OF assms(3)] by (rule count_one_bits_mono(1))
  show "total_rights xs \<le> total_rights ys" unfolding x y by (rule sum_mono) (rule le)
  assume lost: "bit (pair_rights ys p) n" "\<not> bit (pair_rights xs p) n"
  have "count_one_bits (pair_rights xs p) \<noteq> count_one_bits (pair_rights ys p)"
    using count_one_bits_mono(2) [of "pair_rights xs p" "pair_rights ys p"] sub_items_bits [OF assms(3)] lost
    by metis
  then have "count_one_bits (pair_rights xs p) < count_one_bits (pair_rights ys p)"
    using le [of p] by linarith
  then show "total_rights xs < total_rights ys"
    unfolding x y by (intro sum_strict_mono_ex1) (use le in auto)
qed

section \<open>The contract of a deletion\<close>

text \<open>What the restarting loops rely on when they call \<^verbatim>\<open>aclupdate\<close> to delete rights.\<close>

locale deletion =
  fixes upd :: "Acl \<Rightarrow> AclItem \<Rightarrow> Acl fueled"
  assumes upd_effect: "acl_ok a \<Longrightarrow> acl_unique (ACL_DAT a) \<Longrightarrow> upd a item = Some (Inr b) \<Longrightarrow>
    acl_ok b \<and> acl_unique (ACL_DAT b) \<and> sub_items (ACL_DAT b) (ACL_DAT a) \<and>
    (\<forall>n. bit (pair_rights (ACL_DAT b) (ai_pair item)) n \<longrightarrow> \<not> bit (ai_privs item) n)"
begin

lemma revoke_loop_effect:
  "revoke_loop n upd a g rp beh = Some (Inr b) \<Longrightarrow> acl_ok a \<Longrightarrow> acl_unique (ACL_DAT a) \<Longrightarrow>
     acl_ok b \<and> acl_unique (ACL_DAT b) \<and> sub_items (ACL_DAT b) (ACL_DAT a) \<and>
     (\<forall>i \<in> set (ACL_DAT b). ai_grantor i = g \<longrightarrow> ACLITEM_GET_PRIVS i AND rp = 0)"
proof (induction n arbitrary: a)
  case (Suc n)
  show ?case
  proof (cases "find (\<lambda>item. ai_grantor item = g \<and> ACLITEM_GET_PRIVS item AND rp \<noteq> 0) (ACL_DAT a)")
    case None
    then have "b = a" using Suc.prems(1) by simp
    with None Suc.prems(2,3) show ?thesis unfolding find_None_iff by auto
  next
    case (Some item)
    with Suc.prems(1) obtain c where
      c: "upd a (AclItem (ai_grantee item) g (PRIVS_GOPTIONS rp rp)) = Some (Inr c)"
        "revoke_loop n upd c g rp beh = Some (Inr b)"
      by (auto simp: result_iff split: if_splits)
    note eff = upd_effect [OF Suc.prems(2,3) c(1)]
    then show ?thesis using Suc.IH [OF c(2)] sub_items_trans by blast
  qed
qed simp

lemma cc_loop_effect:
  "cc_loop n upd a m = Some (Inr b) \<Longrightarrow> acl_ok a \<Longrightarrow> acl_unique (ACL_DAT a) \<Longrightarrow>
     acl_ok b \<and> acl_unique (ACL_DAT b) \<and> sub_items (ACL_DAT b) (ACL_DAT a) \<and>
     (\<forall>i \<in> set (ACL_DAT b). ai_grantee i = ai_grantee m \<longrightarrow> ACLITEM_GET_GOPTIONS i = 0)"
proof (induction n arbitrary: a)
  case (Suc n)
  show ?case
  proof (cases "find (\<lambda>item. ai_grantee item = ai_grantee m \<and> ACLITEM_GET_GOPTIONS item \<noteq> ACL_NO_RIGHTS) (ACL_DAT a)")
    case None
    then have "b = a" using Suc.prems(1) by simp
    with None Suc.prems(2,3) show ?thesis unfolding find_None_iff by auto
  next
    case (Some item)
    with Suc.prems(1) obtain c where
      c: "upd a item = Some (Inr c)" "cc_loop n upd c m = Some (Inr b)" by (auto simp: result_iff)
    note eff = upd_effect [OF Suc.prems(2,3) c(1)]
    then show ?thesis using Suc.IH [OF c(2)] sub_items_trans by blast
  qed
qed simp

end

text \<open>A deletion that returns on every list with fewer rights than its budget.\<close>

locale deletion_total = deletion +
  fixes budget :: nat
  assumes upd_returns: "acl_ok a \<Longrightarrow> acl_unique (ACL_DAT a) \<Longrightarrow> total_rights (ACL_DAT a) < budget \<Longrightarrow>
    pair_rights (ACL_DAT a) (ai_pair item) AND ai_privs item \<noteq> 0 \<Longrightarrow> \<exists>r. upd a item = Some r"
begin

lemma upd_decreases:
  assumes "acl_ok a" and "acl_unique (ACL_DAT a)" and "upd a item = Some (Inr b)"
    and "pair_rights (ACL_DAT a) (ai_pair item) AND ai_privs item \<noteq> 0"
  shows "total_rights (ACL_DAT b) < total_rights (ACL_DAT a)"
proof -
  from assms(4) obtain k where "bit (pair_rights (ACL_DAT a) (ai_pair item)) k" "bit (ai_privs item) k"
    by (auto simp: word_neq_0_iff_bit bit_and_iff)
  with upd_effect [OF assms(1-3)] total_rights_mono(2) [OF _ assms(2)] show ?thesis by blast
qed

lemma revoke_loop_returns:
  "total_rights (ACL_DAT a) < n \<Longrightarrow> total_rights (ACL_DAT a) < budget \<Longrightarrow> acl_ok a \<Longrightarrow>
     acl_unique (ACL_DAT a) \<Longrightarrow> \<exists>r. revoke_loop n upd a g rp beh = Some r"
proof (induction n arbitrary: a)
  case (Suc n)
  show ?case
  proof (cases "find (\<lambda>item. ai_grantor item = g \<and> ACLITEM_GET_PRIVS item AND rp \<noteq> 0) (ACL_DAT a)")
    case (Some item)
    let ?m = "AclItem (ai_grantee item) g (PRIVS_GOPTIONS rp rp)"
    from Some have item: "item \<in> set (ACL_DAT a)" "ai_grantor item = g" "ACLITEM_GET_PRIVS item AND rp \<noteq> 0"
      by (auto simp: find_Some_iff)
    then have "pair_rights (ACL_DAT a) (ai_pair ?m) = ai_privs item"
      using pair_rights_item [OF Suc.prems(4) item(1)] by (simp add: ai_pair_def)
    with item(3) have hit: "pair_rights (ACL_DAT a) (ai_pair ?m) AND ai_privs ?m \<noteq> 0"
      by (auto simp: word_neq_0_iff_bit bit_and_iff bit_GET_PRIVS bit_PRIVS_GOPTIONS)
    have "\<exists>r. fbind (upd a ?m) (\<lambda>new_acl. revoke_loop n upd new_acl g rp beh) = Some r"
    proof (rule fbind_returns)
      fix c assume c: "upd a ?m = Some (Inr c)"
      from upd_decreases [OF Suc.prems(3,4) c hit] upd_effect [OF Suc.prems(3,4) c] Suc.prems(1,2)
      show "\<exists>r. revoke_loop n upd c g rp beh = Some r" by (intro Suc.IH) auto
    qed (rule upd_returns [OF Suc.prems(3,4,2) hit])
    then show ?thesis using Some by auto
  qed simp
qed simp

lemma cc_loop_returns:
  "total_rights (ACL_DAT a) < n \<Longrightarrow> total_rights (ACL_DAT a) < budget \<Longrightarrow> acl_ok a \<Longrightarrow>
     acl_unique (ACL_DAT a) \<Longrightarrow> \<exists>r. cc_loop n upd a m = Some r"
proof (induction n arbitrary: a)
  case (Suc n)
  show ?case
  proof (cases "find (\<lambda>item. ai_grantee item = ai_grantee m \<and> ACLITEM_GET_GOPTIONS item \<noteq> ACL_NO_RIGHTS) (ACL_DAT a)")
    case (Some item)
    from Some have item: "item \<in> set (ACL_DAT a)" "ACLITEM_GET_GOPTIONS item \<noteq> 0"
      by (auto simp: find_Some_iff)
    then have hit: "pair_rights (ACL_DAT a) (ai_pair item) AND ai_privs item \<noteq> 0"
      using pair_rights_item [OF Suc.prems(4) item(1)] by (auto simp: word_neq_0_iff_bit bit_GET_GOPTIONS)
    have "\<exists>r. fbind (upd a item) (\<lambda>new_acl. cc_loop n upd new_acl m) = Some r"
    proof (rule fbind_returns)
      fix c assume c: "upd a item = Some (Inr c)"
      from upd_decreases [OF Suc.prems(3,4) c hit] upd_effect [OF Suc.prems(3,4) c] Suc.prems(1,2)
      show "\<exists>r. cc_loop n upd c m = Some r" by (intro Suc.IH) auto
    qed (rule upd_returns [OF Suc.prems(3,4,2) hit])
    then show ?thesis using Some by simp
  qed simp
qed simp

end

lemma acl_ok_allocacl [simp]: "acl_ok (allocacl items)" "ACL_DAT (allocacl items) = items"
  by (simp_all add: acl_ok_def check_acl_def allocacl_def)

lemma modify_item_del:
  assumes "acl_unique items" and "modify_item items m ACL_MODECHG_DEL = (items', og, ng)"
  shows "sub_items items' items" and "bit (pair_rights items' (ai_pair m)) k \<Longrightarrow> \<not> bit (ai_privs m) k"
proof -
  from assms(1) show "sub_items items' items"
  proof (cases rule: modify_item_cases [where m = m and chg = ACL_MODECHG_DEL])
    case (present xs i ys)
    then show ?thesis using assms(2)
      by (auto simp: Let_def sub_items_def changed_rights_def bit_simps split: if_splits)
  next
    case absent
    then show ?thesis using assms(2) by (auto simp: Let_def changed_rights_def)
  qed
  show "bit (pair_rights items' (ai_pair m)) k \<Longrightarrow> \<not> bit (ai_privs m) k"
    by (simp add: modify_item_spec(2) [OF assms] changed_rights_def bit_simps)
qed

text \<open>One call of \<^verbatim>\<open>aclupdate\<close> for a deletion.\<close>

lemma aclupdate_del_Suc:
  assumes "acl_ok a" and "modify_item (ACL_DAT a) m ACL_MODECHG_DEL = (items, og, ng)"
  shows "aclupdate (Suc n) cat a m ACL_MODECHG_DEL ownerId beh =
    (if og AND NOT ng \<noteq> 0
     then recursive_revoke n (\<lambda>acl aip. aclupdate n cat acl aip ACL_MODECHG_DEL ownerId beh)
            cat (allocacl items) (ai_grantee m) (og AND NOT ng) ownerId beh
     else Some (Inr (allocacl items)))"
  using assms by (simp add: acl_ok_def)

context deletion
begin

lemma recursive_revoke_effect:
  assumes "recursive_revoke n upd cat a g rp ownerId beh = Some (Inr b)"
    and "acl_ok a" and "acl_unique (ACL_DAT a)"
  shows "acl_ok b \<and> acl_unique (ACL_DAT b) \<and> sub_items (ACL_DAT b) (ACL_DAT a)"
  using assms revoke_loop_effect [of n a g _ beh b]
  by (auto simp: recursive_revoke_def acl_ok_def result_iff Let_def split: if_splits)

end

lemma deletion_aclupdate: "deletion (\<lambda>acl aip. aclupdate n cat acl aip ACL_MODECHG_DEL ownerId beh)"
proof (induction n)
  case 0
  show ?case by unfold_locales simp
next
  case (Suc n)
  show ?case
  proof
    fix a m b
    assume a: "acl_ok a" "acl_unique (ACL_DAT a)"
      and run: "aclupdate (Suc n) cat a m ACL_MODECHG_DEL ownerId beh = Some (Inr b)"
    obtain items og ng where mod: "modify_item (ACL_DAT a) m ACL_MODECHG_DEL = (items, og, ng)"
      by (cases "modify_item (ACL_DAT a) m ACL_MODECHG_DEL")
    note eff = modify_item_spec(1) [OF a(2) mod] modify_item_del [OF a(2) mod]
    have "acl_ok b \<and> acl_unique (ACL_DAT b) \<and> sub_items (ACL_DAT b) items"
      using run deletion.recursive_revoke_effect [OF Suc, of n cat "allocacl items"] eff(1)
      unfolding aclupdate_del_Suc [OF a(1) mod] by (fastforce split: if_splits)
    with eff show "acl_ok b \<and> acl_unique (ACL_DAT b) \<and> sub_items (ACL_DAT b) (ACL_DAT a) \<and>
        (\<forall>n. bit (pair_rights (ACL_DAT b) (ai_pair m)) n \<longrightarrow> \<not> bit (ai_privs m) n)"
      using sub_items_trans sub_items_bits by blast
  qed
qed

interpretation del: deletion "\<lambda>acl aip. aclupdate n cat acl aip ACL_MODECHG_DEL ownerId beh"
  for n cat ownerId beh
  by (rule deletion_aclupdate)

context deletion_total
begin

lemma recursive_revoke_returns:
  assumes "total_rights (ACL_DAT a) < n" and "total_rights (ACL_DAT a) < budget"
    and "acl_ok a" and "acl_unique (ACL_DAT a)"
  shows "\<exists>r. recursive_revoke n upd cat a g rp ownerId beh = Some r"
  using assms revoke_loop_returns [OF assms]
  by (auto simp: recursive_revoke_def acl_ok_def Let_def intro!: fbind_returns)

end

lemma deletion_total_aclupdate:
  "deletion_total (\<lambda>acl aip. aclupdate n cat acl aip ACL_MODECHG_DEL ownerId beh) n"
proof (induction n)
  case 0
  show ?case by unfold_locales simp
next
  case (Suc n)
  show ?case
  proof
    fix a m
    assume a: "acl_ok a" "acl_unique (ACL_DAT a)" and less: "total_rights (ACL_DAT a) < Suc n"
      and hit: "pair_rights (ACL_DAT a) (ai_pair m) AND ai_privs m \<noteq> 0"
    obtain items og ng where mod: "modify_item (ACL_DAT a) m ACL_MODECHG_DEL = (items, og, ng)"
      by (cases "modify_item (ACL_DAT a) m ACL_MODECHG_DEL")
    note eff = modify_item_spec(1) [OF a(2) mod] modify_item_del [OF a(2) mod]
    from hit obtain k where "bit (pair_rights (ACL_DAT a) (ai_pair m)) k" "bit (ai_privs m) k"
      by (auto simp: word_neq_0_iff_bit bit_and_iff)
    with eff(3) have "total_rights items < total_rights (ACL_DAT a)"
      using total_rights_mono(2) [OF eff(1) a(2) eff(2)] by blast
    then have "total_rights items < n" using less by simp
    with deletion_total.recursive_revoke_returns [OF Suc, of "allocacl items" n] eff(1)
    show "\<exists>r. aclupdate (Suc n) cat a m ACL_MODECHG_DEL ownerId beh = Some r"
      unfolding aclupdate_del_Suc [OF a(1) mod] by simp
  qed
qed

interpretation del: deletion_total "\<lambda>acl aip. aclupdate n cat acl aip ACL_MODECHG_DEL ownerId beh" n
  for n cat ownerId beh
  by (rule deletion_total_aclupdate)

lemma check_circularity_returns:
  assumes "total_rights (ACL_DAT a) < n" and "acl_ok a" and "acl_unique (ACL_DAT a)"
  shows "\<exists>r. check_circularity n (\<lambda>acl aip. aclupdate n cat acl aip ACL_MODECHG_DEL ownerId beh)
    cat a m ownerId = Some r"
proof -
  have "\<exists>r. cc_loop n (\<lambda>acl aip. aclupdate n cat acl aip ACL_MODECHG_DEL ownerId beh)
      (allocacl (ACL_DAT a)) m = Some r"
    by (rule del.cc_loop_returns) (use assms in simp_all)
  then show ?thesis
    using assms(2) by (auto simp: check_circularity_def acl_ok_def intro!: fbind_returns)
qed

lemma count_changed_rights:
  "count_one_bits (changed_rights chg old r) \<le> count_one_bits old + count_one_bits r"
proof -
  have "{n. bit (changed_rights chg old r) n} \<subseteq> {n. bit old n} \<union> {n. bit r n}"
    by (cases chg) (auto simp: changed_rights_def bit_simps)
  from card_mono [OF _ this] card_Un_le [of "{n. bit old n}" "{n. bit r n}"] show ?thesis
    by (simp add: count_one_bits_card finite_word_bits)
qed

lemma aclupdate_returns:
  assumes "total_rights (ACL_DAT a) + count_one_bits (ai_privs m) < n" and "acl_ok a"
    and "acl_unique (ACL_DAT a)"
  shows "\<exists>r. aclupdate (Suc n) cat a m chg ownerId beh = Some r"
proof -
  obtain items og ng where mod: "modify_item (ACL_DAT a) m chg = (items, og, ng)"
    by (cases "modify_item (ACL_DAT a) m chg")
  note eff = modify_item_spec [OF assms(3) mod]
  let ?old = "pair_rights (ACL_DAT a) (ai_pair m)"
  have "count_one_bits (changed_rights chg ?old (ai_privs m)) \<le> count_one_bits ?old + count_one_bits (ai_privs m)"
    by (rule count_changed_rights)
  then have "total_rights items < n" using eff(5) assms(1) by linarith
  then have rec: "\<exists>r. recursive_revoke n (\<lambda>acl aip. aclupdate n cat acl aip ACL_MODECHG_DEL ownerId beh)
      cat (allocacl items) (ai_grantee m) (og AND NOT ng) ownerId beh = Some r"
    by (intro del.recursive_revoke_returns) (use eff(1) in simp_all)
  have circ: "\<exists>r. check_circularity n (\<lambda>acl aip. aclupdate n cat acl aip ACL_MODECHG_DEL ownerId DROP_CASCADE)
      cat a m ownerId = Some r"
    by (rule check_circularity_returns) (use assms in simp_all)
  show ?thesis
    using assms(2) rec circ by (auto simp: acl_ok_def mod Let_def intro!: fbind_returns)
qed

section \<open>Cascading\<close>

lemma ai_pair_iff: "ai_pair i = ai_pair j \<longleftrightarrow> ai_grantee i = ai_grantee j \<and> ai_grantor i = ai_grantor j"
  unfolding ai_pair_def by (rule prod.inject)

lemma plain_roles_sub: "plain_roles cat ownerId R ys \<Longrightarrow> sub_items xs ys \<Longrightarrow> plain_roles cat ownerId R xs"
proof -
  assume ys: "plain_roles cat ownerId R ys" and sub: "sub_items xs ys"
  have "ai_grantee i \<in> insert ACL_ID_PUBLIC R \<and> (ai_grantee i = ACL_ID_PUBLIC \<longrightarrow> ACLITEM_GET_GOPTIONS i = 0)"
    if "i \<in> set xs" for i
  proof -
    from sub that obtain j where j: "j \<in> set ys" "ai_pair j = ai_pair i"
      "\<forall>n. bit (ai_privs i) n \<longrightarrow> bit (ai_privs j) n" unfolding sub_items_def by blast
    then show ?thesis using ys unfolding plain_roles_def ai_pair_iff
      by (auto simp: word_eq_0_iff_bit bit_GET_GOPTIONS)
  qed
  with ys show ?thesis unfolding plain_roles_def by blast
qed

text \<open>The grant options that \<^verbatim>\<open>recursive_revoke\<close> finds its role still has.\<close>

lemma plain_still_has:
  assumes "database_dba cat = Inr dba" and "acl_ok a" and "plain_roles cat ownerId R (ACL_DAT a)"
    and "g \<in> R" and "g \<noteq> ownerId"
  obtains s where "aclmask cat (Some a) g ownerId (ACL_GRANT_OPTION_FOR rp) ACLMASK_ALL = Inr s"
    "\<And>p. bit (ACL_OPTION_TO_PRIVS s) p \<Longrightarrow>
       p < 32 \<and> (\<exists>j \<in> set (ACL_DAT a). ai_grantee j = g \<and> bit (ai_privs j) (32 + p))"
proof -
  have held: "held_rights cat g ownerId (ACL_DAT a) = or_rights (\<lambda>h. h = ACL_ID_PUBLIC \<or> privs_of cat g h) (ACL_DAT a)"
    using assms(3-5) by (auto simp: held_rights_def plain_roles_def)
  have "\<exists>j \<in> set (ACL_DAT a). ai_grantee j = g \<and> bit (ai_privs j) (32 + p)"
    if "bit (held_rights cat g ownerId (ACL_DAT a)) (32 + p)" "p < 32" for p
  proof -
    from that obtain j where j: "j \<in> set (ACL_DAT a)" "ai_grantee j = ACL_ID_PUBLIC \<or> privs_of cat g (ai_grantee j)"
      "bit (ai_privs j) (32 + p)" unfolding held bit_or_rights by blast
    from j(3) that(2) have "ACLITEM_GET_GOPTIONS j \<noteq> 0" by (auto simp: word_neq_0_iff_bit bit_GET_GOPTIONS)
    moreover have "ai_grantee j \<in> insert ACL_ID_PUBLIC R"
        "ai_grantee j = ACL_ID_PUBLIC \<longrightarrow> ACLITEM_GET_GOPTIONS j = 0"
      using assms(3) j(1) by (simp_all add: plain_roles_def)
    moreover have "\<forall>h \<in> R. privs_of cat g h \<longrightarrow> g = h" using assms(3,4) by (simp add: plain_roles_def)
    ultimately have "ai_grantee j = g" using j(2) by fastforce
    with j show ?thesis by blast
  qed
  moreover obtain s where
    "aclmask cat (Some a) g ownerId (ACL_GRANT_OPTION_FOR rp) ACLMASK_ALL = Inr s"
    "s = (ACL_GRANT_OPTION_FOR rp AND held_rights cat g ownerId (ACL_DAT a))"
    using aclmask_answer [OF assms(1,2)] by (fastforce simp: mask_answer_def)
  ultimately show ?thesis
    by (intro that [of s]) (auto simp: bit_OPTION_TO_PRIVS bit_simps)
qed

lemma grounded_exceptI:
  assumes "\<And>i p. i \<in> set items \<Longrightarrow> ai_grantor i \<noteq> ownerId \<Longrightarrow> p < 32 \<Longrightarrow> bit (ai_privs i) p \<Longrightarrow>
    (ai_grantor i, p) \<notin> S \<Longrightarrow> \<exists>j \<in> set items. ai_grantee j = ai_grantor i \<and> bit (ai_privs j) (32 + p)"
  shows "grounded_except S ownerId items"
  using assms unfolding grounded_except_def by blast

locale cascade = deletion +
  fixes cat :: role_catalog and ownerId :: Oid and R :: "Oid set"
  assumes upd_grounded: "database_dba cat = Inr dba \<Longrightarrow> acl_ok a \<Longrightarrow> acl_unique (ACL_DAT a) \<Longrightarrow>
    plain_roles cat ownerId R (ACL_DAT a) \<Longrightarrow> grounded_except S ownerId (ACL_DAT a) \<Longrightarrow>
    upd a item = Some (Inr b) \<Longrightarrow> grounded_except S ownerId (ACL_DAT b)"
begin

lemma revoke_loop_grounded:
  "database_dba cat = Inr dba \<Longrightarrow> acl_ok a \<Longrightarrow> acl_unique (ACL_DAT a) \<Longrightarrow>
    plain_roles cat ownerId R (ACL_DAT a) \<Longrightarrow> grounded_except S ownerId (ACL_DAT a) \<Longrightarrow>
    revoke_loop n upd a g rp beh = Some (Inr b) \<Longrightarrow> grounded_except S ownerId (ACL_DAT b)"
proof (induction n arbitrary: a)
  case (Suc n)
  show ?case
  proof (cases "find (\<lambda>item. ai_grantor item = g \<and> ACLITEM_GET_PRIVS item AND rp \<noteq> 0) (ACL_DAT a)")
    case None
    then show ?thesis using Suc.prems by simp
  next
    case (Some item)
    with Suc.prems(6) obtain c where
      c: "upd a (AclItem (ai_grantee item) g (PRIVS_GOPTIONS rp rp)) = Some (Inr c)"
        "revoke_loop n upd c g rp beh = Some (Inr b)"
      by (auto simp: result_iff split: if_splits)
    note eff = upd_effect [OF Suc.prems(2,3) c(1)] upd_grounded [OF Suc.prems(1-5) c(1)]
    show ?thesis using Suc.IH [OF Suc.prems(1) _ _ _ eff(2) c(2)] eff(1) plain_roles_sub [OF Suc.prems(4)]
      by blast
  qed
qed simp

lemma recursive_revoke_grounded:
  assumes "database_dba cat = Inr dba" and ok: "acl_ok a" "acl_unique (ACL_DAT a)"
    and plain: "plain_roles cat ownerId R (ACL_DAT a)" and g: "g \<in> R"
    and gr: "grounded_except (S \<union> {g} \<times> {p. bit rp p}) ownerId (ACL_DAT a)"
    and run: "recursive_revoke n upd cat a g rp ownerId beh = Some (Inr b)"
  shows "grounded_except S ownerId (ACL_DAT b)"
proof (cases "g = ownerId")
  case True
  with run ok have "b = a" by (simp add: recursive_revoke_def acl_ok_def)
  with gr True show ?thesis unfolding grounded_except_def by blast
next
  case False
  obtain s where s: "aclmask cat (Some a) g ownerId (ACL_GRANT_OPTION_FOR rp) ACLMASK_ALL = Inr s"
    and still: "\<And>p. bit (ACL_OPTION_TO_PRIVS s) p \<Longrightarrow>
       p < 32 \<and> (\<exists>j \<in> set (ACL_DAT a). ai_grantee j = g \<and> bit (ai_privs j) (32 + p))"
    using plain_still_has [OF assms(1) ok(1) plain g False] by blast
  let ?rp = "rp AND NOT (ACL_OPTION_TO_PRIVS s)"
  have gr1: "grounded_except (S \<union> {g} \<times> {p. bit ?rp p}) ownerId (ACL_DAT a)"
  proof (rule grounded_exceptI)
    fix i p
    assume "i \<in> set (ACL_DAT a)" "ai_grantor i \<noteq> ownerId" "p < 32" "bit (ai_privs i) p"
      and out: "(ai_grantor i, p) \<notin> S \<union> {g} \<times> {p. bit ?rp p}"
    with gr consider "(ai_grantor i, p) \<in> S \<union> {g} \<times> {p. bit rp p}"
      | "\<exists>j \<in> set (ACL_DAT a). ai_grantee j = ai_grantor i \<and> bit (ai_privs j) (32 + p)"
      unfolding grounded_except_def by blast
    then show "\<exists>j \<in> set (ACL_DAT a). ai_grantee j = ai_grantor i \<and> bit (ai_privs j) (32 + p)"
    proof cases
      case 1
      with out have "ai_grantor i = g" "bit (ACL_OPTION_TO_PRIVS s) p"
        by (auto simp: bit_and_iff bit_not_iff dest: bit_imp_le_length)
      then show ?thesis using still by simp
    qed
  qed
  show ?thesis
  proof (cases "?rp = 0")
    case True
    with run s False ok have "b = a" by (simp add: recursive_revoke_def acl_ok_def)
    with gr1 True show ?thesis by simp
  next
    case nz: False
    with run s False ok have loop: "revoke_loop n upd a g ?rp beh = Some (Inr b)"
      by (simp add: recursive_revoke_def acl_ok_def)
    have "grounded_except (S \<union> {g} \<times> {p. bit ?rp p}) ownerId (ACL_DAT b)"
      by (rule revoke_loop_grounded [OF assms(1) ok plain gr1 loop])
    moreover have "\<not> bit ?rp p" if "i \<in> set (ACL_DAT b)" "ai_grantor i = g" "bit (ai_privs i) p" "p < 32" for i p
      using revoke_loop_effect [OF loop ok] that
      by (auto simp: word_eq_0_iff_bit bit_and_iff bit_GET_PRIVS)
    ultimately show ?thesis unfolding grounded_except_def by blast
  qed
qed

end

text \<open>Deleting rights of one item leaves at most the lost grant options ungrounded.\<close>

lemma modify_item_grounded:
  assumes uniq: "acl_unique items" and mod: "modify_item items m ACL_MODECHG_DEL = (items', og, ng)"
    and gr: "grounded_except S ownerId items"
  shows "grounded_except (S \<union> {ai_grantee m} \<times> {p. bit (og AND NOT ng) p}) ownerId items'"
proof (rule grounded_exceptI)
  fix i p
  assume i: "i \<in> set items'" "ai_grantor i \<noteq> ownerId" "p < 32" "bit (ai_privs i) p"
    and out: "(ai_grantor i, p) \<notin> S \<union> {ai_grantee m} \<times> {p. bit (og AND NOT ng) p}"
  note spec = modify_item_spec [OF uniq mod]
  from modify_item_del(1) [OF uniq mod] i(1) obtain i0 where i0: "i0 \<in> set items" "ai_pair i0 = ai_pair i"
      "bit (ai_privs i0) p" using i(4) unfolding sub_items_def by blast
  then have "ai_grantor i0 = ai_grantor i" by (simp add: ai_pair_iff)
  moreover have "(ai_grantor i, p) \<notin> S" using out by simp
  ultimately obtain j where j: "j \<in> set items" "ai_grantee j = ai_grantor i" "bit (ai_privs j) (32 + p)"
    using gr i0(1,3) i(2,3) unfolding grounded_except_def by metis
  have "bit (pair_rights items' (ai_pair j)) (32 + p)"
  proof (cases "ai_pair j = ai_pair m")
    case True
    then have "ai_grantee m = ai_grantor i" using j(2) by (simp add: ai_pair_iff)
    moreover have "bit og p"
      using j(1,3) True i(3) pair_rights_item [OF uniq j(1)] spec(3) by (simp add: True)
    ultimately have "bit ng p" using out i(3) by (auto simp: bit_simps)
    then show ?thesis unfolding spec(2) using True spec(4) by simp
  next
    case False
    then show ?thesis unfolding spec(2) using pair_rights_item [OF uniq j(1)] j(3) by simp
  qed
  then show "\<exists>j \<in> set items'. ai_grantee j = ai_grantor i \<and> bit (ai_privs j) (32 + p)"
    using j(2) unfolding bit_pair_rights by (auto simp: ai_pair_iff)
qed

lemma cascade_aclupdate:
  "cascade (\<lambda>acl aip. aclupdate n cat acl aip ACL_MODECHG_DEL ownerId beh) cat ownerId R"
proof (induction n)
  case 0
  show ?case by unfold_locales simp
next
  case (Suc n)
  show ?case
  proof
    fix dba a S m b
    assume dba: "database_dba cat = Inr dba" and a: "acl_ok a" "acl_unique (ACL_DAT a)"
      and plain: "plain_roles cat ownerId R (ACL_DAT a)" and gr: "grounded_except S ownerId (ACL_DAT a)"
      and run: "aclupdate (Suc n) cat a m ACL_MODECHG_DEL ownerId beh = Some (Inr b)"
    obtain items og ng where mod: "modify_item (ACL_DAT a) m ACL_MODECHG_DEL = (items, og, ng)"
      by (cases "modify_item (ACL_DAT a) m ACL_MODECHG_DEL")
    note spec = modify_item_spec [OF a(2) mod] and gr' = modify_item_grounded [OF a(2) mod gr]
    show "grounded_except S ownerId (ACL_DAT b)"
    proof (cases "og AND NOT ng = 0")
      case True
      then have "b = allocacl items" using run unfolding aclupdate_del_Suc [OF a(1) mod] by simp
      then show ?thesis using gr' True by simp
    next
      case False
      then obtain p where "bit og p" by (auto simp: word_neq_0_iff_bit bit_and_iff)
      then obtain i where i: "i \<in> set (ACL_DAT a)" "ai_pair i = ai_pair m" "bit (ai_privs i) (32 + p)" "p < 32"
        unfolding spec(3) bit_pair_rights by blast
      then have "ACLITEM_GET_GOPTIONS i \<noteq> 0" by (auto simp: word_neq_0_iff_bit bit_GET_GOPTIONS)
      with i plain have "ai_grantee m \<in> R" unfolding plain_roles_def by (auto simp: ai_pair_iff)
      note g = this
      have plain': "plain_roles cat ownerId R (ACL_DAT (allocacl items))"
        unfolding acl_ok_allocacl(2) by (rule plain_roles_sub [OF plain modify_item_del(1) [OF a(2) mod]])
      have run': "recursive_revoke n (\<lambda>acl aip. aclupdate n cat acl aip ACL_MODECHG_DEL ownerId beh)
            cat (allocacl items) (ai_grantee m) (og AND NOT ng) ownerId beh = Some (Inr b)"
        using run False unfolding aclupdate_del_Suc [OF a(1) mod] by simp
      have new: "acl_unique (ACL_DAT (allocacl items))"
          "grounded_except (S \<union> {ai_grantee m} \<times> {p. bit (og AND NOT ng) p}) ownerId (ACL_DAT (allocacl items))"
        unfolding acl_ok_allocacl(2) by (rule spec(1), rule gr')
      show ?thesis
        by (rule cascade.recursive_revoke_grounded
              [OF Suc dba acl_ok_allocacl(1) new(1) plain' g new(2) run'])
    qed
  qed
qed

interpretation del: cascade "\<lambda>acl aip. aclupdate n cat acl aip ACL_MODECHG_DEL ownerId beh" cat ownerId R
  for n cat ownerId beh R
  by (rule cascade_aclupdate)

section \<open>Additions, restricted deletions and merging\<close>

lemma aclupdate_add_effect:
  assumes "aclupdate n cat a m ACL_MODECHG_ADD ownerId beh = Some (Inr b)" and "acl_unique (ACL_DAT a)"
  shows "b = allocacl (fst (modify_item (ACL_DAT a) m ACL_MODECHG_ADD)) \<and> acl_ok b \<and> acl_unique (ACL_DAT b) \<and>
    pair_rights (ACL_DAT b) =
      (pair_rights (ACL_DAT a))(ai_pair m := pair_rights (ACL_DAT a) (ai_pair m) OR ai_privs m)"
proof (cases n)
  case 0
  with assms(1) show ?thesis by simp
next
  case (Suc k)
  obtain items og ng where mod: "modify_item (ACL_DAT a) m ACL_MODECHG_ADD = (items, og, ng)"
    by (cases "modify_item (ACL_DAT a) m ACL_MODECHG_ADD")
  note spec = modify_item_spec [OF assms(2) mod]
  have "og AND NOT ng = 0"
    unfolding word_eq_0_iff_bit bit_and_iff bit_not_iff spec(3,4) by (auto simp: changed_rights_def bit_or_iff)
  then have "b = allocacl items"
    using assms(1) by (auto simp: Suc mod result_iff Let_def split: if_splits)
  with spec(1,2) show ?thesis by (simp add: mod changed_rights_def)
qed

lemma revoke_loop_restrict:
  "revoke_loop (Suc n) upd a g rp DROP_RESTRICT =
     (if \<exists>i \<in> set (ACL_DAT a). ai_grantor i = g \<and> ACLITEM_GET_PRIVS i AND rp \<noteq> 0
      then Some (ereport_error ''ERRCODE_DEPENDENT_OBJECTS_STILL_EXIST'' ''dependent privileges exist'')
      else Some (Inr a))"
proof (cases "find (\<lambda>item. ai_grantor item = g \<and> ACLITEM_GET_PRIVS item AND rp \<noteq> 0) (ACL_DAT a)")
  case None
  then have "revoke_loop (Suc n) upd a g rp DROP_RESTRICT = Some (Inr a)" by simp
  with None show ?thesis unfolding find_None_iff by auto
next
  case (Some i)
  then have "revoke_loop (Suc n) upd a g rp DROP_RESTRICT =
      Some (ereport_error ''ERRCODE_DEPENDENT_OBJECTS_STILL_EXIST'' ''dependent privileges exist'')" by simp
  moreover have "\<exists>i \<in> set (ACL_DAT a). ai_grantor i = g \<and> ACLITEM_GET_PRIVS i AND rp \<noteq> 0"
    using Some nth_mem unfolding find_Some_iff by blast
  ultimately show ?thesis by (simp only: if_True)
qed

lemma merge_items_effect:
  "merge_items n cat ownerId items a = Some (Inr b) \<Longrightarrow> acl_unique (ACL_DAT a) \<Longrightarrow> acl_ok a \<Longrightarrow>
     acl_ok b \<and> acl_unique (ACL_DAT b) \<and>
     pair_rights (ACL_DAT b) = (\<lambda>p. pair_rights (ACL_DAT a) p OR pair_rights items p)"
proof (induction items arbitrary: a)
  case (Cons i items)
  from Cons.prems(1) obtain c where
    c: "aclupdate n cat a i ACL_MODECHG_ADD ownerId DROP_RESTRICT = Some (Inr c)"
      "merge_items n cat ownerId items c = Some (Inr b)" by (auto simp: result_iff)
  note eff = aclupdate_add_effect [OF c(1) Cons.prems(2)]
  then have "acl_ok b \<and> acl_unique (ACL_DAT b) \<and>
      pair_rights (ACL_DAT b) = (\<lambda>p. pair_rights (ACL_DAT c) p OR pair_rights items p)"
    using Cons.IH [OF c(2)] by blast
  then show ?case using eff by (auto simp: fun_eq_iff or.assoc)
qed simp

section \<open>Changing the owner\<close>

lemma absorb_duplicates_spec:
  assumes "absorb_duplicates t rest = (t', rest')"
  shows "ai_pair t' = ai_pair t"
    and "ai_privs t' = ai_privs t OR pair_rights rest (ai_pair t)"
    and "map ai_pair rest' = map ai_pair rest"
    and "pair_rights rest' = (pair_rights rest)(ai_pair t := 0)"
proof -
  have "ai_pair t' = ai_pair t \<and> ai_privs t' = (ai_privs t OR pair_rights rest (ai_pair t)) \<and>
      map ai_pair rest' = map ai_pair rest \<and> pair_rights rest' = (pair_rights rest)(ai_pair t := 0)"
    using assms
  proof (induction rest arbitrary: t t' rest')
    case (Cons s rest)
    obtain t1 r1 where 1: "absorb_duplicates t rest = (t1, r1)" by fastforce
    let ?t = "ACLITEM_SET_RIGHTS t (ai_privs t OR ai_privs s)"
    obtain t2 r2 where 2: "absorb_duplicates ?t rest = (t2, r2)" by fastforce
    note IH = Cons.IH [OF 1] Cons.IH [OF 2]
    show ?case
    proof (cases "ai_privs s = 0 \<or> ai_pair s \<noteq> ai_pair t")
      case True
      then have res: "t' = t1" "rest' = s # r1" using Cons.prems 1 by (auto simp: match_iff_pair split: if_splits)
      from IH(1) True show ?thesis unfolding res by (intro conjI ext) auto
    next
      case False
      then have res: "t' = t2" "rest' = ACLITEM_SET_RIGHTS s 0 # r2"
        using Cons.prems 2 by (auto simp: match_iff_pair split: if_splits)
      from IH(2) False show ?thesis unfolding res by (intro conjI ext) (auto simp: or.assoc)
    qed
  qed (simp add: fun_eq_iff)
  then show "ai_pair t' = ai_pair t" "ai_privs t' = (ai_privs t OR pair_rights rest (ai_pair t))"
    "map ai_pair rest' = map ai_pair rest" "pair_rights rest' = (pair_rights rest)(ai_pair t := 0)" by blast+
qed

lemma emit_merged_spec:
  "acl_unique (emit_merged items) \<and> pair_rights (emit_merged items) = pair_rights items \<and>
     (\<forall>i \<in> set (emit_merged items). ai_privs i \<noteq> 0)"
proof (induction items rule: emit_merged.induct)
  case (2 t rest)
  show ?case
  proof (cases "ai_privs t = 0")
    case True
    then show ?thesis using 2(1) by (simp add: fun_eq_iff)
  next
    case False
    obtain t' rest' where ab: "absorb_duplicates t rest = (t', rest')" by fastforce
    note spec = absorb_duplicates_spec [OF ab]
    have IH: "acl_unique (emit_merged rest')" "pair_rights (emit_merged rest') = (pair_rights rest)(ai_pair t := 0)"
        "\<forall>i \<in> set (emit_merged rest'). ai_privs i \<noteq> 0"
      using 2(2) False by (simp_all add: ab spec(4) [symmetric] del: fun_upd_apply)
    have "ai_pair i \<noteq> ai_pair t'" if "i \<in> set (emit_merged rest')" for i
      using pair_rights_item [OF IH(1) that] IH(2,3) that spec(1) by auto
    then have "acl_unique (t' # emit_merged rest')" using IH(1) unique_simps [of "[]"] by simp
    moreover have "ai_privs t' \<noteq> 0" using False spec(2) by (auto simp: word_eq_0_iff_bit bit_or_iff)
    ultimately show ?thesis using False spec(1,2) IH by (simp add: ab fun_eq_iff)
  qed
qed (simp add: acl_unique_def)

lemma bit_subst_owner:
  "bit (pair_rights (map (subst_owner old new) items) p) n \<longleftrightarrow>
     (\<exists>i \<in> set items. ai_pair (subst_owner old new i) = p \<and> bit (ai_privs i) n)"
  by (auto simp: bit_pair_rights subst_owner_def)

lemma subst_owner_unique:
  assumes "acl_unique items" and "\<not> list_ex (mentions_new_owner old new) items"
  shows "acl_unique (map (subst_owner old new) items)"
proof -
  have "i = j" if "i \<in> set items" "j \<in> set items" "ai_pair (subst_owner old new i) = ai_pair (subst_owner old new j)" for i j
  proof -
    have "ai_pair i = ai_pair j"
      using that assms(2) unfolding list_ex_iff mentions_new_owner_def subst_owner_def ai_pair_iff
      by (auto split: if_splits)
    then show ?thesis using assms(1) that(1,2) by (auto simp: acl_unique_def distinct_map inj_on_def)
  qed
  moreover have "distinct items" using assms(1) by (simp add: acl_unique_def distinct_map)
  ultimately show ?thesis by (simp add: acl_unique_def distinct_map inj_on_def comp_def)
qed

section \<open>Properties\<close>

text \<open>
  On a list without two items of the same grantee and grantor, \<^verbatim>\<open>aclupdate\<close> always returns: as many
  nested calls and loop restarts as there are rights in the list and in the change are enough.
\<close>

theorem aclupdate_terminates:
  assumes "acl_ok a" and "acl_unique (ACL_DAT a)"
  shows "\<exists>r. aclupdate (total_rights (ACL_DAT a) + count_one_bits (ai_privs m) + 2) cat a m chg ownerId beh = Some r"
  using aclupdate_returns [of a m "total_rights (ACL_DAT a) + count_one_bits (ai_privs m) + 1"] assms by simp

text \<open>
  C25. A deletion takes away every requested right of the addressed grantee and grantor, and nobody
  gains a right by it or by the cascade it starts; the list stays well-formed, with one item per grantee
  and grantor.
\<close>

theorem aclupdate_del_effect:
  assumes "acl_ok a" and "acl_unique (ACL_DAT a)"
    and "aclupdate n cat a m ACL_MODECHG_DEL ownerId beh = Some (Inr b)"
  shows "acl_ok b \<and> acl_unique (ACL_DAT b) \<and>
    pair_rights (ACL_DAT b) (ai_pair m) AND ai_privs m = 0 \<and>
    pair_rights (ACL_DAT b) p AND NOT (pair_rights (ACL_DAT a) p) = 0"
  using del.upd_effect [OF assms] sub_items_bits [of "ACL_DAT b" "ACL_DAT a" p]
  by (auto simp: word_eq_0_iff_bit bit_simps)


text \<open>
  An addition that is not refused gives the addressed grantee exactly the requested rights on top of
  those it has from this grantor, and changes nothing else.
\<close>

theorem aclupdate_add:
  assumes "acl_unique (ACL_DAT a)" and "aclupdate n cat a m ACL_MODECHG_ADD ownerId beh = Some (Inr b)"
  shows "acl_unique (ACL_DAT b) \<and> pair_rights (ACL_DAT b) =
      (pair_rights (ACL_DAT a))(ai_pair m := pair_rights (ACL_DAT a) (ai_pair m) OR ai_privs m)"
  using aclupdate_add_effect [OF assms(2,1)] by blast

text \<open>
  C4. Revocation leaves no dangling grants: if every right that was not granted by the owner was granted
  by a role holding the grant option, then this is still so after any deletion that succeeds. The roles
  named by the list must not inherit from each other or from the owner, and the public must not hold
  grant options.
\<close>

theorem aclupdate_del_grounded:
  assumes "database_dba cat = Inr dba" and "acl_ok a" and "acl_unique (ACL_DAT a)"
    and "plain_roles cat ownerId R (ACL_DAT a)" and "grounded ownerId (ACL_DAT a)"
    and "aclupdate n cat a m ACL_MODECHG_DEL ownerId beh = Some (Inr b)"
  shows "grounded ownerId (ACL_DAT b)"
  by (rule del.upd_grounded [OF assms])

text \<open>
  \<^verbatim>\<open>aclmerge\<close> of two lists gives every grantee from every grantor the union of its rights in the two.
\<close>

theorem aclmerge_union:
  assumes "acl_unique (ACL_DAT l)" and "acl_ok l" and "ACL_NUM l > 0" and "ACL_NUM r > 0"
    and "aclmerge n cat (Some l) (Some r) ownerId = Some (Inr res)"
  shows "\<exists>c. res = Some c \<and> acl_unique (ACL_DAT c) \<and>
    pair_rights (ACL_DAT c) = (\<lambda>p. pair_rights (ACL_DAT l) p OR pair_rights (ACL_DAT r) p)"
proof -
  have copy: "ACL_DAT (aclcopy l) = ACL_DAT l" "acl_ok (aclcopy l)" using assms(2) by (simp_all add: aclcopy_def)
  from assms(3-5) obtain c where "res = Some c" "merge_items n cat ownerId (ACL_DAT r) (aclcopy l) = Some (Inr c)"
    by (auto simp: aclmerge_def acl_is_empty_def result_iff)
  with merge_items_effect [OF this(2)] copy assms(1) show ?thesis by simp
qed

text \<open>
  \<^verbatim>\<open>aclnewowner\<close> replaces the old owner by the new one everywhere: each grantee and grantor of the
  result has exactly the rights of all the pairs that became this pair, in a single item, and the old
  owner is no longer mentioned.
\<close>

theorem aclnewowner_spec:
  assumes "acl_unique (ACL_DAT a)" and "aclnewowner a old new = Inr b" and "old \<noteq> new"
  shows "acl_unique (ACL_DAT b) \<and>
    (\<forall>p n. bit (pair_rights (ACL_DAT b) p) n \<longleftrightarrow>
       (\<exists>i \<in> set (ACL_DAT a). ai_pair (subst_owner old new i) = p \<and> bit (ai_privs i) n)) \<and>
    (\<forall>r. pair_rights (ACL_DAT b) (old, r) = 0 \<and> pair_rights (ACL_DAT b) (r, old) = 0)"
proof -
  let ?items = "map (subst_owner old new) (ACL_DAT a)"
  have "ACL_DAT b = (if list_ex (mentions_new_owner old new) (ACL_DAT a) then emit_merged ?items else ?items)"
    using assms(2) by (auto simp: aclnewowner_def result_iff split: if_splits)
  then have b: "acl_unique (ACL_DAT b) \<and> pair_rights (ACL_DAT b) = pair_rights ?items"
    using emit_merged_spec [of ?items] subst_owner_unique [OF assms(1)] by (simp split: if_splits)
  moreover have "pair_rights ?items (old, r) = 0 \<and> pair_rights ?items (r, old) = 0" for r
    using assms(3) by (auto simp: word_eq_0_iff_bit bit_subst_owner subst_owner_def)
  ultimately show ?thesis by (simp add: bit_subst_owner)
qed


lemma chain_ok: "acl_ok chain_acl" "acl_unique (ACL_DAT chain_acl)" "database_dba grant_roles = Inr 10"
  by code_simp+

theorem aclupdate_terminates_witness:
  "acl_ok chain_acl \<and> acl_unique (ACL_DAT chain_acl) \<and>
   (\<exists>r. aclupdate (total_rights (ACL_DAT chain_acl) + count_one_bits (ai_privs (select_with_option 201 10)) + 2)
      grant_roles chain_acl (select_with_option 201 10) ACL_MODECHG_DEL 10 DROP_CASCADE = Some r)"
  using chain_ok aclupdate_terminates [OF chain_ok(1,2)] by blast

theorem aclupdate_del_effect_witness:
  "\<exists>b. aclupdate 8 grant_roles chain_acl (select_with_option 201 10) ACL_MODECHG_DEL 10 DROP_CASCADE = Some (Inr b) \<and>
     acl_ok b \<and> pair_rights (ACL_DAT b) (201, 10) AND ai_privs (select_with_option 201 10) = 0 \<and>
     pair_rights (ACL_DAT b) (202, 201) AND NOT (pair_rights (ACL_DAT chain_acl) (202, 201)) = 0"
proof -
  have run: "aclupdate 8 grant_roles chain_acl (select_with_option 201 10) ACL_MODECHG_DEL 10 DROP_CASCADE =
      Some (Inr (allocacl []))" by code_simp
  show ?thesis
    using run aclupdate_del_effect [OF chain_ok(1,2) run, where p = "(202, 201)"]
    by (auto simp: select_with_option_def)
qed


theorem aclupdate_add_witness:
  "\<exists>b. aclupdate 8 grant_roles chain_acl (select_with_option 202 10) ACL_MODECHG_ADD 10 DROP_CASCADE = Some (Inr b) \<and>
     pair_rights (ACL_DAT b) = (pair_rights (ACL_DAT chain_acl))
       (ai_pair (select_with_option 202 10) :=
          pair_rights (ACL_DAT chain_acl) (ai_pair (select_with_option 202 10)) OR ai_privs (select_with_option 202 10))"
proof -
  have run: "aclupdate 8 grant_roles chain_acl (select_with_option 202 10) ACL_MODECHG_ADD 10 DROP_CASCADE =
      Some (Inr (allocacl [select_with_option 201 10, AclItem 202 201 ACL_SELECT, select_with_option 202 10]))"
    by code_simp
  show ?thesis using run aclupdate_add [OF chain_ok(2) run] by blast
qed

theorem aclupdate_del_grounded_witness:
  "\<exists>b. aclupdate 8 grant_roles chain_acl (select_with_option 201 10) ACL_MODECHG_DEL 10 DROP_CASCADE = Some (Inr b) \<and>
     grounded 10 (ACL_DAT chain_acl) \<and> grounded 10 (ACL_DAT b)"
proof -
  have run: "aclupdate 8 grant_roles chain_acl (select_with_option 201 10) ACL_MODECHG_DEL 10 DROP_CASCADE =
      Some (Inr (allocacl []))" by code_simp
  have plain: "plain_roles grant_roles 10 {201, 202} (ACL_DAT chain_acl)" by code_simp
  have gr: "grounded 10 (ACL_DAT chain_acl)"
    by (simp add: grounded_except_def chain_acl_def select_with_option_def bit_PRIVS_GOPTIONS)
  show ?thesis using run gr aclupdate_del_grounded [OF chain_ok(3,1,2) plain gr run] by blast
qed

theorem aclmerge_union_witness:
  "\<exists>c. aclmerge 3 grant_roles (Some chain_acl) (Some (allocacl [select_with_option 202 10])) 10 = Some (Inr (Some c)) \<and>
     pair_rights (ACL_DAT c) =
       (\<lambda>p. pair_rights (ACL_DAT chain_acl) p OR pair_rights (ACL_DAT (allocacl [select_with_option 202 10])) p)"
proof -
  have run: "aclmerge 3 grant_roles (Some chain_acl) (Some (allocacl [select_with_option 202 10])) 10 =
      Some (Inr (Some (allocacl [select_with_option 201 10, AclItem 202 201 ACL_SELECT, select_with_option 202 10])))"
    by code_simp
  have num: "ACL_NUM chain_acl > 0" "ACL_NUM (allocacl [select_with_option 202 10]) > 0" by code_simp+
  show ?thesis using run aclmerge_union [OF chain_ok(2,1) num run] by blast
qed

theorem aclnewowner_spec_witness:
  "\<exists>b. aclnewowner chain_acl 10 201 = Inr b \<and> acl_unique (ACL_DAT b) \<and> pair_rights (ACL_DAT b) (10, 201) = 0"
proof -
  have run: "aclnewowner chain_acl 10 201 =
      Inr (allocacl [select_with_option 201 201, AclItem 202 201 ACL_SELECT])" by code_simp
  show ?thesis
    using run aclnewowner_spec [OF chain_ok(2) run] by simp
qed

end
