(* ===== verification/Grants.thy ===== *)
theory Grants
  imports RelPerms AclUpdate
begin

unbundle bit_operations_syntax

text \<open>
  \<^verbatim>\<open>GRANT\<close> and \<^verbatim>\<open>REVOKE\<close> on objects: \<^verbatim>\<open>ExecuteGrantStmt\<close> and the routines it calls in
  \<^verbatim>\<open>src/postgres/src/backend/catalog/aclchk.c\<close>, over \<^verbatim>\<open>aclupdate\<close> (theory \<open>AclUpdate\<close>), \<^verbatim>\<open>select_best_grantor\<close> (theory \<open>Acl\<close>)
  and the privilege lookups (theory \<open>ObjectAcl\<close>).

  A statement maps the catalogs to new catalogs and a list of events: warnings, and updates of the
  dependencies of objects on roles. While one object is processed its updates are not visible to lookups,
  so the routines read the catalogs as of the last \<^verbatim>\<open>CommandCounterIncrement\<close> and return changed ones. The lookup
  of object names, \<^verbatim>\<open>objectNamesToOids\<close> and \<^verbatim>\<open>objectsInSchemaToOids\<close>, is a parameter of \<open>ExecuteGrantStmt\<close>. The
  privileges recorded for extensions and event triggers are not modelled.
\<close>

section \<open>Statements\<close>

record AccessPriv =
  priv_name :: "string option"
  priv_cols :: "string list"

record InternalGrant =
  is_grant :: bool
  objtype :: ObjectType
  objects :: "Oid list"
  all_privs :: bool
  privileges :: AclMode
  col_privs :: "AccessPriv list"
  grantees :: "Oid list"
  grant_option :: bool
  behavior :: DropBehavior

datatype grant_event =
  GrantWarning string string
| UpdateAclDependencies Oid Oid int Oid "Oid list" "Oid list"

type_synonym grant_result = "(system_catalog \<times> grant_event list) fueled"

definition string_to_privilege :: "string \<Rightarrow> AclMode pg_result" where
  "string_to_privilege privname =
     (if privname = ''insert'' then Inr ACL_INSERT
      else if privname = ''select'' then Inr ACL_SELECT
      else if privname = ''update'' then Inr ACL_UPDATE
      else if privname = ''delete'' then Inr ACL_DELETE
      else if privname = ''truncate'' then Inr ACL_TRUNCATE
      else if privname = ''references'' then Inr ACL_REFERENCES
      else if privname = ''trigger'' then Inr ACL_TRIGGER
      else if privname = ''execute'' then Inr ACL_EXECUTE
      else if privname = ''usage'' then Inr ACL_USAGE
      else if privname = ''create'' then Inr ACL_CREATE
      else if privname = ''temporary'' then Inr ACL_CREATE_TEMP
      else if privname = ''temp'' then Inr ACL_CREATE_TEMP
      else if privname = ''connect'' then Inr ACL_CONNECT
      else if privname = ''set'' then Inr ACL_SET
      else if privname = ''alter system'' then Inr ACL_ALTER_SYSTEM
      else if privname = ''rule'' then Inr 0
      else ereport_error ''ERRCODE_SYNTAX_ERROR'' (''unrecognized privilege type '' @ [CHR 0x22] @ ''%s'' @ [CHR 0x22]))"

definition privilege_to_string :: "AclMode \<Rightarrow> string pg_result" where
  "privilege_to_string privilege =
     (if privilege = ACL_INSERT then Inr ''INSERT''
      else if privilege = ACL_SELECT then Inr ''SELECT''
      else if privilege = ACL_UPDATE then Inr ''UPDATE''
      else if privilege = ACL_DELETE then Inr ''DELETE''
      else if privilege = ACL_TRUNCATE then Inr ''TRUNCATE''
      else if privilege = ACL_REFERENCES then Inr ''REFERENCES''
      else if privilege = ACL_TRIGGER then Inr ''TRIGGER''
      else if privilege = ACL_EXECUTE then Inr ''EXECUTE''
      else if privilege = ACL_USAGE then Inr ''USAGE''
      else if privilege = ACL_CREATE then Inr ''CREATE''
      else if privilege = ACL_CREATE_TEMP then Inr ''TEMP''
      else if privilege = ACL_CONNECT then Inr ''CONNECT''
      else if privilege = ACL_SET then Inr ''SET''
      else if privilege = ACL_ALTER_SYSTEM then Inr ''ALTER SYSTEM''
      else elog_error ''unrecognized privilege: %d'')"

section \<open>One access control list\<close>

text \<open>A budget that is always enough for one update.\<close>

definition update_fuel :: "Acl \<Rightarrow> AclItem \<Rightarrow> nat" where
  "update_fuel acl item = total_rights (ACL_DAT acl) + count_one_bits (ai_privs item) + 2"

fun merge_acl_with_grant ::
  "role_catalog \<Rightarrow> bool \<Rightarrow> bool \<Rightarrow> DropBehavior \<Rightarrow> Oid list \<Rightarrow> AclMode \<Rightarrow> Oid \<Rightarrow> Oid \<Rightarrow> Acl \<Rightarrow> Acl fueled" where
  "merge_acl_with_grant roles isgrant goption beh [] privs grantorId ownerId new_acl = Some (Inr new_acl)"
| "merge_acl_with_grant roles isgrant goption beh (grantee # rest) privs grantorId ownerId new_acl =
     (if isgrant \<and> goption \<and> grantee = ACL_ID_PUBLIC
      then Some (ereport_error ''ERRCODE_INVALID_GRANT_OPERATION'' ''grant options can only be granted to roles'')
      else
        let aclitem = AclItem grantee grantorId
              (PRIVS_GOPTIONS (if isgrant \<or> \<not> goption then privs else ACL_NO_RIGHTS)
                              (if \<not> isgrant \<or> goption then privs else ACL_NO_RIGHTS))
        in fbind (aclupdate (update_fuel new_acl aclitem) roles new_acl aclitem
                    (if isgrant then ACL_MODECHG_ADD else ACL_MODECHG_DEL) ownerId beh)
             (merge_acl_with_grant roles isgrant goption beh rest privs grantorId ownerId))"

definition whole_mask :: "ObjectType \<Rightarrow> AclMode pg_result" where
  "whole_mask otype =
     (case otype of
        OBJECT_COLUMN \<Rightarrow> Inr ACL_ALL_RIGHTS_COLUMN
      | OBJECT_TABLE \<Rightarrow> Inr ACL_ALL_RIGHTS_RELATION
      | OBJECT_SEQUENCE \<Rightarrow> Inr ACL_ALL_RIGHTS_SEQUENCE
      | OBJECT_DATABASE \<Rightarrow> Inr ACL_ALL_RIGHTS_DATABASE
      | OBJECT_FUNCTION \<Rightarrow> Inr ACL_ALL_RIGHTS_FUNCTION
      | OBJECT_LANGUAGE \<Rightarrow> Inr ACL_ALL_RIGHTS_LANGUAGE
      | OBJECT_LARGEOBJECT \<Rightarrow> Inr ACL_ALL_RIGHTS_LARGEOBJECT
      | OBJECT_SCHEMA \<Rightarrow> Inr ACL_ALL_RIGHTS_SCHEMA
      | OBJECT_TABLESPACE \<Rightarrow> Inr ACL_ALL_RIGHTS_TABLESPACE
      | OBJECT_FDW \<Rightarrow> Inr ACL_ALL_RIGHTS_FDW
      | OBJECT_FOREIGN_SERVER \<Rightarrow> Inr ACL_ALL_RIGHTS_FOREIGN_SERVER
      | OBJECT_EVENT_TRIGGER \<Rightarrow> elog_error ''grantable rights not supported for event triggers''
      | OBJECT_TYPE \<Rightarrow> Inr ACL_ALL_RIGHTS_TYPE
      | OBJECT_PARAMETER_ACL \<Rightarrow> Inr ACL_ALL_RIGHTS_PARAMETER_ACL
      | _ \<Rightarrow> elog_error ''unrecognized object type: %d'')"

definition quoted :: string where
  "quoted = [CHR 0x22] @ ''%s'' @ [CHR 0x22]"

text \<open>The warning for a statement that did less than it said; \<open>column\<close> tells that the object is a column.\<close>

definition grant_warning :: "bool \<Rightarrow> bool \<Rightarrow> bool \<Rightarrow> grant_event" where
  "grant_warning isgrant some column =
     GrantWarning (if isgrant then ''ERRCODE_WARNING_PRIVILEGE_NOT_GRANTED'' else ''ERRCODE_WARNING_PRIVILEGE_NOT_REVOKED'')
       ((if some then ''not all privileges '' else ''no privileges '') @ (if isgrant then ''were granted for '' else ''could be revoked for '') @
        (if column then ''column '' @ quoted @ '' of relation '' @ quoted else quoted))"

text \<open>\<open>column\<close> is \<^verbatim>\<open>objtype == OBJECT_COLUMN && colname\<close>.\<close>

definition restrict_and_check_grant ::
  "system_catalog \<Rightarrow> bool \<Rightarrow> AclMode \<Rightarrow> bool \<Rightarrow> AclMode \<Rightarrow> Oid \<Rightarrow> Oid \<Rightarrow> ObjectType \<Rightarrow> int \<Rightarrow>
   (AclMode \<times> grant_event list) pg_result" where
  "restrict_and_check_grant cat isgrant avail_goptions allprivs privs objectId grantorId otype att_number =
     rbind (whole_mask otype) (\<lambda>whole.
     rbind (if avail_goptions = ACL_NO_RIGHTS
            then rbind (pg_aclmask cat otype objectId att_number grantorId (whole OR ACL_GRANT_OPTION_FOR whole) ACLMASK_ANY) (\<lambda>r.
                   if r = ACL_NO_RIGHTS
                   then (if otype = OBJECT_COLUMN then aclcheck_error_col ACLCHECK_NO_PRIV otype
                         else aclcheck_error ACLCHECK_NO_PRIV otype)
                   else Inr ())
            else Inr ()) (\<lambda>_.
       let this_privileges = privs AND ACL_OPTION_TO_PRIVS avail_goptions
       in Inr (this_privileges,
               if this_privileges = 0 then [grant_warning isgrant False (otype = OBJECT_COLUMN)]
               else if \<not> allprivs \<and> this_privileges \<noteq> privs then [grant_warning isgrant True (otype = OBJECT_COLUMN)]
               else [])))"

text \<open>
  The part that all kinds of objects share: the role to grant as, the privileges that can be granted, and
  the new list. \<open>grantor_acl\<close> is the list in which grant options are looked for.
\<close>

definition grant_on_list ::
  "system_catalog \<Rightarrow> InternalGrant \<Rightarrow> ObjectType \<Rightarrow> Oid \<Rightarrow> int \<Rightarrow> Oid \<Rightarrow> Acl \<Rightarrow> Acl \<Rightarrow> bool \<Rightarrow> AclMode \<Rightarrow>
   (Acl \<times> grant_event list) fueled" where
  "grant_on_list cat istmt otype objectId attnum ownerId old_acl grantor_acl allprivs privs =
     fbind (Some (select_best_grantor (role_cat cat) (CurrentUserId (role_cat cat)) privs (Some grantor_acl) ownerId))
       (\<lambda>(grantorId, avail_goptions).
     fbind (Some (restrict_and_check_grant cat (is_grant istmt) avail_goptions allprivs privs objectId grantorId otype attnum))
       (\<lambda>(this_privileges, warnings).
     fbind (merge_acl_with_grant (role_cat cat) (is_grant istmt) (grant_option istmt) (behavior istmt) (grantees istmt)
              this_privileges grantorId ownerId old_acl) (\<lambda>new_acl. Some (Inr (new_acl, warnings)))))"

text \<open>The roles mentioned in the existing list, none when there is no list in the catalog.\<close>

definition old_members :: "Acl option \<Rightarrow> Oid list pg_result" where
  "old_members acl = (case acl of None \<Rightarrow> Inr [] | Some a \<Rightarrow> aclmembers (Some a))"

section \<open>Columns\<close>

definition get_attnum :: "system_catalog \<Rightarrow> Oid \<Rightarrow> string \<Rightarrow> int" where
  "get_attnum cat table_oid colname =
     (case RELOID cat table_oid of
        None \<Rightarrow> InvalidAttrNumber
      | Some rel \<Rightarrow>
          (case find (\<lambda>n. case ATTNUM cat table_oid n of Some att \<Rightarrow> attname att = colname \<and> \<not> attisdropped att | None \<Rightarrow> False)
                  [FirstLowInvalidHeapAttributeNumber + 1..relnatts rel] of
             Some n \<Rightarrow> n | None \<Rightarrow> InvalidAttrNumber))"

fun expand_col_privileges :: "system_catalog \<Rightarrow> Oid \<Rightarrow> AclMode \<Rightarrow> string list \<Rightarrow> AclMode list \<Rightarrow> AclMode list pg_result" where
  "expand_col_privileges cat table_oid this_privileges [] col_privileges = Inr col_privileges"
| "expand_col_privileges cat table_oid this_privileges (colname # rest) col_privileges =
     (let attnum = get_attnum cat table_oid colname; i = attnum - FirstLowInvalidHeapAttributeNumber
      in if attnum = InvalidAttrNumber
         then ereport_error ''ERRCODE_UNDEFINED_COLUMN'' (''column '' @ quoted @ '' of relation '' @ quoted @ '' does not exist'')
         else if i \<le> 0 \<or> i \<ge> int (length col_privileges) then elog_error ''column number out of range''
         else expand_col_privileges cat table_oid this_privileges rest
                (col_privileges[nat i := col_privileges ! nat i OR this_privileges]))"

fun expand_all_loop ::
  "system_catalog \<Rightarrow> Oid \<Rightarrow> pg_class_row \<Rightarrow> AclMode \<Rightarrow> int list \<Rightarrow> AclMode list \<Rightarrow> AclMode list pg_result" where
  "expand_all_loop cat table_oid classForm this_privileges [] col_privileges = Inr col_privileges"
| "expand_all_loop cat table_oid classForm this_privileges (curr_att # rest) col_privileges =
     (if curr_att = InvalidAttrNumber \<or> relkind classForm = RELKIND_VIEW \<and> curr_att < 0
      then expand_all_loop cat table_oid classForm this_privileges rest col_privileges
      else case ATTNUM cat table_oid curr_att of
             None \<Rightarrow> elog_error ''cache lookup failed for attribute %d of relation %u''
           | Some att \<Rightarrow>
               if attisdropped att then expand_all_loop cat table_oid classForm this_privileges rest col_privileges
               else let i = nat (curr_att - FirstLowInvalidHeapAttributeNumber)
                    in expand_all_loop cat table_oid classForm this_privileges rest
                         (col_privileges[i := col_privileges ! i OR this_privileges]))"

definition expand_all_col_privileges ::
  "system_catalog \<Rightarrow> Oid \<Rightarrow> pg_class_row \<Rightarrow> AclMode \<Rightarrow> AclMode list \<Rightarrow> AclMode list pg_result" where
  "expand_all_col_privileges cat table_oid classForm this_privileges col_privileges =
     expand_all_loop cat table_oid classForm this_privileges
       [FirstLowInvalidHeapAttributeNumber + 1..relnatts classForm] col_privileges"

definition set_attacl :: "Oid \<Rightarrow> int \<Rightarrow> pg_attribute_row \<Rightarrow> system_catalog \<Rightarrow> system_catalog" where
  "set_attacl relOid attnum att new =
     new\<lparr>ATTNUM := (ATTNUM new)(relOid := (ATTNUM new relOid)(attnum := Some att))\<rparr>"

definition ExecGrant_Attribute ::
  "system_catalog \<Rightarrow> InternalGrant \<Rightarrow> Oid \<Rightarrow> int \<Rightarrow> Oid \<Rightarrow> AclMode \<Rightarrow> Acl \<Rightarrow> system_catalog \<Rightarrow> grant_result" where
  "ExecGrant_Attribute cat istmt relOid attnum ownerId col_privileges old_rel_acl new =
     (case ATTNUM cat relOid attnum of
        None \<Rightarrow> Some (elog_error ''cache lookup failed for attribute %d of relation %u'')
      | Some att \<Rightarrow>
          fbind (Some (acl_or_default OBJECT_COLUMN ownerId (attacl att))) (\<lambda>old_acl.
          fbind (Some (old_members (attacl att))) (\<lambda>oldmembers.
          fbind (grant_on_list cat istmt OBJECT_COLUMN relOid attnum ownerId old_acl (aclconcat old_rel_acl old_acl)
                   (col_privileges = ACL_ALL_RIGHTS_COLUMN) col_privileges) (\<lambda>(new_acl, events).
          fbind (Some (aclmembers (Some new_acl))) (\<lambda>newmembers.
            Some (Inr (if ACL_NUM new_acl > 0 \<or> attacl att \<noteq> None
                       then (set_attacl relOid attnum (att\<lparr>attacl := if ACL_NUM new_acl > 0 then Some new_acl else None\<rparr>) new,
                             events @ [UpdateAclDependencies RelationRelationId relOid attnum ownerId oldmembers newmembers])
                       else (new, events))))))))"

section \<open>Relations\<close>

text \<open>The privileges of the statement for a relation, with the checks of its kind.\<close>

definition relation_privileges :: "InternalGrant \<Rightarrow> pg_class_row \<Rightarrow> (AclMode \<times> grant_event list) pg_result" where
  "relation_privileges istmt rel =
     (if relkind rel = RELKIND_INDEX \<or> relkind rel = RELKIND_PARTITIONED_INDEX
      then ereport_error ''ERRCODE_WRONG_OBJECT_TYPE'' (quoted @ '' is an index'')
      else if relkind rel = RELKIND_COMPOSITE_TYPE
      then ereport_error ''ERRCODE_WRONG_OBJECT_TYPE'' (quoted @ '' is a composite type'')
      else if objtype istmt = OBJECT_SEQUENCE \<and> relkind rel \<noteq> RELKIND_SEQUENCE
      then ereport_error ''ERRCODE_WRONG_OBJECT_TYPE'' (quoted @ '' is not a sequence'')
      else
        let this_privileges =
              (if all_privs istmt \<and> privileges istmt = ACL_NO_RIGHTS
               then (if relkind rel = RELKIND_SEQUENCE then ACL_ALL_RIGHTS_SEQUENCE else ACL_ALL_RIGHTS_RELATION)
               else privileges istmt)
        in if objtype istmt = OBJECT_TABLE
           then (if relkind rel = RELKIND_SEQUENCE
                 then (if this_privileges AND NOT ACL_ALL_RIGHTS_SEQUENCE \<noteq> 0
                       then Inr (this_privileges AND ACL_ALL_RIGHTS_SEQUENCE,
                              [GrantWarning ''ERRCODE_INVALID_GRANT_OPERATION''
                                 (''sequence '' @ quoted @ '' only supports USAGE, SELECT, and UPDATE privileges'')])
                       else Inr (this_privileges, []))
                 else if this_privileges AND NOT ACL_ALL_RIGHTS_RELATION \<noteq> 0
                 then ereport_error ''ERRCODE_INVALID_GRANT_OPERATION'' ''invalid privilege type %s for table''
                 else Inr (this_privileges, []))
           else Inr (this_privileges, []))"

fun expand_col_privs ::
  "system_catalog \<Rightarrow> Oid \<Rightarrow> pg_class_row \<Rightarrow> AccessPriv list \<Rightarrow> AclMode list \<Rightarrow> (AclMode list \<times> grant_event list) pg_result" where
  "expand_col_privs cat relOid rel [] col_privileges = Inr (col_privileges, [])"
| "expand_col_privs cat relOid rel (priv # rest) col_privileges =
     rbind (case priv_name priv of None \<Rightarrow> Inr ACL_ALL_RIGHTS_COLUMN | Some nm \<Rightarrow> string_to_privilege nm) (\<lambda>this_privileges.
     rbind (if this_privileges AND NOT ACL_ALL_RIGHTS_COLUMN \<noteq> 0
            then rbind (privilege_to_string this_privileges) (\<lambda>_.
                   ereport_error ''ERRCODE_INVALID_GRANT_OPERATION'' ''invalid privilege type %s for column'')
            else Inr ()) (\<lambda>_.
       let restrict = (relkind rel = RELKIND_SEQUENCE \<and> this_privileges AND NOT ACL_SELECT \<noteq> 0);
           this_privileges = (if restrict then this_privileges AND ACL_SELECT else this_privileges);
           warning = (if restrict then [GrantWarning ''ERRCODE_INVALID_GRANT_OPERATION''
                        (''sequence '' @ quoted @ '' only supports SELECT column privileges'')] else [])
       in rbind (expand_col_privileges cat relOid this_privileges (priv_cols priv) col_privileges) (\<lambda>col_privileges.
          rbind (expand_col_privs cat relOid rel rest col_privileges) (\<lambda>(col_privileges, events).
            Inr (col_privileges, warning @ events)))))"

fun attribute_loop ::
  "system_catalog \<Rightarrow> InternalGrant \<Rightarrow> Oid \<Rightarrow> Oid \<Rightarrow> Acl \<Rightarrow> int \<Rightarrow> AclMode list \<Rightarrow> system_catalog \<Rightarrow> grant_result" where
  "attribute_loop cat istmt relOid ownerId old_rel_acl i [] new = Some (Inr (new, []))"
| "attribute_loop cat istmt relOid ownerId old_rel_acl i (privs # rest) new =
     (if privs = ACL_NO_RIGHTS then attribute_loop cat istmt relOid ownerId old_rel_acl (i + 1) rest new
      else fbind (ExecGrant_Attribute cat istmt relOid (i + FirstLowInvalidHeapAttributeNumber) ownerId privs old_rel_acl new)
             (\<lambda>(new, events).
           fbind (attribute_loop cat istmt relOid ownerId old_rel_acl (i + 1) rest new) (\<lambda>(new, more).
             Some (Inr (new, events @ more)))))"

definition set_relacl :: "Oid \<Rightarrow> pg_class_row \<Rightarrow> Acl \<Rightarrow> system_catalog \<Rightarrow> system_catalog" where
  "set_relacl relOid rel acl new = new\<lparr>RELOID := (RELOID new)(relOid := Some (rel\<lparr>relacl := Some acl\<rparr>))\<rparr>"

text \<open>The relation-level part of \<^verbatim>\<open>ExecGrant_Relation\<close>.\<close>

definition grant_relation_level ::
  "system_catalog \<Rightarrow> InternalGrant \<Rightarrow> Oid \<Rightarrow> pg_class_row \<Rightarrow> AclMode \<Rightarrow> Acl \<Rightarrow> Oid list \<Rightarrow> grant_result" where
  "grant_relation_level cat istmt relOid rel this_privileges old_acl oldmembers =
     (if this_privileges = ACL_NO_RIGHTS then Some (Inr (cat, []))
      else
        fbind (grant_on_list cat istmt (class_objtype rel) relOid 0 (relowner rel) old_acl old_acl (all_privs istmt) this_privileges)
          (\<lambda>(new_acl, events).
        fbind (Some (aclmembers (Some new_acl))) (\<lambda>newmembers.
          Some (Inr (set_relacl relOid rel new_acl cat,
                     events @ [UpdateAclDependencies RelationRelationId relOid 0 (relowner rel) oldmembers newmembers])))))"

definition grant_relation :: "InternalGrant \<Rightarrow> Oid \<Rightarrow> system_catalog \<Rightarrow> grant_result" where
  "grant_relation istmt relOid cat =
     (case RELOID cat relOid of
        None \<Rightarrow> Some (elog_error ''cache lookup failed for relation %u'')
      | Some rel \<Rightarrow>
          fbind (Some (relation_privileges istmt rel)) (\<lambda>(this_privileges, ev1).
          let col_privileges = replicate (nat (relnatts rel - FirstLowInvalidHeapAttributeNumber + 1)) ACL_NO_RIGHTS;
              implied = (\<not> is_grant istmt \<and> this_privileges AND ACL_ALL_RIGHTS_COLUMN \<noteq> 0)
          in fbind (if implied
                    then Some (expand_all_col_privileges cat relOid rel (this_privileges AND ACL_ALL_RIGHTS_COLUMN) col_privileges)
                    else Some (Inr col_privileges)) (\<lambda>col_privileges.
             fbind (Some (acl_or_default (class_objtype rel) (relowner rel) (relacl rel))) (\<lambda>old_acl.
             fbind (Some (old_members (relacl rel))) (\<lambda>oldmembers.
             fbind (grant_relation_level cat istmt relOid rel this_privileges old_acl oldmembers) (\<lambda>(new, ev2).
             fbind (Some (expand_col_privs cat relOid rel (col_privs istmt) col_privileges)) (\<lambda>(col_privileges, ev3).
             fbind (if implied \<or> col_privs istmt \<noteq> []
                    then attribute_loop cat istmt relOid (relowner rel) (aclcopy old_acl) 0 col_privileges new
                    else Some (Inr (new, []))) (\<lambda>(new, ev4). Some (Inr (new, ev1 @ ev2 @ ev3 @ ev4))))))))))"

text \<open>A loop over the objects of the statement; the changes for one are visible to the next.\<close>

fun for_objects :: "(Oid \<Rightarrow> system_catalog \<Rightarrow> grant_result) \<Rightarrow> Oid list \<Rightarrow> system_catalog \<Rightarrow> grant_result" where
  "for_objects f [] cat = Some (Inr (cat, []))"
| "for_objects f (oid # rest) cat =
     fbind (f oid cat) (\<lambda>(cat, events). fbind (for_objects f rest cat) (\<lambda>(cat, more). Some (Inr (cat, events @ more))))"

definition ExecGrant_Relation :: "InternalGrant \<Rightarrow> system_catalog \<Rightarrow> grant_result" where
  "ExecGrant_Relation istmt cat = for_objects (grant_relation istmt) (objects istmt) cat"

section \<open>Other objects\<close>

definition LargeObjectRelationId :: Oid where "LargeObjectRelationId = 2613"
definition ParameterAclRelationId :: Oid where "ParameterAclRelationId = 6243"
definition TYPTYPE_DOMAIN :: char where "TYPTYPE_DOMAIN = CHR ''d''"

definition object_acl_row :: "system_catalog \<Rightarrow> Oid \<Rightarrow> Oid \<Rightarrow> (Oid \<times> Acl option) option" where
  "object_acl_row cat classid oid =
     (if classid = TypeRelationId then map_option (\<lambda>t. (typowner t, typacl t)) (TYPEOID cat oid)
      else map_option (\<lambda>obj. (obj_owner obj, obj_acl obj)) (object_cache cat classid oid))"

definition set_object_acl :: "Oid \<Rightarrow> Oid \<Rightarrow> Acl \<Rightarrow> system_catalog \<Rightarrow> system_catalog" where
  "set_object_acl classid oid acl cat =
     (if classid = TypeRelationId
      then cat\<lparr>TYPEOID := (TYPEOID cat)(oid := map_option (\<lambda>t. t\<lparr>typacl := Some acl\<rparr>) (TYPEOID cat oid))\<rparr>
      else cat\<lparr>object_cache := (object_cache cat)(classid :=
             (object_cache cat classid)(oid := map_option (\<lambda>obj. obj\<lparr>obj_acl := Some acl\<rparr>) (object_cache cat classid oid)))\<rparr>)"

definition ExecGrant_Language_check :: "Oid \<Rightarrow> system_catalog \<Rightarrow> unit pg_result" where
  "ExecGrant_Language_check oid cat =
     (case object_cache cat LanguageRelationId oid of
        Some obj \<Rightarrow> if \<not> lanpltrusted obj
          then ereport_error ''ERRCODE_WRONG_OBJECT_TYPE'' (''language '' @ quoted @ '' is not trusted'') else Inr ()
      | None \<Rightarrow> Inr ())"

definition ExecGrant_Type_check :: "InternalGrant \<Rightarrow> Oid \<Rightarrow> system_catalog \<Rightarrow> unit pg_result" where
  "ExecGrant_Type_check istmt oid cat =
     (case TYPEOID cat oid of
        Some typ \<Rightarrow>
          if IsTrueArrayType typ
          then ereport_error ''ERRCODE_INVALID_GRANT_OPERATION'' ''cannot set privileges of array types''
          else if objtype istmt = OBJECT_DOMAIN \<and> typtype typ \<noteq> TYPTYPE_DOMAIN
          then ereport_error ''ERRCODE_WRONG_OBJECT_TYPE'' (quoted @ '' is not a domain'')
          else Inr ()
      | None \<Rightarrow> Inr ())"

text \<open>\<open>privileges\<close> is set to the default for the kind of object when the statement said \<^verbatim>\<open>ALL\<close>.\<close>

definition default_privileges :: "AclMode \<Rightarrow> InternalGrant \<Rightarrow> InternalGrant" where
  "default_privileges default_privs istmt =
     (if all_privs istmt \<and> privileges istmt = ACL_NO_RIGHTS then istmt\<lparr>privileges := default_privs\<rparr> else istmt)"

definition grant_object ::
  "InternalGrant \<Rightarrow> Oid \<Rightarrow> (Oid \<Rightarrow> system_catalog \<Rightarrow> unit pg_result) \<Rightarrow> Oid \<Rightarrow> system_catalog \<Rightarrow> grant_result" where
  "grant_object istmt classid object_check objectid cat =
     (case object_acl_row cat classid objectid of
        None \<Rightarrow> Some (elog_error ''cache lookup failed for %s %u'')
      | Some (ownerId, acl) \<Rightarrow>
          fbind (Some (object_check objectid cat)) (\<lambda>_.
          fbind (Some (get_object_type classid)) (\<lambda>otype.
          fbind (Some (acl_or_default otype ownerId acl)) (\<lambda>old_acl.
          fbind (Some (old_members acl)) (\<lambda>oldmembers.
          fbind (grant_on_list cat istmt otype objectid 0 ownerId old_acl old_acl (all_privs istmt) (privileges istmt))
            (\<lambda>(new_acl, events).
          fbind (Some (aclmembers (Some new_acl))) (\<lambda>newmembers.
            Some (Inr (set_object_acl classid objectid new_acl cat,
                       events @ [UpdateAclDependencies classid objectid 0 ownerId oldmembers newmembers])))))))))"

definition ExecGrant_common ::
  "InternalGrant \<Rightarrow> Oid \<Rightarrow> AclMode \<Rightarrow> (InternalGrant \<Rightarrow> Oid \<Rightarrow> system_catalog \<Rightarrow> unit pg_result) option \<Rightarrow> system_catalog \<Rightarrow> grant_result" where
  "ExecGrant_common istmt classid default_privs object_check cat =
     (let istmt = default_privileges default_privs istmt
      in for_objects (grant_object istmt classid (case object_check of None \<Rightarrow> (\<lambda>_ _. Inr ()) | Some f \<Rightarrow> f istmt)) (objects istmt) cat)"

definition grant_largeobject :: "InternalGrant \<Rightarrow> Oid \<Rightarrow> system_catalog \<Rightarrow> grant_result" where
  "grant_largeobject istmt loid cat =
     (case object_cache cat LargeObjectMetadataRelationId loid of
        None \<Rightarrow> Some (elog_error ''could not find tuple for large object %u'')
      | Some lo \<Rightarrow>
          fbind (Some (acl_or_default OBJECT_LARGEOBJECT (obj_owner lo) (obj_acl lo))) (\<lambda>old_acl.
          fbind (Some (old_members (obj_acl lo))) (\<lambda>oldmembers.
          fbind (grant_on_list cat istmt OBJECT_LARGEOBJECT loid 0 (obj_owner lo) old_acl old_acl (all_privs istmt) (privileges istmt))
            (\<lambda>(new_acl, events).
          fbind (Some (aclmembers (Some new_acl))) (\<lambda>newmembers.
            Some (Inr (set_object_acl LargeObjectMetadataRelationId loid new_acl cat,
                       events @ [UpdateAclDependencies LargeObjectRelationId loid 0 (obj_owner lo) oldmembers newmembers])))))))"

definition ExecGrant_Largeobject :: "InternalGrant \<Rightarrow> system_catalog \<Rightarrow> grant_result" where
  "ExecGrant_Largeobject istmt cat =
     (let istmt = default_privileges ACL_ALL_RIGHTS_LARGEOBJECT istmt
      in for_objects (grant_largeobject istmt) (objects istmt) cat)"

definition grant_parameter :: "InternalGrant \<Rightarrow> Oid \<Rightarrow> system_catalog \<Rightarrow> grant_result" where
  "grant_parameter istmt parameterId cat =
     (case find (\<lambda>par. par_oid par = parameterId) (pg_parameter_acl cat) of
        None \<Rightarrow> Some (elog_error ''cache lookup failed for parameter ACL %u'')
      | Some par \<Rightarrow>
          fbind (Some (acl_or_default (objtype istmt) BOOTSTRAP_SUPERUSERID (paracl par))) (\<lambda>old_acl.
          fbind (Some (old_members (paracl par))) (\<lambda>oldmembers.
          fbind (grant_on_list cat istmt OBJECT_PARAMETER_ACL parameterId 0 BOOTSTRAP_SUPERUSERID old_acl old_acl
                   (all_privs istmt) (privileges istmt)) (\<lambda>(new_acl, events).
          fbind (Some (aclmembers (Some new_acl))) (\<lambda>newmembers.
          fbind (Some (acldefault (objtype istmt) BOOTSTRAP_SUPERUSERID)) (\<lambda>default_acl.
            Some (Inr (cat\<lparr>pg_parameter_acl :=
                         (if aclequal (Some new_acl) (Some default_acl)
                          then filter (\<lambda>p. par_oid p \<noteq> parameterId) (pg_parameter_acl cat)
                          else map (\<lambda>p. if par_oid p = parameterId then p\<lparr>paracl := Some new_acl\<rparr> else p) (pg_parameter_acl cat))\<rparr>,
                       events @ [UpdateAclDependencies ParameterAclRelationId parameterId 0 BOOTSTRAP_SUPERUSERID oldmembers newmembers])))))))
     )"

definition ExecGrant_Parameter :: "InternalGrant \<Rightarrow> system_catalog \<Rightarrow> grant_result" where
  "ExecGrant_Parameter istmt cat =
     (let istmt = default_privileges ACL_ALL_RIGHTS_PARAMETER_ACL istmt
      in for_objects (grant_parameter istmt) (objects istmt) cat)"

definition ExecGrantStmt_oids :: "InternalGrant \<Rightarrow> system_catalog \<Rightarrow> grant_result" where
  "ExecGrantStmt_oids istmt cat =
     (case objtype istmt of
        OBJECT_TABLE \<Rightarrow> ExecGrant_Relation istmt cat
      | OBJECT_SEQUENCE \<Rightarrow> ExecGrant_Relation istmt cat
      | OBJECT_DATABASE \<Rightarrow> ExecGrant_common istmt DatabaseRelationId ACL_ALL_RIGHTS_DATABASE None cat
      | OBJECT_DOMAIN \<Rightarrow> ExecGrant_common istmt TypeRelationId ACL_ALL_RIGHTS_TYPE (Some ExecGrant_Type_check) cat
      | OBJECT_TYPE \<Rightarrow> ExecGrant_common istmt TypeRelationId ACL_ALL_RIGHTS_TYPE (Some ExecGrant_Type_check) cat
      | OBJECT_FDW \<Rightarrow> ExecGrant_common istmt ForeignDataWrapperRelationId ACL_ALL_RIGHTS_FDW None cat
      | OBJECT_FOREIGN_SERVER \<Rightarrow> ExecGrant_common istmt ForeignServerRelationId ACL_ALL_RIGHTS_FOREIGN_SERVER None cat
      | OBJECT_FUNCTION \<Rightarrow> ExecGrant_common istmt ProcedureRelationId ACL_ALL_RIGHTS_FUNCTION None cat
      | OBJECT_PROCEDURE \<Rightarrow> ExecGrant_common istmt ProcedureRelationId ACL_ALL_RIGHTS_FUNCTION None cat
      | OBJECT_ROUTINE \<Rightarrow> ExecGrant_common istmt ProcedureRelationId ACL_ALL_RIGHTS_FUNCTION None cat
      | OBJECT_LANGUAGE \<Rightarrow>
          ExecGrant_common istmt LanguageRelationId ACL_ALL_RIGHTS_LANGUAGE (Some (\<lambda>_. ExecGrant_Language_check)) cat
      | OBJECT_LARGEOBJECT \<Rightarrow> ExecGrant_Largeobject istmt cat
      | OBJECT_SCHEMA \<Rightarrow> ExecGrant_common istmt NamespaceRelationId ACL_ALL_RIGHTS_SCHEMA None cat
      | OBJECT_TABLESPACE \<Rightarrow> ExecGrant_common istmt TableSpaceRelationId ACL_ALL_RIGHTS_TABLESPACE None cat
      | OBJECT_PARAMETER_ACL \<Rightarrow> ExecGrant_Parameter istmt cat
      | _ \<Rightarrow> Some (elog_error ''unrecognized GrantStmt.objtype: %d''))"

section \<open>The statement\<close>

datatype GrantTargetType = ACL_TARGET_OBJECT | ACL_TARGET_ALL_IN_SCHEMA | ACL_TARGET_DEFAULTS

record 'n GrantStmt =
  gs_is_grant :: bool
  gs_targtype :: GrantTargetType
  gs_objtype :: ObjectType
  gs_objects :: "'n list"
  gs_privileges :: "AccessPriv list"
  gs_grantees :: "RoleSpec list"
  gs_grant_option :: bool
  gs_grantor :: "RoleSpec option"
  gs_behavior :: DropBehavior

text \<open>
  The lookup of the objects that a statement names. It may add a row without privileges for a
  configuration parameter.
\<close>

record 'n name_lookup =
  objectNamesToOids :: "ObjectType \<Rightarrow> 'n list \<Rightarrow> bool \<Rightarrow> system_catalog \<Rightarrow> (system_catalog \<times> Oid list) pg_result"
  objectsInSchemaToOids :: "ObjectType \<Rightarrow> 'n list \<Rightarrow> system_catalog \<Rightarrow> (system_catalog \<times> Oid list) pg_result"

definition stmt_grantor :: "role_catalog \<Rightarrow> RoleSpec option \<Rightarrow> unit pg_result" where
  "stmt_grantor roles grantor =
     (case grantor of
        None \<Rightarrow> Inr ()
      | Some spec \<Rightarrow> rbind (get_rolespec_oid roles spec False) (\<lambda>oid.
          if oid \<noteq> CurrentUserId roles then ereport_error ''ERRCODE_FEATURE_NOT_SUPPORTED'' ''grantor must be current user''
          else Inr ()))"

fun stmt_grantees :: "role_catalog \<Rightarrow> RoleSpec list \<Rightarrow> Oid list pg_result" where
  "stmt_grantees roles [] = Inr []"
| "stmt_grantees roles (grantee # rest) =
     rbind (case roletype grantee of ROLESPEC_PUBLIC \<Rightarrow> Inr ACL_ID_PUBLIC | _ \<Rightarrow> get_rolespec_oid roles grantee False)
       (\<lambda>grantee_uid. rbind (stmt_grantees roles rest) (\<lambda>uids. Inr (grantee_uid # uids)))"

text \<open>The privileges that an object type supports, and its name in the error message.\<close>

definition stmt_all_privileges :: "ObjectType \<Rightarrow> (AclMode \<times> string) pg_result" where
  "stmt_all_privileges otype =
     (case otype of
        OBJECT_TABLE \<Rightarrow> Inr (ACL_ALL_RIGHTS_RELATION OR ACL_ALL_RIGHTS_SEQUENCE, ''relation'')
      | OBJECT_SEQUENCE \<Rightarrow> Inr (ACL_ALL_RIGHTS_SEQUENCE, ''sequence'')
      | OBJECT_DATABASE \<Rightarrow> Inr (ACL_ALL_RIGHTS_DATABASE, ''database'')
      | OBJECT_DOMAIN \<Rightarrow> Inr (ACL_ALL_RIGHTS_TYPE, ''domain'')
      | OBJECT_FUNCTION \<Rightarrow> Inr (ACL_ALL_RIGHTS_FUNCTION, ''function'')
      | OBJECT_LANGUAGE \<Rightarrow> Inr (ACL_ALL_RIGHTS_LANGUAGE, ''language'')
      | OBJECT_LARGEOBJECT \<Rightarrow> Inr (ACL_ALL_RIGHTS_LARGEOBJECT, ''large object'')
      | OBJECT_SCHEMA \<Rightarrow> Inr (ACL_ALL_RIGHTS_SCHEMA, ''schema'')
      | OBJECT_PROCEDURE \<Rightarrow> Inr (ACL_ALL_RIGHTS_FUNCTION, ''procedure'')
      | OBJECT_ROUTINE \<Rightarrow> Inr (ACL_ALL_RIGHTS_FUNCTION, ''routine'')
      | OBJECT_TABLESPACE \<Rightarrow> Inr (ACL_ALL_RIGHTS_TABLESPACE, ''tablespace'')
      | OBJECT_TYPE \<Rightarrow> Inr (ACL_ALL_RIGHTS_TYPE, ''type'')
      | OBJECT_FDW \<Rightarrow> Inr (ACL_ALL_RIGHTS_FDW, ''foreign-data wrapper'')
      | OBJECT_FOREIGN_SERVER \<Rightarrow> Inr (ACL_ALL_RIGHTS_FOREIGN_SERVER, ''foreign server'')
      | OBJECT_PARAMETER_ACL \<Rightarrow> Inr (ACL_ALL_RIGHTS_PARAMETER_ACL, ''parameter'')
      | _ \<Rightarrow> elog_error ''unrecognized GrantStmt.objtype: %d'')"

text \<open>The loop over the privileges: those with columns are set aside.\<close>

fun stmt_privileges ::
  "ObjectType \<Rightarrow> AclMode \<Rightarrow> string \<Rightarrow> AccessPriv list \<Rightarrow> AccessPriv list \<Rightarrow> AclMode \<Rightarrow> (AccessPriv list \<times> AclMode) pg_result" where
  "stmt_privileges otype all_privileges kind [] cols privs = Inr (cols, privs)"
| "stmt_privileges otype all_privileges kind (privnode # rest) cols privs =
     (if priv_cols privnode \<noteq> []
      then (if otype \<noteq> OBJECT_TABLE
            then ereport_error ''ERRCODE_INVALID_GRANT_OPERATION'' ''column privileges are only valid for relations''
            else stmt_privileges otype all_privileges kind rest (cols @ [privnode]) privs)
      else case priv_name privnode of
             None \<Rightarrow> elog_error ''AccessPriv node must specify privilege or columns''
           | Some nm \<Rightarrow>
               rbind (string_to_privilege nm) (\<lambda>priv.
               if priv AND NOT all_privileges \<noteq> 0
               then rbind (privilege_to_string priv) (\<lambda>_.
                      ereport_error ''ERRCODE_INVALID_GRANT_OPERATION'' (''invalid privilege type %s for '' @ kind))
               else stmt_privileges otype all_privileges kind rest cols (privs OR priv)))"

definition stmt_objects :: "'n name_lookup \<Rightarrow> 'n GrantStmt \<Rightarrow> system_catalog \<Rightarrow> (system_catalog \<times> Oid list) pg_result" where
  "stmt_objects look stmt cat =
     (case gs_targtype stmt of
        ACL_TARGET_OBJECT \<Rightarrow> objectNamesToOids look (gs_objtype stmt) (gs_objects stmt) (gs_is_grant stmt) cat
      | ACL_TARGET_ALL_IN_SCHEMA \<Rightarrow> objectsInSchemaToOids look (gs_objtype stmt) (gs_objects stmt) cat
      | ACL_TARGET_DEFAULTS \<Rightarrow> elog_error ''unrecognized GrantStmt.targtype: %d'')"

definition ExecuteGrantStmt :: "'n name_lookup \<Rightarrow> 'n GrantStmt \<Rightarrow> system_catalog \<Rightarrow> grant_result" where
  "ExecuteGrantStmt look stmt cat =
     fbind (Some (stmt_grantor (role_cat cat) (gs_grantor stmt))) (\<lambda>_.
     fbind (Some (stmt_objects look stmt cat)) (\<lambda>(cat, oids).
     fbind (Some (stmt_grantees (role_cat cat) (gs_grantees stmt))) (\<lambda>uids.
     fbind (Some (stmt_all_privileges (gs_objtype stmt))) (\<lambda>(all_privileges, kind).
     fbind (Some (stmt_privileges (gs_objtype stmt) all_privileges kind (gs_privileges stmt) [] ACL_NO_RIGHTS)) (\<lambda>(cols, privs).
       ExecGrantStmt_oids
         \<lparr>is_grant = gs_is_grant stmt, objtype = gs_objtype stmt, objects = oids, all_privs = (gs_privileges stmt = []),
          privileges = privs, col_privs = cols, grantees = uids, grant_option = gs_grant_option stmt,
          behavior = gs_behavior stmt\<rparr> cat)))))"

end
