(* ===== verification/GrantSpec.thy ===== *)
theory GrantSpec
  imports Grants
begin

unbundle bit_operations_syntax

text \<open>
  What \<^verbatim>\<open>GRANT\<close> and \<^verbatim>\<open>REVOKE\<close> do to the access control lists: for one list, for a relation with its columns, and
  for the other objects, from the routines of theory \<open>Grants\<close>. The step predicates describe one change of the
  catalogs; \<open>catalog_wf\<close> is the invariant of the lists and \<open>catalog_grounded\<close> says that every right flows from the
  owner of the object through grant options.
\<close>

section \<open>What a statement does to the lists\<close>

definition items_of :: "Acl option \<Rightarrow> AclItem list" where
  "items_of acl = (case acl of None \<Rightarrow> [] | Some a \<Rightarrow> ACL_DAT a)"

definition list_wf :: "Acl option \<Rightarrow> bool" where
  "list_wf acl \<longleftrightarrow> list_ok acl \<and> acl_unique (items_of acl)"

text \<open>
  The lists of the catalogs are well-formed, with one item for each grantee and grantor, and every object
  with a list has an owner.
\<close>

definition catalog_wf :: "system_catalog \<Rightarrow> bool" where
  "catalog_wf cat \<longleftrightarrow>
     (\<exists>dba. database_dba (role_cat cat) = Inr dba) \<and>
     (\<forall>t rel. RELOID cat t = Some rel \<longrightarrow> list_wf (relacl rel) \<and> OidIsValid (relowner rel)) \<and>
     (\<forall>t n att. ATTNUM cat t n = Some att \<longrightarrow> list_wf (attacl att)) \<and>
     (\<forall>t typ. TYPEOID cat t = Some typ \<longrightarrow> list_wf (typacl typ) \<and> OidIsValid (typowner typ)) \<and>
     (\<forall>c oid obj. object_cache cat c oid = Some obj \<longrightarrow> list_wf (obj_acl obj) \<and> OidIsValid (obj_owner obj)) \<and>
     list_all (\<lambda>par. list_wf (paracl par)) (pg_parameter_acl cat)"

text \<open>Everything in the catalogs but the access control lists.\<close>

definition erase_lists :: "system_catalog \<Rightarrow> system_catalog" where
  "erase_lists cat = cat\<lparr>
     RELOID := (\<lambda>t. map_option (\<lambda>rel. rel\<lparr>relacl := None\<rparr>) (RELOID cat t)),
     ATTNUM := (\<lambda>t n. map_option (\<lambda>att. att\<lparr>attacl := None\<rparr>) (ATTNUM cat t n)),
     TYPEOID := (\<lambda>t. map_option (\<lambda>typ. typ\<lparr>typacl := None\<rparr>) (TYPEOID cat t)),
     object_cache := (\<lambda>c oid. map_option (\<lambda>obj. obj\<lparr>obj_acl := None\<rparr>) (object_cache cat c oid)),
     pg_parameter_acl := []\<rparr>"

text \<open>
  The items \<open>ys\<close> after granting or revoking \<open>privs\<close> as \<open>grantor\<close>: a grant adds the privileges to the items of
  the grantees, a revocation leaves no item of a grantee with them, adds no right to any item, and changes
  nothing when no item has one of the grantees.
\<close>

definition merged :: "InternalGrant \<Rightarrow> AclMode \<Rightarrow> Oid \<Rightarrow> AclItem list \<Rightarrow> AclItem list \<Rightarrow> bool" where
  "merged istmt privs grantor xs ys \<longleftrightarrow> acl_unique ys \<and>
     (if is_grant istmt
      then pair_rights ys = (\<lambda>p. pair_rights xs p OR
             (if fst p \<in> set (grantees istmt) \<and> snd p = grantor
              then PRIVS_GOPTIONS privs (if grant_option istmt then privs else 0) else 0))
      else sub_items ys xs \<and>
           (\<forall>g \<in> set (grantees istmt).
              pair_rights ys (g, grantor) AND PRIVS_GOPTIONS (if grant_option istmt then 0 else privs) privs = 0) \<and>
           ((\<forall>i \<in> set xs. ai_grantee i \<notin> set (grantees istmt)) \<longrightarrow> ys = xs))"

text \<open>One list is changed as the best grantor, with the privileges that role can grant.\<close>

definition list_step ::
  "system_catalog \<Rightarrow> InternalGrant \<Rightarrow> Oid \<Rightarrow> Acl \<Rightarrow> AclMode \<Rightarrow> AclItem list \<Rightarrow> AclItem list \<Rightarrow> bool" where
  "list_step cat istmt ownerId grantor_acl privs xs ys \<longleftrightarrow>
     (\<exists>grantor avail.
        select_best_grantor (role_cat cat) (CurrentUserId (role_cat cat)) privs (Some grantor_acl) ownerId = Inr (grantor, avail) \<and>
        merged istmt (privs AND ACL_OPTION_TO_PRIVS avail) grantor xs ys)"

text \<open>The change of a column, and of a relation with its columns; \<open>colp\<close> are the privileges to change by column.\<close>

definition column_step ::
  "system_catalog \<Rightarrow> InternalGrant \<Rightarrow> Oid \<Rightarrow> Acl \<Rightarrow> AclMode \<Rightarrow> pg_attribute_row option \<Rightarrow> pg_attribute_row option \<Rightarrow> bool" where
  "column_step cat istmt ownerId rel_acl privs old new \<longleftrightarrow>
     (\<exists>att acl. old = Some att \<and> new = Some (att\<lparr>attacl := acl\<rparr>) \<and> list_ok acl \<and>
        list_step cat istmt ownerId (aclconcat rel_acl (allocacl (items_of (attacl att)))) privs (items_of (attacl att)) (items_of acl))"

definition set_columns :: "Oid \<Rightarrow> (int \<Rightarrow> pg_attribute_row option) \<Rightarrow> system_catalog \<Rightarrow> system_catalog" where
  "set_columns relOid cols cat = cat\<lparr>ATTNUM := (ATTNUM cat)(relOid := cols)\<rparr>"

definition columns_step ::
  "system_catalog \<Rightarrow> InternalGrant \<Rightarrow> Oid \<Rightarrow> Acl \<Rightarrow> int \<Rightarrow> AclMode list \<Rightarrow> (int \<Rightarrow> pg_attribute_row option) \<Rightarrow>
   (int \<Rightarrow> pg_attribute_row option) \<Rightarrow> bool" where
  "columns_step cat istmt ownerId rel_acl base colp old new \<longleftrightarrow>
     (\<forall>n. if base \<le> n \<and> n < base + int (length colp) \<and> colp ! nat (n - base) \<noteq> 0
          then column_step cat istmt ownerId rel_acl (colp ! nat (n - base)) (old n) (new n)
          else new n = old n)"

definition no_columns :: "pg_class_row \<Rightarrow> AclMode list" where
  "no_columns rel = replicate (nat (relnatts rel - FirstLowInvalidHeapAttributeNumber + 1)) ACL_NO_RIGHTS"

definition statement_columns :: "InternalGrant \<Rightarrow> system_catalog \<Rightarrow> Oid \<Rightarrow> pg_class_row \<Rightarrow> AclMode \<Rightarrow> AclMode list pg_result" where
  "statement_columns istmt cat relOid rel privs =
     rbind (if \<not> is_grant istmt \<and> privs AND ACL_ALL_RIGHTS_COLUMN \<noteq> 0
            then expand_all_col_privileges cat relOid rel (privs AND ACL_ALL_RIGHTS_COLUMN) (no_columns rel)
            else Inr (no_columns rel)) (\<lambda>colp.
     rbind (expand_col_privs cat relOid rel (col_privs istmt) colp) (\<lambda>(colp, _). Inr colp))"

definition relation_step :: "InternalGrant \<Rightarrow> Oid \<Rightarrow> system_catalog \<Rightarrow> system_catalog \<Rightarrow> bool" where
  "relation_step istmt relOid cat new \<longleftrightarrow>
     (\<exists>rel privs warnings acl colp rel' cols.
        RELOID cat relOid = Some rel \<and> relation_privileges istmt rel = Inr (privs, warnings) \<and>
        acl_or_default (class_objtype rel) (relowner rel) (relacl rel) = Inr acl \<and>
        statement_columns istmt cat relOid rel privs = Inr colp \<and>
        new = set_columns relOid cols (cat\<lparr>RELOID := (RELOID cat)(relOid := Some rel')\<rparr>) \<and>
        (if privs = 0 then rel' = rel
         else \<exists>b. rel' = rel\<lparr>relacl := Some b\<rparr> \<and> acl_ok b \<and>
                list_step cat istmt (relowner rel) acl privs (ACL_DAT acl) (ACL_DAT b)) \<and>
        columns_step cat istmt (relowner rel) (aclcopy acl) FirstLowInvalidHeapAttributeNumber colp (ATTNUM cat relOid) cols)"

definition holds_option :: "AclItem list \<Rightarrow> Oid \<Rightarrow> nat \<Rightarrow> bool" where
  "holds_option items g p \<longleftrightarrow> (\<exists>j \<in> set items. ai_grantee j = g \<and> bit (ai_privs j) (32 + p))"

text \<open>Every right that was not granted by the owner was granted by a role with the grant option in \<open>support\<close>.\<close>

definition grounded_in :: "Oid \<Rightarrow> AclItem list \<Rightarrow> AclItem list \<Rightarrow> bool" where
  "grounded_in ownerId support items \<longleftrightarrow>
     (\<forall>i \<in> set items. ai_grantor i \<noteq> ownerId \<longrightarrow>
        (\<forall>p < 32. bit (ai_privs i) p \<longrightarrow> holds_option support (ai_grantor i) p))"

definition list_grounded :: "Oid \<Rightarrow> Acl option \<Rightarrow> bool" where
  "list_grounded ownerId acl \<longleftrightarrow> grounded_in ownerId (items_of acl) (items_of acl)"

text \<open>The grantor of a right on a column can have its grant option on the column or on the relation.\<close>

definition catalog_grounded :: "system_catalog \<Rightarrow> bool" where
  "catalog_grounded cat \<longleftrightarrow>
     (\<forall>t rel. RELOID cat t = Some rel \<longrightarrow> list_grounded (relowner rel) (relacl rel) \<and>
        (\<forall>n att. ATTNUM cat t n = Some att \<longrightarrow>
           grounded_in (relowner rel) (items_of (relacl rel) @ items_of (attacl att)) (items_of (attacl att)))) \<and>
     (\<forall>t typ. TYPEOID cat t = Some typ \<longrightarrow> list_grounded (typowner typ) (typacl typ)) \<and>
     (\<forall>c oid obj. object_cache cat c oid = Some obj \<longrightarrow> list_grounded (obj_owner obj) (obj_acl obj)) \<and>
     list_all (\<lambda>par. list_grounded BOOTSTRAP_SUPERUSERID (paracl par)) (pg_parameter_acl cat)"

text \<open>
  Every right and grant option that is new in \<open>ys\<close> was given to a grantee of the statement, by a role whose
  privileges the user has, which is the owner or holds the grant option in \<open>support\<close>.
\<close>

definition added_by_grantors :: "system_catalog \<Rightarrow> InternalGrant \<Rightarrow> Oid \<Rightarrow> AclItem list \<Rightarrow> AclItem list \<Rightarrow> AclItem list \<Rightarrow> bool" where
  "added_by_grantors cat istmt ownerId support xs ys \<longleftrightarrow>
     (\<forall>x g p q. p < 32 \<longrightarrow> q \<in> {p, 32 + p} \<longrightarrow> bit (pair_rights ys (x, g)) q \<longrightarrow>
        bit (pair_rights xs (x, g)) q \<or>
        x \<in> set (grantees istmt) \<and> (q = 32 + p \<longrightarrow> grant_option istmt) \<and>
        privs_of (role_cat cat) (CurrentUserId (role_cat cat)) g \<and> (g = ownerId \<or> holds_option support g p))"

text \<open>The change of one list of an object that is not a relation.\<close>

definition object_change :: "system_catalog \<Rightarrow> InternalGrant \<Rightarrow> Oid \<Rightarrow> Acl option \<Rightarrow> Acl \<Rightarrow> bool" where
  "object_change cat istmt ownerId acl b \<longleftrightarrow>
     (\<exists>otype a. acl_or_default otype ownerId acl = Inr a \<and> acl_ok b \<and>
        list_step cat istmt ownerId a (privileges istmt) (ACL_DAT a) (ACL_DAT b))"

definition keeps :: "bool \<Rightarrow> system_catalog \<Rightarrow> system_catalog \<Rightarrow> bool" where
  "keeps isgrant cat new \<longleftrightarrow> catalog_wf new \<and> erase_lists new = erase_lists cat \<and>
     (isgrant \<longrightarrow> catalog_grounded cat \<longrightarrow> catalog_grounded new)"

definition lookup_keeps :: "'n name_lookup \<Rightarrow> bool" where
  "lookup_keeps look \<longleftrightarrow> (\<forall>stmt cat cat' oids. catalog_wf cat \<longrightarrow> stmt_objects look stmt cat = Inr (cat', oids) \<longrightarrow> keeps True cat cat')"

definition relation_items :: "pg_class_row \<Rightarrow> AclItem list" where
  "relation_items rel = (case acl_or_default (class_objtype rel) (relowner rel) (relacl rel) of Inl _ \<Rightarrow> [] | Inr a \<Rightarrow> ACL_DAT a)"

text \<open>The array of column privileges only gains bits.\<close>

definition gains :: "AclMode list \<Rightarrow> AclMode list \<Rightarrow> bool" where
  "gains xs ys \<longleftrightarrow> length ys = length xs \<and> (\<forall>i < length xs. \<forall>p. bit (xs ! i) p \<longrightarrow> bit (ys ! i) p)"

definition score_lookup :: "string name_lookup" where
  "score_lookup =
     \<lparr>objectNamesToOids = (\<lambda>otype names isgrant cat. if names = [''scores''] then Inr (cat, [20000])
        else ereport_error ''ERRCODE_UNDEFINED_TABLE'' ''relation %s does not exist''),
      objectsInSchemaToOids = (\<lambda>otype names cat. Inr (cat, [20000]))\<rparr>"

definition score_statement :: "string GrantStmt" where
  "score_statement =
     \<lparr>gs_is_grant = True, gs_targtype = ACL_TARGET_OBJECT, gs_objtype = OBJECT_TABLE, gs_objects = [''scores''],
      gs_privileges = [\<lparr>priv_name = Some ''select'', priv_cols = []\<rparr>], gs_grantees = [\<lparr>roletype = ROLESPEC_CSTRING, rolename = ''student''\<rparr>],
      gs_grant_option = True, gs_grantor = None, gs_behavior = DROP_RESTRICT\<rparr>"

definition score_grant :: "bool \<Rightarrow> AclMode \<Rightarrow> AccessPriv list \<Rightarrow> Oid list \<Rightarrow> bool \<Rightarrow> InternalGrant" where
  "score_grant isgrant privs cols gs goption =
     \<lparr>is_grant = isgrant, objtype = OBJECT_TABLE, objects = [20000], all_privs = False, privileges = privs, col_privs = cols,
      grantees = gs, grant_option = goption, behavior = DROP_CASCADE\<rparr>"

definition granted_items :: "Oid \<Rightarrow> int \<Rightarrow> grant_result \<Rightarrow> (AclItem list \<times> AclItem list) option" where
  "granted_items t n r = (case r of Some (Inr (new, _)) \<Rightarrow>
     (case (RELOID new t, ATTNUM new t n) of (Some rel, Some att) \<Rightarrow> Some (items_of (relacl rel), items_of (attacl att)) | _ \<Rightarrow> None) | _ \<Rightarrow> None)"

text \<open>
  The database of theory \<open>ObjectAcl\<close> with given lists for the table of scores and its column \<^verbatim>\<open>mark\<close>, and a given
  user. In the examples 101 owns the table, 102 may grant the right to select it, and has granted it for
  the column to 103.
\<close>

definition score_database :: "AclItem list \<Rightarrow> AclItem list \<Rightarrow> Oid \<Rightarrow> system_catalog" where
  "score_database rel_items mark_items user = score_catalog\<lparr>role_cat := score_roles\<lparr>CurrentUserId := user\<rparr>,
     RELOID := (\<lambda>t. if t = 20000 then Some (score_relation\<lparr>relacl := Some (allocacl rel_items)\<rparr>) else None),
     ATTNUM := (\<lambda>t n. if t = 20000 \<and> n = 1 then Some \<lparr>attname = ''student'', attisdropped = False, attacl = None\<rparr>
       else if t = 20000 \<and> n = 2 then Some \<lparr>attname = ''mark'', attisdropped = False, attacl = Some (allocacl mark_items)\<rparr>
       else if t = 20000 \<and> n \<in> {-6..-1} then Some \<lparr>attname = ''system'', attisdropped = False, attacl = None\<rparr> else None)\<rparr>"

definition owner_item :: AclItem where "owner_item = AclItem 101 101 ACL_ALL_RIGHTS_RELATION"
definition delegate_item :: AclItem where "delegate_item = AclItem 102 101 (PRIVS_GOPTIONS ACL_SELECT ACL_SELECT)"
definition column_item :: AclItem where "column_item = AclItem 103 102 ACL_SELECT"

definition column_grant :: InternalGrant where
  "column_grant = score_grant True 0 [\<lparr>priv_name = Some ''select'', priv_cols = [''mark'']\<rparr>] [103] False"

section \<open>One list\<close>

lemma update_returns:
  assumes "acl_ok a" and "acl_unique (ACL_DAT a)"
  shows "\<exists>r. aclupdate (update_fuel a m) cat a m chg ownerId beh = Some r"
  using aclupdate_returns [of a m "total_rights (ACL_DAT a) + count_one_bits (ai_privs m) + 1"] assms
  by (simp add: update_fuel_def)

lemma merge_grant:
  assumes "acl_ok a" and "acl_unique (ACL_DAT a)"
  shows "returns (\<lambda>b. acl_ok b \<and> acl_unique (ACL_DAT b) \<and> pair_rights (ACL_DAT b) = (\<lambda>p. pair_rights (ACL_DAT a) p OR
      (if fst p \<in> set gs \<and> snd p = grantor then PRIVS_GOPTIONS privs (if goption then privs else 0) else 0)))
    (merge_acl_with_grant cat True goption beh gs privs grantor ownerId a)"
  using assms
proof (induction gs arbitrary: a)
  case (Cons g gs)
  let ?m = "AclItem g grantor (PRIVS_GOPTIONS privs (if goption then privs else 0))"
  show ?case
  proof (cases "goption \<and> g = ACL_ID_PUBLIC")
    case False
    have "returns (\<lambda>b. acl_ok b \<and> acl_unique (ACL_DAT b) \<and> pair_rights (ACL_DAT b) =
        (pair_rights (ACL_DAT a))((g, grantor) := pair_rights (ACL_DAT a) (g, grantor) OR ai_privs ?m))
      (aclupdate (update_fuel a ?m) cat a ?m ACL_MODECHG_ADD ownerId beh)"
      using update_returns [OF Cons.prems, of ?m cat ACL_MODECHG_ADD ownerId beh]
        aclupdate_add_effect [of _ cat a ?m ownerId beh, OF _ Cons.prems(2)] unfolding returns_def by fastforce
    then have "returns (\<lambda>b. acl_ok b \<and> acl_unique (ACL_DAT b) \<and> pair_rights (ACL_DAT b) = (\<lambda>p. pair_rights (ACL_DAT a) p OR
        (if fst p \<in> set (g # gs) \<and> snd p = grantor then PRIVS_GOPTIONS privs (if goption then privs else 0) else 0)))
      (fbind (aclupdate (update_fuel a ?m) cat a ?m ACL_MODECHG_ADD ownerId beh)
         (merge_acl_with_grant cat True goption beh gs privs grantor ownerId))"
      by (rule returns_fbind) (rule returns_mono [OF Cons.IH], auto simp: fun_eq_iff or.assoc)
    then show ?thesis using False by (cases goption) (simp_all add: Let_def)
  qed auto
qed simp

lemma merge_revoke:
  assumes "acl_ok a" and "acl_unique (ACL_DAT a)"
  shows "returns (\<lambda>b. acl_ok b \<and> acl_unique (ACL_DAT b) \<and> sub_items (ACL_DAT b) (ACL_DAT a) \<and>
      (\<forall>g \<in> set gs. pair_rights (ACL_DAT b) (g, grantor) AND PRIVS_GOPTIONS (if goption then 0 else privs) privs = 0))
    (merge_acl_with_grant cat False goption beh gs privs grantor ownerId a)"
  using assms
proof (induction gs arbitrary: a)
  case (Cons g gs)
  let ?w = "PRIVS_GOPTIONS (if goption then 0 else privs) privs"
  let ?m = "AclItem g grantor ?w"
  have "returns (\<lambda>b. acl_ok b \<and> acl_unique (ACL_DAT b) \<and> sub_items (ACL_DAT b) (ACL_DAT a) \<and>
      (\<forall>n. bit (pair_rights (ACL_DAT b) (g, grantor)) n \<longrightarrow> \<not> bit ?w n))
    (aclupdate (update_fuel a ?m) cat a ?m ACL_MODECHG_DEL ownerId beh)"
    using update_returns [OF Cons.prems, of ?m cat ACL_MODECHG_DEL ownerId beh]
      del.upd_effect [of a, OF Cons.prems, of _ cat ?m ownerId beh] unfolding returns_def by fastforce
  then have "returns (\<lambda>b. acl_ok b \<and> acl_unique (ACL_DAT b) \<and> sub_items (ACL_DAT b) (ACL_DAT a) \<and>
      (\<forall>g \<in> set (g # gs). pair_rights (ACL_DAT b) (g, grantor) AND ?w = 0))
    (fbind (aclupdate (update_fuel a ?m) cat a ?m ACL_MODECHG_DEL ownerId beh)
       (merge_acl_with_grant cat False goption beh gs privs grantor ownerId))"
  proof (rule returns_fbind)
    fix c assume c: "acl_ok c \<and> acl_unique (ACL_DAT c) \<and> sub_items (ACL_DAT c) (ACL_DAT a) \<and>
      (\<forall>n. bit (pair_rights (ACL_DAT c) (g, grantor)) n \<longrightarrow> \<not> bit ?w n)"
    show "returns (\<lambda>b. acl_ok b \<and> acl_unique (ACL_DAT b) \<and> sub_items (ACL_DAT b) (ACL_DAT a) \<and>
        (\<forall>g \<in> set (g # gs). pair_rights (ACL_DAT b) (g, grantor) AND ?w = 0))
      (merge_acl_with_grant cat False goption beh gs privs grantor ownerId c)"
    proof (rule returns_mono [OF Cons.IH])
      fix b assume b: "acl_ok b \<and> acl_unique (ACL_DAT b) \<and> sub_items (ACL_DAT b) (ACL_DAT c) \<and>
        (\<forall>g \<in> set gs. pair_rights (ACL_DAT b) (g, grantor) AND ?w = 0)"
      then have "pair_rights (ACL_DAT b) (g, grantor) AND ?w = 0"
        using c sub_items_bits unfolding word_zero_bits bit_and_iff by blast
      with b c show "acl_ok b \<and> acl_unique (ACL_DAT b) \<and> sub_items (ACL_DAT b) (ACL_DAT a) \<and>
          (\<forall>g \<in> set (g # gs). pair_rights (ACL_DAT b) (g, grantor) AND ?w = 0)"
        using sub_items_trans by auto
    qed (use c in simp_all)
  qed
  then show ?case by (cases goption) (simp_all add: Let_def)
qed simp

lemma aclupdate_absent:
  assumes "acl_ok a" and "acl_unique (ACL_DAT a)" and "\<forall>i \<in> set (ACL_DAT a). ai_grantee i \<noteq> ai_grantee m"
  shows "aclupdate (update_fuel a m) cat a m ACL_MODECHG_DEL ownerId beh = Some (Inr (allocacl (ACL_DAT a)))"
proof -
  obtain n where n: "update_fuel a m = Suc n" by (simp add: update_fuel_def)
  have "modify_item (ACL_DAT a) m ACL_MODECHG_DEL = (ACL_DAT a, 0, 0)"
    using assms(2)
  proof (cases rule: modify_item_cases [where m = m and chg = ACL_MODECHG_DEL])
    case (present xs i ys)
    then show ?thesis using assms(3) by (auto simp: ai_pair_iff)
  qed (simp add: Let_def changed_rights_def)
  from aclupdate_del_Suc [OF assms(1) this] show ?thesis by (simp add: n)
qed

lemma merge_absent:
  assumes "acl_ok a" and "acl_unique (ACL_DAT a)" and "\<forall>i \<in> set (ACL_DAT a). ai_grantee i \<notin> set gs"
  shows "\<exists>b. merge_acl_with_grant cat False goption beh gs privs grantor ownerId a = Some (Inr b) \<and> ACL_DAT b = ACL_DAT a"
  using assms
proof (induction gs arbitrary: a)
  case (Cons g gs)
  have "aclupdate (update_fuel a (AclItem g grantor w)) cat a (AclItem g grantor w) ACL_MODECHG_DEL ownerId beh =
      Some (Inr (allocacl (ACL_DAT a)))" for w
    by (rule aclupdate_absent [OF Cons.prems(1,2)]) (use Cons.prems(3) in auto)
  then show ?case using Cons.IH [of "allocacl (ACL_DAT a)"] Cons.prems by (simp add: Let_def)
qed simp

lemma merge_merged:
  assumes "acl_ok a" and "acl_unique (ACL_DAT a)"
  shows "returns (\<lambda>b. acl_ok b \<and> merged istmt privs grantor (ACL_DAT a) (ACL_DAT b))
    (merge_acl_with_grant cat (is_grant istmt) (grant_option istmt) beh (grantees istmt) privs grantor ownerId a)"
proof (cases "is_grant istmt")
  case True
  then show ?thesis by (simp only: True) (rule returns_mono [OF merge_grant [OF assms]], simp add: merged_def True)
next
  case False
  have same: "ACL_DAT b = ACL_DAT a"
    if "merge_acl_with_grant cat False (grant_option istmt) beh (grantees istmt) privs grantor ownerId a = Some (Inr b)"
      "\<forall>i \<in> set (ACL_DAT a). ai_grantee i \<notin> set (grantees istmt)" for b
    using merge_absent [OF assms(1,2) that(2), of cat "grant_option istmt" beh privs grantor ownerId] that(1) by auto
  have isgrant: "is_grant istmt = False" using False by simp
  show ?thesis
    unfolding isgrant merged_def if_False
    by (rule returns_mono [OF merge_revoke [OF assms]]) (use same in blast)
qed

lemma grant_on_list_step:
  assumes "acl_ok a" and "acl_unique (ACL_DAT a)"
  shows "returns (\<lambda>(b, _). acl_ok b \<and> list_step cat istmt ownerId grantor_acl privs (ACL_DAT a) (ACL_DAT b))
    (grant_on_list cat istmt otype objectId attnum ownerId a grantor_acl allprivs privs)"
  unfolding grant_on_list_def
  apply (rule returns_step, clarify)
  apply (rule returns_step, clarify)
  apply (rule returns_fbind [OF merge_merged [OF assms]])
  apply (auto simp: list_step_def restrict_and_check_grant_def result_iff Let_def split: if_splits)
  done

section \<open>Columns\<close>

lemma old_list:
  assumes "list_wf acl" and "OidIsValid ownerId" and "acl_or_default otype ownerId acl = Inr a"
  shows "acl_ok a" and "acl_unique (ACL_DAT a)"
proof -
  have "acl_ok a \<and> acl_unique (ACL_DAT a)"
  proof (cases acl)
    case None
    then have default: "acldefault otype ownerId = Inr a" using assms(3) by (simp add: acl_or_default_def)
    moreover have "ownerId \<noteq> ACL_ID_PUBLIC" using assms(2) by (simp add: OidIsValid_def ACL_ID_PUBLIC_def)
    ultimately have "acl_unique (ACL_DAT a)" by (auto simp: acldefault_def result_iff acl_unique_def ai_pair_def)
    with acl_ok_default [OF default] show ?thesis by simp
  next
    case (Some b)
    then show ?thesis using assms(1,3) by (simp add: acl_or_default_def list_wf_def list_ok_def items_of_def)
  qed
  then show "acl_ok a" "acl_unique (ACL_DAT a)" by simp_all
qed

lemma old_column_list:
  assumes "list_wf acl"
  obtains a where "acl_or_default OBJECT_COLUMN ownerId acl = Inr a" "acl_ok a" "acl_unique (ACL_DAT a)" "ACL_DAT a = items_of acl"
proof (cases acl)
  case None
  have "acl_or_default OBJECT_COLUMN ownerId None = Inr (allocacl [])"
    by (simp add: acl_or_default_def acldefault_def default_rights_def)
  then show ?thesis using None by (intro that [of "allocacl []"]) (simp_all add: items_of_def acl_unique_def)
next
  case (Some a)
  then show ?thesis using assms
    by (intro that [of a]) (simp_all add: acl_or_default_def list_wf_def list_ok_def items_of_def)
qed

lemma set_columns_simps [simp]:
  "set_columns relOid (ATTNUM cat relOid) cat = cat" "ATTNUM (set_columns relOid cols cat) = (ATTNUM cat)(relOid := cols)"
  "set_columns relOid cols' (set_columns relOid cols cat) = set_columns relOid cols' cat"
  by (simp_all add: set_columns_def)

lemma ExecGrant_Attribute_step:
  assumes wf: "\<And>att. ATTNUM cat relOid n = Some att \<Longrightarrow> list_wf (attacl att)" and same: "ATTNUM new relOid n = ATTNUM cat relOid n"
  shows "returns (\<lambda>(new', _). \<exists>att'.
      new' = set_columns relOid ((ATTNUM new relOid)(n := att')) new \<and>
      column_step cat istmt ownerId rel_acl privs (ATTNUM cat relOid n) att')
    (ExecGrant_Attribute cat istmt relOid n ownerId privs rel_acl new)"
proof (cases "ATTNUM cat relOid n")
  case (Some att)
  define xs where "xs = items_of (attacl att)"
  obtain old where old: "acl_or_default OBJECT_COLUMN ownerId (attacl att) = Inr old" "acl_ok old"
      "acl_unique (ACL_DAT old)" "ACL_DAT old = xs"
    using old_column_list [OF wf [OF Some], of ownerId] unfolding xs_def by blast
  have con: "aclconcat rel_acl old = aclconcat rel_acl (allocacl xs)" by (simp add: aclconcat_def old)
  show ?thesis
    unfolding ExecGrant_Attribute_def Some option.simps old(1) fbind_simps con
    apply (rule returns_step)
    apply (rule returns_fbind [OF grant_on_list_step [OF old(2,3)]], clarify)
    apply (rule returns_step)
    apply (simp only: returns_simps)
    subgoal for oldmembers b ev newmembers
    proof -
      let ?acl = "if ACL_NUM b > 0 then Some b else None"
      assume b: "acl_ok b" "list_step cat istmt ownerId (aclconcat rel_acl (allocacl xs)) privs (ACL_DAT old) (ACL_DAT b)"
      have "items_of ?acl = ACL_DAT b" by (simp add: items_of_def)
      then have "column_step cat istmt ownerId rel_acl privs (Some att) (Some (att\<lparr>attacl := ?acl\<rparr>))"
        using b by (auto simp: column_step_def list_ok_def xs_def [symmetric] old)
      note step = this
      show ?thesis
      proof (cases "ACL_NUM b > 0 \<or> attacl att \<noteq> None")
        case True
        show ?thesis unfolding if_P [OF True] prod.case set_attacl_def set_columns_def
          by (rule exI, rule conjI [OF refl step])
      next
        case False
        then have "att\<lparr>attacl := ?acl\<rparr> = att" by (cases att) simp
        then have "(ATTNUM new relOid)(n := Some (att\<lparr>attacl := ?acl\<rparr>)) = ATTNUM new relOid"
          using same Some by (simp add: fun_eq_iff)
        then have eq: "new = set_columns relOid ((ATTNUM new relOid)(n := Some (att\<lparr>attacl := ?acl\<rparr>))) new"
          by (simp only: set_columns_simps(1))
        show ?thesis unfolding if_not_P [OF False] prod.case by (rule exI, rule conjI [OF eq step])
      qed
    qed
    done
qed (simp add: ExecGrant_Attribute_def)

lemma columns_step_Cons:
  assumes "if p = 0 then g = f else \<exists>att. g = f(base := att) \<and> column_step cat istmt ownerId rel_acl p (f base) att"
    and "columns_step cat istmt ownerId rel_acl (base + 1) ps g h"
  shows "columns_step cat istmt ownerId rel_acl base (p # ps) f h"
  unfolding columns_step_def
proof
  fix n
  have rest: "if base + 1 \<le> n \<and> n < base + 1 + int (length ps) \<and> ps ! nat (n - (base + 1)) \<noteq> 0
      then column_step cat istmt ownerId rel_acl (ps ! nat (n - (base + 1))) (g n) (h n) else h n = g n"
    using assms(2) unfolding columns_step_def by blast
  show "if base \<le> n \<and> n < base + int (length (p # ps)) \<and> (p # ps) ! nat (n - base) \<noteq> 0
      then column_step cat istmt ownerId rel_acl ((p # ps) ! nat (n - base)) (f n) (h n) else h n = f n"
  proof (cases "n = base")
    case True
    then show ?thesis using rest assms(1) by (auto split: if_splits)
  next
    case False
    then have g: "g n = f n" using assms(1) by (auto split: if_splits)
    have "(p # ps) ! nat (n - base) = ps ! nat (n - (base + 1))" if "base < n"
    proof -
      have "nat (n - base) = Suc (nat (n - (base + 1)))" using that by simp
      then show ?thesis by (simp only: nth_Cons_Suc)
    qed
    moreover have "base \<le> n \<and> n < base + int (length (p # ps)) \<longleftrightarrow> base + 1 \<le> n \<and> n < base + 1 + int (length ps)"
      using False by auto
    moreover have "base < n" if "base + 1 \<le> n" using that by simp
    ultimately show ?thesis using rest unfolding g by (auto simp del: length_Cons nth_Cons_Suc)
  qed
qed

lemma attribute_loop_step:
  assumes wf: "\<And>n att. ATTNUM cat relOid n = Some att \<Longrightarrow> list_wf (attacl att)"
    and "\<And>n. n \<ge> i + FirstLowInvalidHeapAttributeNumber \<Longrightarrow> ATTNUM new relOid n = ATTNUM cat relOid n"
  shows "returns (\<lambda>(new', _). \<exists>cols. new' = set_columns relOid cols new \<and>
      columns_step cat istmt ownerId rel_acl (i + FirstLowInvalidHeapAttributeNumber) colp (ATTNUM new relOid) cols)
    (attribute_loop cat istmt relOid ownerId rel_acl i colp new)"
  using assms(2)
proof (induction colp arbitrary: i new)
  case Nil
  have "columns_step cat istmt ownerId rel_acl b [] f f" for b f by (auto simp: columns_step_def)
  then have "\<exists>cols. new = set_columns relOid cols new \<and>
      columns_step cat istmt ownerId rel_acl (i + FirstLowInvalidHeapAttributeNumber) [] (ATTNUM new relOid) cols"
    by (intro exI [of _ "ATTNUM new relOid"]) simp
  then show ?case by simp
next
  case (Cons p ps)
  let ?base = "i + FirstLowInvalidHeapAttributeNumber"
  have IH: "returns (\<lambda>(new', _). \<exists>cols. new' = set_columns relOid cols c \<and>
        columns_step cat istmt ownerId rel_acl (?base + 1) ps (ATTNUM c relOid) cols)
      (attribute_loop cat istmt relOid ownerId rel_acl (i + 1) ps c)"
    if "\<And>n. n \<ge> ?base + 1 \<Longrightarrow> ATTNUM c relOid n = ATTNUM cat relOid n" for c
    using Cons.IH [of "i + 1" c] that by (simp add: algebra_simps)
  show ?case
  proof (cases "p = 0")
    case True
    have up: "columns_step cat istmt ownerId rel_acl ?base (p # ps) (ATTNUM new relOid) cols"
      if "columns_step cat istmt ownerId rel_acl (?base + 1) ps (ATTNUM new relOid) cols" for cols
      by (rule columns_step_Cons [OF _ that]) (simp add: True)
    have "returns (\<lambda>(new', _). \<exists>cols. new' = set_columns relOid cols new \<and>
        columns_step cat istmt ownerId rel_acl ?base (p # ps) (ATTNUM new relOid) cols)
      (attribute_loop cat istmt relOid ownerId rel_acl (i + 1) ps new)"
      by (rule returns_mono [OF IH]) (use Cons.prems up in \<open>fastforce+\<close>)
    then show ?thesis using True by simp
  next
    case False
    have old: "ATTNUM new relOid ?base = ATTNUM cat relOid ?base" by (rule Cons.prems) simp
    show ?thesis
      unfolding attribute_loop.simps if_not_P [OF False [folded ACL_NO_RIGHTS_def]]
    proof (rule returns_fbind [OF ExecGrant_Attribute_step], goal_cases wf old step)
      case (step r)
      then obtain att ev where r: "r = (set_columns relOid ((ATTNUM new relOid)(?base := att)) new, ev)"
        and att: "column_step cat istmt ownerId rel_acl p (ATTNUM cat relOid ?base) att" by auto
      let ?c = "set_columns relOid ((ATTNUM new relOid)(?base := att)) new"
      have "returns (\<lambda>(new', _). \<exists>cols. new' = set_columns relOid cols ?c \<and>
          columns_step cat istmt ownerId rel_acl (?base + 1) ps (ATTNUM ?c relOid) cols)
        (attribute_loop cat istmt relOid ownerId rel_acl (i + 1) ps ?c)"
        by (rule IH) (use Cons.prems in simp)
      moreover have "columns_step cat istmt ownerId rel_acl ?base (p # ps) (ATTNUM new relOid) cols"
        if "columns_step cat istmt ownerId rel_acl (?base + 1) ps ((ATTNUM new relOid)(?base := att)) cols" for cols
        by (rule columns_step_Cons [OF _ that]) (use False att old in auto)
      ultimately show ?case unfolding r prod.case by (elim returns_fbind) fastforce
    qed (use wf old in auto)
  qed
qed

section \<open>Relations\<close>

lemma columns_step_none: "columns_step cat istmt ownerId rel_acl base (no_columns rel) f f"
  by (auto simp: columns_step_def no_columns_def)

lemma grant_relation_level_step:
  assumes "acl_ok acl" and "acl_unique (ACL_DAT acl)"
  shows "returns (\<lambda>(new, _). \<exists>rel'. new = (if privs = 0 then cat else cat\<lparr>RELOID := (RELOID cat)(relOid := Some rel')\<rparr>) \<and>
      (if privs = 0 then rel' = rel
       else \<exists>b. rel' = rel\<lparr>relacl := Some b\<rparr> \<and> acl_ok b \<and>
              list_step cat istmt (relowner rel) acl privs (ACL_DAT acl) (ACL_DAT b)))
    (grant_relation_level cat istmt relOid rel privs acl oldmembers)"
proof (cases "privs = 0")
  case False
  show ?thesis
    unfolding grant_relation_level_def if_not_P [OF False [folded ACL_NO_RIGHTS_def]] if_not_P [OF False]
    apply (rule returns_fbind [OF grant_on_list_step [OF assms]], clarify)
    apply (rule returns_step)
    apply (auto simp: set_relacl_def)
    done
qed (simp add: grant_relation_level_def)

lemma attribute_part_step:
  assumes "\<And>n att. ATTNUM cat relOid n = Some att \<Longrightarrow> list_wf (attacl att)" and new: "ATTNUM new relOid = ATTNUM cat relOid"
    and none: "\<not> b \<Longrightarrow> colp = no_columns rel"
  shows "returns (\<lambda>(new', _). \<exists>cols. new' = set_columns relOid cols new \<and>
      columns_step cat istmt ownerId rel_acl FirstLowInvalidHeapAttributeNumber colp (ATTNUM cat relOid) cols)
    (if b then attribute_loop cat istmt relOid ownerId rel_acl 0 colp new else Some (Inr (new, [])))"
proof (cases b)
  case True
  have "returns (\<lambda>(new', _). \<exists>cols. new' = set_columns relOid cols new \<and>
      columns_step cat istmt ownerId rel_acl (0 + FirstLowInvalidHeapAttributeNumber) colp (ATTNUM new relOid) cols)
    (attribute_loop cat istmt relOid ownerId rel_acl 0 colp new)"
    by (rule attribute_loop_step) (use assms(1) new in auto)
  then show ?thesis using True new by simp
next
  case False
  have "\<exists>cols. new = set_columns relOid cols new \<and>
      columns_step cat istmt ownerId rel_acl FirstLowInvalidHeapAttributeNumber colp (ATTNUM cat relOid) cols"
    unfolding none [OF False] by (rule exI [of _ "ATTNUM new relOid"]) (simp add: new [symmetric] columns_step_none)
  then show ?thesis using False by simp
qed

lemma returns_if_step:
  "(\<And>y. (if b then x else x') = Inr y \<Longrightarrow> returns Q (f y)) \<Longrightarrow> returns Q (fbind (if b then Some x else Some x') f)"
  using returns_step [of x Q f] returns_step [of x' Q f] by simp

lemma grant_relation_step:
  assumes "catalog_wf cat"
  shows "returns (\<lambda>(new, _). relation_step istmt relOid cat new) (grant_relation istmt relOid cat)"
proof (cases "RELOID cat relOid")
  case (Some rel)
  have rel: "list_wf (relacl rel)" "OidIsValid (relowner rel)" and att: "\<And>n att. ATTNUM cat relOid n = Some att \<Longrightarrow> list_wf (attacl att)"
    using assms Some unfolding catalog_wf_def by blast+
  have none: "replicate (nat (relnatts rel - FirstLowInvalidHeapAttributeNumber + 1)) ACL_NO_RIGHTS = no_columns rel"
    by (simp add: no_columns_def)
  have same: "cat\<lparr>RELOID := (RELOID cat)(relOid := Some rel)\<rparr> = cat" using Some by (cases cat) (simp add: fun_upd_idem)
  show ?thesis
    unfolding grant_relation_def Some option.simps none Let_def
    apply (rule returns_step, clarify)
    apply (rule returns_if_step)
    apply (rule returns_step)
    apply (rule returns_step)
    apply (rule returns_fbind [OF grant_relation_level_step])
      apply (erule old_list [OF rel])
     apply (erule old_list [OF rel])
    apply (clarify)
    apply (rule returns_step, clarify)
    apply (rule returns_fbind [OF attribute_part_step [where rel = rel]])
       apply (erule att)
      apply simp
     apply (force split: if_splits)
    apply clarify
    apply (simp only: returns_simps prod.case)
    subgoal premises prems for privs ev1 colp0 acl members new ev2 rel' colp ev3 new' ev4 cols
      unfolding relation_step_def
      apply (rule exI [of _ rel], rule exI [of _ privs], rule exI [of _ ev1], rule exI [of _ acl], rule exI [of _ colp],
        rule exI [of _ rel'], rule exI [of _ cols])
      apply (intro conjI)
      subgoal by (rule Some)
      subgoal by (rule prems)
      subgoal by (rule prems)
      subgoal using prems by (simp add: statement_columns_def split: if_splits)
      subgoal using prems same by (simp split: if_splits)
      subgoal by (rule prems)
      subgoal by (rule prems)
      done
    done
qed (simp add: grant_relation_def)

lemma list_step_unique: "list_step cat istmt ownerId acl privs xs ys \<Longrightarrow> acl_unique ys"
  by (auto simp: list_step_def merged_def)

lemma column_step_row:
  assumes "column_step cat istmt ownerId acl privs old new"
  obtains att acl' where "old = Some att" "new = Some (att\<lparr>attacl := acl'\<rparr>)" "list_wf acl'"
  using assms list_step_unique by (fastforce simp: column_step_def list_wf_def)

lemma columns_step_row:
  assumes "columns_step cat istmt ownerId acl base colp old new"
  shows "new n = old n \<or> (\<exists>att acl'. old n = Some att \<and> new n = Some (att\<lparr>attacl := acl'\<rparr>) \<and> list_wf acl')"
proof -
  have "new n = old n \<or> (\<exists>privs. column_step cat istmt ownerId acl privs (old n) (new n))"
    using assms unfolding columns_step_def by (metis (full_types))
  then show ?thesis using column_step_row by metis
qed

lemma relation_step_row:
  assumes "relation_step istmt relOid cat new" and "catalog_wf cat"
  obtains rel acl cols where "RELOID cat relOid = Some rel"
    "new = set_columns relOid cols (cat\<lparr>RELOID := (RELOID cat)(relOid := Some (rel\<lparr>relacl := acl\<rparr>))\<rparr>)" "list_wf acl"
    "\<And>n. cols n = ATTNUM cat relOid n \<or>
      (\<exists>att acl'. ATTNUM cat relOid n = Some att \<and> cols n = Some (att\<lparr>attacl := acl'\<rparr>) \<and> list_wf acl')"
proof -
  from assms(1) obtain rel privs acl colp rel' cols where
    rel: "RELOID cat relOid = Some rel" and new: "new = set_columns relOid cols (cat\<lparr>RELOID := (RELOID cat)(relOid := Some rel')\<rparr>)"
    and rel': "if privs = 0 then rel' = rel else \<exists>b. rel' = rel\<lparr>relacl := Some b\<rparr> \<and> acl_ok b \<and>
      list_step cat istmt (relowner rel) acl privs (ACL_DAT acl) (ACL_DAT b)"
    and cols: "columns_step cat istmt (relowner rel) (aclcopy acl) FirstLowInvalidHeapAttributeNumber colp (ATTNUM cat relOid) cols"
    unfolding relation_step_def by blast
  have old: "list_wf (relacl rel)" using assms(2) rel unfolding catalog_wf_def by blast
  obtain acl' where "rel' = rel\<lparr>relacl := acl'\<rparr>" "list_wf acl'"
  proof (cases "privs = 0")
    case True
    then show ?thesis using rel' old that [of "relacl rel"] by simp
  next
    case False
    with rel' obtain b where "rel' = rel\<lparr>relacl := Some b\<rparr>" "acl_ok b" "acl_unique (ACL_DAT b)" using list_step_unique by auto
    then show ?thesis using that [of "Some b"] by (simp add: list_wf_def list_ok_def items_of_def)
  qed
  then show ?thesis using that rel new columns_step_row [OF cols] by metis
qed

lemma relation_step_wf:
  assumes "relation_step istmt relOid cat new" and "catalog_wf cat"
  shows "catalog_wf new" and "erase_lists new = erase_lists cat"
proof -
  obtain rel acl cols where rel: "RELOID cat relOid = Some rel"
    and new: "new = set_columns relOid cols (cat\<lparr>RELOID := (RELOID cat)(relOid := Some (rel\<lparr>relacl := acl\<rparr>))\<rparr>)" and acl: "list_wf acl"
    and cols: "\<And>n. cols n = ATTNUM cat relOid n \<or>
      (\<exists>att acl'. ATTNUM cat relOid n = Some att \<and> cols n = Some (att\<lparr>attacl := acl'\<rparr>) \<and> list_wf acl')"
    by (rule relation_step_row [OF assms]) blast
  have wf: "\<And>t rel. RELOID cat t = Some rel \<Longrightarrow> list_wf (relacl rel) \<and> OidIsValid (relowner rel)"
    "\<And>t n att. ATTNUM cat t n = Some att \<Longrightarrow> list_wf (attacl att)"
    using assms(2) unfolding catalog_wf_def by blast+
  have "list_wf (attacl att)" if "cols n = Some att" for n att using cols [of n] wf(2) that by fastforce
  then have new_wf: "ATTNUM new t n = Some att \<Longrightarrow> list_wf (attacl att)" "RELOID new t = Some r \<Longrightarrow> list_wf (relacl r) \<and> OidIsValid (relowner r)" for t n att r
    using wf acl rel by (auto simp: new set_columns_def split: if_splits)
  have rest: "role_cat new = role_cat cat" "TYPEOID new = TYPEOID cat" "object_cache new = object_cache cat"
    "pg_parameter_acl new = pg_parameter_acl cat" by (simp_all add: new set_columns_def)
  show "catalog_wf new" using assms(2) new_wf unfolding catalog_wf_def rest by blast
  have "map_option (\<lambda>att. att\<lparr>attacl := None\<rparr>) (cols n) = map_option (\<lambda>att. att\<lparr>attacl := None\<rparr>) (ATTNUM cat relOid n)" for n
    using cols [of n] by auto
  then show "erase_lists new = erase_lists cat"
    by (simp add: erase_lists_def new set_columns_def fun_eq_iff rel)
qed

lemma relation_step_frame: "relation_step istmt relOid cat new \<Longrightarrow> t \<noteq> relOid \<Longrightarrow> RELOID new t = RELOID cat t \<and> ATTNUM new t = ATTNUM cat t"
  by (auto simp: relation_step_def set_columns_def)

section \<open>Where grants come from\<close>

lemma best_grantor_loop_direct:
  assumes "acl_ok acl" and "best_grantor_loop (Some acl) ownerId needed roles g opts n = Inr (g', opts')"
  shows "g' = g \<and> opts' = opts \<or> g' \<in> set roles \<and> opts' = needed AND direct_rights g' ownerId (ACL_DAT acl)"
  using assms(2)
proof (induction roles arbitrary: g opts n)
  case (Cons r roles)
  then show ?case using aclmask_direct_all [OF assms(1), of r ownerId needed]
    by (auto split: if_splits)
qed simp

lemma bit_direct_option:
  assumes "p < 32" and "bit (direct_rights g ownerId items) (32 + p)"
  shows "g = ownerId \<or> holds_option items g p"
  using assms by (auto simp: direct_rights_def holds_option_def bit_or_iff bit_or_rights bit_simps split: if_splits)

text \<open>The grantor is a role whose privileges the user has, and can grant what it is asked to.\<close>

lemma grantor_cases:
  assumes ok: "acl_ok acl" and sel: "select_best_grantor roles user privs (Some acl) ownerId = Inr (g, avail)"
  shows "privs_of roles user g"
    and "bit (ACL_OPTION_TO_PRIVS avail) p \<Longrightarrow> p < 32 \<and> bit privs p \<and> (g = ownerId \<or> holds_option (ACL_DAT acl) g p)"
proof -
  have "privs_of roles user g \<and>
    (bit (ACL_OPTION_TO_PRIVS avail) p \<longrightarrow> p < 32 \<and> bit privs p \<and> (g = ownerId \<or> holds_option (ACL_DAT acl) g p))"
  proof (cases "user = ownerId \<or> superuser_arg roles user")
    case True
    then have "g = ownerId" "avail = ACL_GRANT_OPTION_FOR privs" using sel by (auto simp: select_best_grantor_def)
    then show ?thesis using True by (auto simp: privs_of_def has_privs_of_role_def bit_OPTION_TO_PRIVS bit_GRANT_OPTION_FOR)
  next
    case False
    then obtain l a where l: "roles_is_member_of roles user ROLERECURSE_PRIVS InvalidOid = Inr (l, a)"
      and loop: "best_grantor_loop (Some acl) ownerId (ACL_GRANT_OPTION_FOR privs) l user 0 0 = Inr (g, avail)"
      using sel by (auto simp: select_best_grantor_def result_iff)
    have "privs_of roles user g" if "g \<in> set l" using that l False by (simp add: privs_of_def has_privs_of_role_def)
    then show ?thesis using best_grantor_loop_direct [OF ok loop] bit_direct_option [of p g ownerId "ACL_DAT acl"]
      by (auto simp: bit_OPTION_TO_PRIVS bit_GRANT_OPTION_FOR bit_and_iff)
  qed
  then show "privs_of roles user g"
    "bit (ACL_OPTION_TO_PRIVS avail) p \<Longrightarrow> p < 32 \<and> bit privs p \<and> (g = ownerId \<or> holds_option (ACL_DAT acl) g p)" by blast+
qed

lemma list_step_added:
  assumes "is_grant istmt" and "list_step cat istmt ownerId gacl privs xs ys" and ok: "acl_ok gacl"
  shows "added_by_grantors cat istmt ownerId (ACL_DAT gacl) xs ys"
proof -
  from assms(1,2) obtain grantor avail where
    sel: "select_best_grantor (role_cat cat) (CurrentUserId (role_cat cat)) privs (Some gacl) ownerId = Inr (grantor, avail)"
    and ys: "pair_rights ys = (\<lambda>p. pair_rights xs p OR (if fst p \<in> set (grantees istmt) \<and> snd p = grantor
       then PRIVS_GOPTIONS (privs AND ACL_OPTION_TO_PRIVS avail) (if grant_option istmt then privs AND ACL_OPTION_TO_PRIVS avail else 0) else 0))"
    unfolding list_step_def merged_def by auto
  have "x \<in> set (grantees istmt) \<and> g = grantor \<and> bit (ACL_OPTION_TO_PRIVS avail) p \<and> (q = 32 + p \<longrightarrow> grant_option istmt)"
    if "bit (pair_rights ys (x, g)) q" "q \<in> {p, 32 + p}" "p < 32" "\<not> bit (pair_rights xs (x, g)) q" for x g p q
    using that unfolding ys by (auto simp: bit_or_iff bit_PRIVS_GOPTIONS bit_and_iff split: if_splits)
  then show ?thesis using grantor_cases [OF ok sel] unfolding added_by_grantors_def by blast
qed

lemma added_mono:
  "added_by_grantors cat istmt ownerId support xs ys \<Longrightarrow>
     (\<And>g p. p < 32 \<Longrightarrow> holds_option support g p \<Longrightarrow> holds_option support' g p) \<Longrightarrow> added_by_grantors cat istmt ownerId support' xs ys"
  unfolding added_by_grantors_def by blast

lemma added_refl: "added_by_grantors cat istmt ownerId support xs xs"
  unfolding added_by_grantors_def by blast

lemma kept_bit:
  assumes "is_grant istmt" and "list_step cat istmt ownerId gacl privs xs ys" and "bit (pair_rights xs q) p"
  shows "bit (pair_rights ys q) p"
  using assms unfolding list_step_def merged_def by (auto simp: bit_or_iff)

lemma holds_option_pairs: "holds_option items g p \<longleftrightarrow> (\<exists>r. bit (pair_rights items (g, r)) (32 + p))"
  unfolding holds_option_def bit_pair_rights ai_pair_def prod.inject by blast

lemma holds_option_kept:
  assumes "is_grant istmt" and "list_step cat istmt ownerId gacl privs xs ys" and "holds_option xs g p"
  shows "holds_option ys g p"
  using assms(3) kept_bit [OF assms(1,2)] unfolding holds_option_pairs by blast

lemma holds_option_append: "holds_option (xs @ ys) g p \<longleftrightarrow> holds_option xs g p \<or> holds_option ys g p"
  by (auto simp: holds_option_def)

lemma grounded_in_pairs:
  "grounded_in ownerId support items \<longleftrightarrow>
     (\<forall>x g p. g \<noteq> ownerId \<longrightarrow> p < 32 \<longrightarrow> bit (pair_rights items (x, g)) p \<longrightarrow> holds_option support g p)"
  unfolding grounded_in_def bit_pair_rights ai_pair_def by blast

lemma grounded_grant:
  assumes "is_grant istmt" and "list_step cat istmt ownerId gacl privs xs ys" and "acl_ok gacl"
    and old: "grounded_in ownerId support xs" and sup: "\<And>g p. p < 32 \<Longrightarrow> holds_option (ACL_DAT gacl) g p \<Longrightarrow> holds_option support g p"
  shows "grounded_in ownerId support ys"
  using old list_step_added [OF assms(1-3)] sup unfolding grounded_in_pairs added_by_grantors_def by blast

lemma grounded_in_mono:
  "grounded_in ownerId support items \<Longrightarrow> (\<And>g p. p < 32 \<Longrightarrow> holds_option support g p \<Longrightarrow> holds_option support' g p) \<Longrightarrow>
     grounded_in ownerId support' items"
  unfolding grounded_in_def by blast

text \<open>The default list has no grant options, and its rights are granted by the owner.\<close>

lemma default_options:
  assumes "acl_or_default otype ownerId acl = Inr a"
  shows "p < 32 \<Longrightarrow> holds_option (ACL_DAT a) g p \<longleftrightarrow> holds_option (items_of acl) g p"
    and "grounded_in ownerId support (ACL_DAT a) \<longleftrightarrow> grounded_in ownerId support (items_of acl)"
  using assms by (auto simp: acl_or_default_def acldefault_def result_iff items_of_def holds_option_def grounded_in_def bit_PRIVS_GOPTIONS
    ACL_NO_RIGHTS_def split: option.splits if_splits)

lemma grounded_list:
  assumes g: "is_grant istmt" and step: "list_step cat istmt ownerId a privs (ACL_DAT a) (ACL_DAT b)"
    and a: "acl_or_default otype ownerId acl = Inr a" and ok: "acl_ok a" and "list_grounded ownerId acl"
  shows "list_grounded ownerId (Some b)"
proof -
  have "grounded_in ownerId (ACL_DAT b) (items_of acl)"
    using assms(5) holds_option_kept [OF g step] default_options(1) [OF a] unfolding list_grounded_def
    by (elim grounded_in_mono) blast
  then show ?thesis
    using grounded_grant [OF g step ok] holds_option_kept [OF g step] default_options(2) [OF a]
    by (simp add: list_grounded_def items_of_def)
qed

lemma grounded_column:
  assumes g: "is_grant istmt"
    and cols: "columns_step cat istmt ownerId (aclcopy a) FirstLowInvalidHeapAttributeNumber colp old new"
    and a: "acl_or_default otype ownerId acl = Inr a"
    and gr: "\<And>n att. old n = Some att \<Longrightarrow> grounded_in ownerId (items_of acl @ items_of (attacl att)) (items_of (attacl att))"
    and kept: "\<And>x p. holds_option (items_of acl) x p \<Longrightarrow> p < 32 \<Longrightarrow> holds_option (items_of acl') x p"
    and att: "new n = Some att"
  shows "grounded_in ownerId (items_of acl' @ items_of (attacl att)) (items_of (attacl att))"
proof -
  consider "new n = old n" | ps where "column_step cat istmt ownerId (aclcopy a) ps (old n) (new n)"
    using cols unfolding columns_step_def by (metis (full_types))
  then show ?thesis
  proof cases
    case 1
    then show ?thesis using gr [of n att] att kept by (auto elim!: grounded_in_mono simp: holds_option_append)
  next
    case 2
    then obtain att0 where att0: "old n = Some att0"
      and step: "list_step cat istmt ownerId (aclconcat (aclcopy a) (allocacl (items_of (attacl att0)))) ps (items_of (attacl att0)) (items_of (attacl att))"
      unfolding column_step_def att by auto
    show ?thesis
      using gr [OF att0] kept holds_option_kept [OF g step]
      by (intro grounded_grant [OF g step])
        (auto elim!: grounded_in_mono simp: holds_option_append aclconcat_def aclcopy_def default_options(1) [OF a])
  qed
qed

lemma relation_step_grounded:
  assumes "relation_step istmt relOid cat new" and "catalog_wf cat" and g: "is_grant istmt" and "catalog_grounded cat"
  shows "catalog_grounded new"
proof -
  from assms(1) obtain rel privs acl colp rel' cols where
    rel: "RELOID cat relOid = Some rel" and new: "new = set_columns relOid cols (cat\<lparr>RELOID := (RELOID cat)(relOid := Some rel')\<rparr>)"
    and acl: "acl_or_default (class_objtype rel) (relowner rel) (relacl rel) = Inr acl"
    and rel': "if privs = 0 then rel' = rel else \<exists>b. rel' = rel\<lparr>relacl := Some b\<rparr> \<and> acl_ok b \<and>
      list_step cat istmt (relowner rel) acl privs (ACL_DAT acl) (ACL_DAT b)"
    and cols: "columns_step cat istmt (relowner rel) (aclcopy acl) FirstLowInvalidHeapAttributeNumber colp (ATTNUM cat relOid) cols"
    unfolding relation_step_def by blast
  let ?own = "relowner rel"
  have wf: "list_wf (relacl rel)" "OidIsValid ?own" using assms(2) rel unfolding catalog_wf_def by blast+
  have gr: "list_grounded ?own (relacl rel)"
    "\<And>n att. ATTNUM cat relOid n = Some att \<Longrightarrow> grounded_in ?own (items_of (relacl rel) @ items_of (attacl att)) (items_of (attacl att))"
    using assms(4) rel unfolding catalog_grounded_def by blast+
  note ok = old_list(1) [OF wf acl] and opt = default_options [OF acl]
  have own: "relowner rel' = ?own" using rel' by (auto split: if_splits)
  have kept: "holds_option (items_of (relacl rel')) x p" if "holds_option (items_of (relacl rel)) x p" "p < 32" for x p
    using rel' that holds_option_kept [OF g, of cat ?own acl privs "ACL_DAT acl"] opt(1) by (auto simp: items_of_def split: if_splits)
  have rel_gr: "list_grounded ?own (relacl rel')"
    using rel' gr(1) grounded_list [OF g _ acl ok gr(1)] by (auto split: if_splits)
  have col_gr: "grounded_in ?own (items_of (relacl rel') @ items_of (attacl att)) (items_of (attacl att))" if "cols n = Some att" for n att
    by (rule grounded_column [OF g cols acl gr(2) kept that])
  have rest: "TYPEOID new = TYPEOID cat" "object_cache new = object_cache cat"
    "pg_parameter_acl new = pg_parameter_acl cat" by (simp_all add: new set_columns_def)
  have "list_grounded (relowner r) (relacl r) \<and> (\<forall>n att. ATTNUM new t n = Some att \<longrightarrow>
      grounded_in (relowner r) (items_of (relacl r) @ items_of (attacl att)) (items_of (attacl att)))" if "RELOID new t = Some r" for t r
    using that assms(4) rel_gr col_gr own unfolding catalog_grounded_def new by (auto simp: set_columns_def split: if_splits)
  with assms(4) show ?thesis unfolding catalog_grounded_def rest by blast
qed

section \<open>Other objects\<close>

lemma object_changeI:
  "acl_or_default otype ownerId acl = Inr a \<Longrightarrow> acl_ok b \<Longrightarrow>
     list_step cat istmt ownerId a (privileges istmt) (ACL_DAT a) (ACL_DAT b) \<Longrightarrow> object_change cat istmt ownerId acl b"
  unfolding object_change_def by blast

lemma object_change_wf:
  assumes "object_change cat istmt ownerId acl b" and "list_wf acl" and "OidIsValid ownerId"
  shows "list_wf (Some b)" and "is_grant istmt \<Longrightarrow> list_grounded ownerId acl \<Longrightarrow> list_grounded ownerId (Some b)"
proof -
  from assms(1) obtain otype a where a: "acl_or_default otype ownerId acl = Inr a" and b: "acl_ok b"
    "list_step cat istmt ownerId a (privileges istmt) (ACL_DAT a) (ACL_DAT b)" unfolding object_change_def by blast
  show "list_wf (Some b)" using b list_step_unique by (simp add: list_wf_def list_ok_def items_of_def)
  assume g: "is_grant istmt" and "list_grounded ownerId acl"
  then show "list_grounded ownerId (Some b)" using grounded_list [OF g b(2) a old_list(1) [OF assms(2,3) a]] by blast
qed

lemma set_object_acl_keeps:
  assumes row: "object_acl_row cat classid oid = Some (ownerId, acl)" and "object_change cat istmt ownerId acl b" and "catalog_wf cat"
  shows "keeps (is_grant istmt) cat (set_object_acl classid oid b cat)"
proof -
  have "list_wf acl" "OidIsValid ownerId" "catalog_grounded cat \<Longrightarrow> list_grounded ownerId acl"
    using row assms(3) unfolding object_acl_row_def catalog_wf_def catalog_grounded_def by (auto split: if_splits)
  note b = object_change_wf [OF assms(2) this(1,2)] and this
  then show ?thesis
    using row assms(3) unfolding keeps_def catalog_wf_def catalog_grounded_def set_object_acl_def object_acl_row_def
    by (auto simp: erase_lists_def fun_eq_iff split: if_splits)
qed

lemma grant_object_keeps:
  assumes "catalog_wf cat"
  shows "returns (\<lambda>(new, _). keeps (is_grant istmt) cat new) (grant_object istmt classid object_check oid cat)"
proof (cases "object_acl_row cat classid oid")
  case (Some row)
  obtain ownerId acl where row: "object_acl_row cat classid oid = Some (ownerId, acl)" using Some by (cases row) simp
  have wf: "list_wf acl" "OidIsValid ownerId"
    using row assms unfolding object_acl_row_def catalog_wf_def by (auto split: if_splits)
  show ?thesis
    unfolding grant_object_def row option.simps prod.case
    apply (rule returns_step)+
    subgoal premises prems for _ otype a
      apply (rule returns_fbind [OF grant_on_list_step [OF old_list [OF wf prems(3)]]], clarify)
      apply (rule returns_step)
      using prems(3) row assms by (auto intro!: set_object_acl_keeps intro: object_changeI)
    done
qed (simp add: grant_object_def)

lemma grant_largeobject_keeps:
  assumes "catalog_wf cat"
  shows "returns (\<lambda>(new, _). keeps (is_grant istmt) cat new) (grant_largeobject istmt loid cat)"
proof (cases "object_cache cat LargeObjectMetadataRelationId loid")
  case (Some lo)
  have wf: "list_wf (obj_acl lo)" "OidIsValid (obj_owner lo)" using Some assms unfolding catalog_wf_def by blast+
  have row: "object_acl_row cat LargeObjectMetadataRelationId loid = Some (obj_owner lo, obj_acl lo)"
    using Some by (simp add: object_acl_row_def class_ids TypeRelationId_def)
  show ?thesis
    unfolding grant_largeobject_def Some option.simps
    apply (rule returns_step)+
    subgoal premises prems for a
      apply (rule returns_fbind [OF grant_on_list_step [OF old_list [OF wf prems(1)]]], clarify)
      apply (rule returns_step)
      using prems(1) row assms by (auto intro!: set_object_acl_keeps intro: object_changeI)
    done
qed (simp add: grant_largeobject_def)

lemma parameter_keeps:
  assumes "object_change cat istmt BOOTSTRAP_SUPERUSERID (paracl par) b" and "catalog_wf cat"
    and "par \<in> set (pg_parameter_acl cat)"
    and "rows = filter P (pg_parameter_acl cat) \<or> rows = map (\<lambda>p. if Q p then p\<lparr>paracl := Some b\<rparr> else p) (pg_parameter_acl cat)"
  shows "keeps (is_grant istmt) cat (cat\<lparr>pg_parameter_acl := rows\<rparr>)"
proof -
  have "list_wf (paracl par)" "catalog_grounded cat \<Longrightarrow> list_grounded BOOTSTRAP_SUPERUSERID (paracl par)"
    using assms(2,3) unfolding catalog_wf_def catalog_grounded_def list_all_iff by blast+
  moreover have "OidIsValid BOOTSTRAP_SUPERUSERID" by (simp add: OidIsValid_def BOOTSTRAP_SUPERUSERID_def)
  ultimately show ?thesis
    using assms(2,4) object_change_wf [OF assms(1)]
    unfolding keeps_def catalog_wf_def catalog_grounded_def list_all_iff by (auto simp: erase_lists_def)
qed

lemma grant_parameter_keeps:
  assumes "catalog_wf cat"
  shows "returns (\<lambda>(new, _). keeps (is_grant istmt) cat new) (grant_parameter istmt parameterId cat)"
proof (cases "find (\<lambda>par. par_oid par = parameterId) (pg_parameter_acl cat)")
  case (Some par)
  then have par: "par \<in> set (pg_parameter_acl cat)" by (auto simp: find_Some_iff)
  then have wf: "list_wf (paracl par)" "OidIsValid BOOTSTRAP_SUPERUSERID"
    using assms unfolding catalog_wf_def list_all_iff by (auto simp: OidIsValid_def BOOTSTRAP_SUPERUSERID_def)
  show ?thesis
    unfolding grant_parameter_def Some option.simps
    apply (rule returns_step)+
    subgoal premises prems for a
      apply (rule returns_fbind [OF grant_on_list_step [OF old_list [OF wf prems(1)]]], clarify)
      apply (rule returns_step)+
      apply (simp only: returns_simps prod.case)
      by (rule parameter_keeps [where P = "\<lambda>p. par_oid p \<noteq> parameterId" and Q = "\<lambda>p. par_oid p = parameterId",
            OF object_changeI [OF prems(1)] assms par]) auto
    done
qed (simp add: grant_parameter_def)

section \<open>Whole statements\<close>

lemma keeps_trans: "keeps b x y \<Longrightarrow> keeps b y z \<Longrightarrow> keeps b x z"
  by (simp add: keeps_def)

lemma keeps_refl: "catalog_wf cat \<Longrightarrow> keeps b cat cat"
  by (simp add: keeps_def)

text \<open>What a statement does to each of its objects in turn.\<close>

locale object_operation =
  fixes isgrant :: bool and operation :: "Oid \<Rightarrow> system_catalog \<Rightarrow> grant_result"
  assumes operation_keeps: "catalog_wf cat \<Longrightarrow> returns (\<lambda>(new, _). keeps isgrant cat new) (operation oid cat)"
begin

lemma loop_keeps: "catalog_wf cat \<Longrightarrow> returns (\<lambda>(new, _). keeps isgrant cat new) (for_objects operation oids cat)"
proof (induction oids arbitrary: cat)
  case (Cons oid oids)
  show ?case
    unfolding for_objects.simps
  proof (rule returns_fbind [OF operation_keeps [OF Cons.prems]], clarify)
    fix c ev assume c: "keeps isgrant cat c"
    then have "catalog_wf c" by (simp add: keeps_def)
    from Cons.IH [OF this] show "returns (\<lambda>(new, _). keeps isgrant cat new)
        (fbind (for_objects operation oids c) (\<lambda>(cat, more). Some (Inr (cat, ev @ more))))"
      by (rule returns_fbind) (use c in \<open>auto intro: keeps_trans\<close>)
  qed
qed (simp add: keeps_refl)

end

lemma grant_relation_keeps:
  assumes "catalog_wf cat"
  shows "returns (\<lambda>(new, _). keeps (is_grant istmt) cat new) (grant_relation istmt relOid cat)"
  by (rule returns_mono [OF grant_relation_step [OF assms]])
    (use assms relation_step_wf relation_step_grounded in \<open>auto simp: keeps_def\<close>)

lemma default_privileges_simps [simp]:
  "is_grant (default_privileges d istmt) = is_grant istmt" "objects (default_privileges d istmt) = objects istmt"
  by (simp_all add: default_privileges_def)

interpretation on_relation: object_operation "is_grant istmt" "grant_relation istmt" for istmt
  by unfold_locales (rule grant_relation_keeps)

interpretation on_object: object_operation "is_grant istmt" "grant_object istmt classid check" for istmt classid check
  by unfold_locales (rule grant_object_keeps)

interpretation on_largeobject: object_operation "is_grant istmt" "grant_largeobject istmt" for istmt
  by unfold_locales (rule grant_largeobject_keeps)

interpretation on_parameter: object_operation "is_grant istmt" "grant_parameter istmt" for istmt
  by unfold_locales (rule grant_parameter_keeps)

lemma ExecGrantStmt_oids_keeps:
  assumes "catalog_wf cat"
  shows "returns (\<lambda>(new, _). keeps (is_grant istmt) cat new) (ExecGrantStmt_oids istmt cat)"
proof -
  note loops = on_relation.loop_keeps [OF assms, of istmt] on_object.loop_keeps [OF assms, of "default_privileges d istmt" for d]
    on_largeobject.loop_keeps [OF assms, of "default_privileges d istmt" for d]
    on_parameter.loop_keeps [OF assms, of "default_privileges d istmt" for d]
  then show ?thesis
    by (cases "objtype istmt") (simp_all add: ExecGrantStmt_oids_def ExecGrant_Relation_def ExecGrant_common_def ExecGrant_Largeobject_def
      ExecGrant_Parameter_def Let_def)
qed

lemma ExecuteGrantStmt_keeps:
  assumes "catalog_wf cat" and "lookup_keeps look"
  shows "returns (\<lambda>(new, _). keeps (gs_is_grant stmt) cat new) (ExecuteGrantStmt look stmt cat)"
  unfolding ExecuteGrantStmt_def
  apply (rule returns_step)
  apply (rule returns_step, clarify)
  apply (rule returns_step)
  apply (rule returns_step, clarify)
  apply (rule returns_step, clarify)
  subgoal premises prems for cat' oids uids all kind cols privs
  proof -
    have keep: "keeps True cat cat'" using assms prems(1,2) unfolding lookup_keeps_def by blast
    then have "catalog_wf cat'" by (simp add: keeps_def)
    from ExecGrantStmt_oids_keeps [OF this] show ?thesis
      by (rule returns_mono) (use keep in \<open>auto simp: keeps_def\<close>)
  qed
  done

lemma owner_grant:
  assumes "user = ownerId \<or> superuser_arg roles user"
  shows "select_best_grantor roles user privs acl ownerId = Inr (ownerId, ACL_GRANT_OPTION_FOR privs)"
  using assms by (auto simp: select_best_grantor_def)

section \<open>One relation\<close>

lemma one_relation:
  assumes "catalog_wf cat" and "objects istmt = [relOid]" and "ExecGrant_Relation istmt cat = Some (Inr (new, events))"
  shows "relation_step istmt relOid cat new"
proof -
  from assms(2,3) obtain ev where "grant_relation istmt relOid cat = Some (Inr (new, ev))"
    by (auto simp: ExecGrant_Relation_def result_iff)
  with returnsD [OF grant_relation_step [OF assms(1)] this] show ?thesis by simp
qed

lemma relation_step_cases:
  assumes "relation_step istmt relOid cat new" and "catalog_wf cat" and rel: "RELOID cat relOid = Some rel"
  obtains privs warnings acl colp rel' where "relation_privileges istmt rel = Inr (privs, warnings)"
    "statement_columns istmt cat relOid rel privs = Inr colp"
    "acl_ok acl" "acl_unique (ACL_DAT acl)" "ACL_DAT acl = relation_items rel"
    "\<And>g p. p < 32 \<Longrightarrow> holds_option (ACL_DAT acl) g p \<longleftrightarrow> holds_option (items_of (relacl rel)) g p"
    "RELOID new relOid = Some rel'" "rel' = rel\<lparr>relacl := relacl rel'\<rparr>"
    "if privs = 0 then rel' = rel else list_step cat istmt (relowner rel) acl privs (relation_items rel) (relation_items rel')"
    "columns_step cat istmt (relowner rel) (aclcopy acl) FirstLowInvalidHeapAttributeNumber colp (ATTNUM cat relOid) (ATTNUM new relOid)"
proof -
  from assms(1) rel obtain privs warnings acl colp rel' cols where
    step: "relation_privileges istmt rel = Inr (privs, warnings)" "acl_or_default (class_objtype rel) (relowner rel) (relacl rel) = Inr acl"
    "statement_columns istmt cat relOid rel privs = Inr colp"
    "new = set_columns relOid cols (cat\<lparr>RELOID := (RELOID cat)(relOid := Some rel')\<rparr>)"
    "if privs = 0 then rel' = rel else \<exists>b. rel' = rel\<lparr>relacl := Some b\<rparr> \<and> acl_ok b \<and>
      list_step cat istmt (relowner rel) acl privs (ACL_DAT acl) (ACL_DAT b)"
    "columns_step cat istmt (relowner rel) (aclcopy acl) FirstLowInvalidHeapAttributeNumber colp (ATTNUM cat relOid) cols"
    unfolding relation_step_def by auto
  have wf: "list_wf (relacl rel)" "OidIsValid (relowner rel)" using assms(2) rel unfolding catalog_wf_def by blast+
  have items: "ACL_DAT acl = relation_items rel" by (simp add: relation_items_def step(2))
  show thesis
  proof (rule that [OF step(1,3) old_list [OF wf step(2)] items])
    show "RELOID new relOid = Some rel'" by (simp add: step(4) set_columns_def)
    show "rel' = rel\<lparr>relacl := relacl rel'\<rparr>" using step(5) by (auto split: if_splits)
    show "if privs = 0 then rel' = rel else list_step cat istmt (relowner rel) acl privs (relation_items rel) (relation_items rel')"
      using step(5) by (auto simp: items relation_items_def acl_or_default_def split: if_splits)
    show "columns_step cat istmt (relowner rel) (aclcopy acl) FirstLowInvalidHeapAttributeNumber colp (ATTNUM cat relOid) (ATTNUM new relOid)"
      using step(6) by (simp add: step(4))
  qed (use default_options(1) [OF step(2)] in blast)
qed

section \<open>Statements of the owner\<close>

lemma aclupdate_owner_add:
  assumes "acl_ok a" and "acl_unique (ACL_DAT a)"
  shows "\<exists>b. aclupdate (update_fuel a (AclItem g ownerId w)) cat a (AclItem g ownerId w) ACL_MODECHG_ADD ownerId beh = Some (Inr b)"
proof -
  let ?m = "AclItem g ownerId w"
  obtain n where n: "update_fuel a ?m = Suc n" by (simp add: update_fuel_def)
  obtain items og ng where mod: "modify_item (ACL_DAT a) ?m ACL_MODECHG_ADD = (items, og, ng)"
    by (cases "modify_item (ACL_DAT a) ?m ACL_MODECHG_ADD")
  note spec = modify_item_spec [OF assms(2) mod]
  have "og AND NOT ng = 0"
    unfolding word_eq_0_iff_bit bit_and_iff bit_not_iff spec(3,4) by (auto simp: changed_rights_def bit_or_iff)
  then show ?thesis using assms(1) by (auto simp: n mod Let_def acl_ok_def check_circularity_def)
qed

lemma owner_merge:
  assumes "acl_ok a" and "acl_unique (ACL_DAT a)" and "\<not> (goption \<and> ACL_ID_PUBLIC \<in> set gs)"
  shows "\<exists>b. merge_acl_with_grant cat True goption beh gs privs ownerId ownerId a = Some (Inr b) \<and> acl_ok b"
  using assms
proof (induction gs arbitrary: a)
  case (Cons g gs)
  define w where "w = PRIVS_GOPTIONS privs (if goption then privs else ACL_NO_RIGHTS)"
  obtain b where b: "aclupdate (update_fuel a (AclItem g ownerId w)) cat a (AclItem g ownerId w) ACL_MODECHG_ADD ownerId beh = Some (Inr b)"
    using aclupdate_owner_add [OF Cons.prems(1,2)] by blast
  have "\<not> (goption \<and> g = ACL_ID_PUBLIC)" using Cons.prems(3) by auto
  then have "merge_acl_with_grant cat True goption beh (g # gs) privs ownerId ownerId a =
      merge_acl_with_grant cat True goption beh gs privs ownerId ownerId b"
    using b by (cases goption) (simp_all add: w_def Let_def)
  moreover have "acl_ok b" "acl_unique (ACL_DAT b)" using aclupdate_add_effect [OF b Cons.prems(2)] by blast+
  ultimately show ?case using Cons.IH [of b] Cons.prems(3) by simp
qed simp

lemma low_options:
  assumes "\<And>n. bit privs n \<Longrightarrow> n < 32"
  shows "privs AND ACL_OPTION_TO_PRIVS (ACL_GRANT_OPTION_FOR privs) = privs" and "ACL_GRANT_OPTION_FOR privs = 0 \<longleftrightarrow> privs = 0"
proof -
  show "privs AND ACL_OPTION_TO_PRIVS (ACL_GRANT_OPTION_FOR privs) = privs"
    by (rule bit_word_eqI) (use assms in \<open>auto simp: bit_and_iff bit_OPTION_TO_PRIVS bit_GRANT_OPTION_FOR\<close>)
  have "bit (ACL_GRANT_OPTION_FOR privs) (32 + n)" if "bit privs n" for n
    using that assms by (simp add: bit_GRANT_OPTION_FOR)
  then show "ACL_GRANT_OPTION_FOR privs = 0 \<longleftrightarrow> privs = 0" unfolding word_zero_bits bit_GRANT_OPTION_FOR by blast
qed

lemma aclmembers_ok: "acl_ok a \<Longrightarrow> \<exists>l. aclmembers (Some a) = Inr l"
  by (auto simp: aclmembers_def acl_ok_def)

lemma owner_grant_on_list:
  assumes "acl_ok a" and "acl_unique (ACL_DAT a)" and "is_grant istmt" and "\<not> (grant_option istmt \<and> ACL_ID_PUBLIC \<in> set (grantees istmt))"
    and "CurrentUserId (role_cat cat) = ownerId \<or> superuser_arg (role_cat cat) (CurrentUserId (role_cat cat))"
    and "\<And>n. bit privs n \<Longrightarrow> n < 32" and "privs \<noteq> 0" and "whole_mask otype = Inr whole"
  shows "\<exists>b ev. grant_on_list cat istmt otype objectId attnum ownerId a gacl allprivs privs = Some (Inr (b, ev)) \<and> acl_ok b"
  using owner_merge [OF assms(1,2,4), of "role_cat cat" "behavior istmt" privs ownerId] assms(3,7,8)
  unfolding grant_on_list_def owner_grant [OF assms(5)] restrict_and_check_grant_def Let_def
  by (auto simp: low_options [OF assms(6)])

lemma bit_trigger: "bit ACL_TRIGGER n \<longleftrightarrow> n = 6"
proof -
  have eq: "ACL_TRIGGER = 2 ^ 6" by (simp add: ACL_TRIGGER_def)
  show ?thesis unfolding eq bit_exp_iff by auto
qed

lemma relation_privileges_low:
  assumes "relation_privileges istmt rel = Inr (privs, warnings)" and "objtype istmt = OBJECT_TABLE" and "bit privs n"
  shows "n < 32"
proof -
  have low: "bit ACL_ALL_RIGHTS_RELATION n \<or> bit ACL_ALL_RIGHTS_SEQUENCE n \<Longrightarrow> n < 32"
    by (auto simp: acl_all_rights_defs bit_or_iff word_bits bit_trigger)
  have "privs AND NOT ACL_ALL_RIGHTS_RELATION = 0 \<or> privs AND NOT ACL_ALL_RIGHTS_SEQUENCE = 0"
    using assms(1,2) by (auto simp: relation_privileges_def Let_def and.assoc split: if_splits)
  then have "bit ACL_ALL_RIGHTS_RELATION n \<or> bit ACL_ALL_RIGHTS_SEQUENCE n"
    using assms(3) bit_imp_le_length [OF assms(3)] unfolding word_zero_bits bit_and_iff bit_not_iff by auto
  then show ?thesis by (rule low)
qed

lemma owner_grant_relation:
  assumes "catalog_wf cat" and rel: "RELOID cat relOid = Some rel"
    and user: "CurrentUserId (role_cat cat) = relowner rel \<or> superuser_arg (role_cat cat) (CurrentUserId (role_cat cat))"
    and "is_grant istmt" and "objtype istmt = OBJECT_TABLE" and "col_privs istmt = []"
    and public: "\<not> (grant_option istmt \<and> ACL_ID_PUBLIC \<in> set (grantees istmt))"
    and privs: "relation_privileges istmt rel = Inr (privs, warnings)"
  shows "\<exists>new ev. grant_relation istmt relOid cat = Some (Inr (new, ev))"
proof -
  have wf: "list_wf (relacl rel)" "OidIsValid (relowner rel)" using assms(1) rel unfolding catalog_wf_def by blast+
  obtain wo where wo: "default_rights (class_objtype rel) = Inr wo" using class_objtype_default by blast
  obtain acl where acl: "acl_or_default (class_objtype rel) (relowner rel) (relacl rel) = Inr acl"
    using acl_or_default_ok [OF _ wo] wf(1) unfolding list_wf_def by blast
  obtain old where old: "old_members (relacl rel) = Inr old"
    using wf(1) aclmembers_ok unfolding old_members_def list_wf_def list_ok_def by (cases "relacl rel") fastforce+
  have "\<exists>whole. whole_mask (class_objtype rel) = Inr whole" by (simp add: class_objtype_def whole_mask_def)
  then obtain whole where whole: "whole_mask (class_objtype rel) = Inr whole" ..
  have "\<exists>new ev. grant_relation_level cat istmt relOid rel privs acl old = Some (Inr (new, ev))"
  proof (cases "privs = 0")
    case False
    from owner_grant_on_list [OF old_list [OF wf acl] assms(4) public user relation_privileges_low [OF privs assms(5)] False whole]
    obtain b ev where b: "grant_on_list cat istmt (class_objtype rel) relOid 0 (relowner rel) acl acl (all_privs istmt) privs = Some (Inr (b, ev))" "acl_ok b"
      by blast
    then show ?thesis using False aclmembers_ok [OF b(2)] by (auto simp: grant_relation_level_def)
  qed (simp add: grant_relation_level_def)
  then show ?thesis using assms(4,6) by (auto simp: grant_relation_def rel privs acl old)
qed

lemma granted_relation_rights:
  assumes rel': "RELOID new relOid = Some rel'" and "bit (pair_rights (relation_items rel') (x, g)) p"
    and "x = ACL_ID_PUBLIC \<or> privs_of (role_cat new) user x" and "\<not> protected_class new relOid rel'"
  shows "bit (relation_rights new relOid user) p"
proof -
  from assms(2) obtain i where i: "i \<in> set (relation_items rel')" "ai_grantee i = x" "bit (ai_privs i) p"
    unfolding bit_pair_rights ai_pair_def prod.inject by blast
  then have "bit (held_rights (role_cat new) user (relowner rel') (relation_items rel')) p"
    using assms(3) unfolding held_rights_def bit_or_iff bit_or_rights by blast
  moreover have "list_rights (role_cat new) (class_objtype rel') (relowner rel') (relacl rel') user =
      held_rights (role_cat new) user (relowner rel') (relation_items rel')"
    using i(1) by (auto simp: list_rights_def relation_items_def split: sum.split)
  moreover have "p < 64" using bit_imp_le_length [OF i(3)] by simp
  ultimately show ?thesis using assms(1,4) by (simp add: relation_rights_def bit_or_iff)
qed

lemma relation_step_catalogs:
  assumes "relation_step istmt relOid cat new"
  shows "role_cat new = role_cat cat" and "protected_class new relOid (rel\<lparr>relacl := acl\<rparr>) = protected_class cat relOid rel"
  using assms by (auto simp: relation_step_def set_columns_def protected_class_def IsSystemClass_def IsToastClass_def
    IsToastNamespace_def isTempToastNamespace_def)

lemma catalog_wf_ok: "catalog_wf cat \<Longrightarrow> catalog_ok cat"
  unfolding catalog_wf_def catalog_ok_def list_wf_def list_all_iff by blast

lemma check_passes:
  assumes "catalog_wf cat" and "perminfo_ok cat info" and "relation_allows cat info"
  shows "ExecCheckPermissions cat None [info] report = Some (Inr True)"
  using check_loop_eq [OF catalog_wf_ok [OF assms(1)], of "[info]" report] assms(2,3) by (simp add: ExecCheckPermissions_def)

section \<open>Revocation\<close>

lemma gains_refl: "gains xs xs"
  by (simp add: gains_def)

lemma gains_trans: "gains xs ys \<Longrightarrow> gains ys zs \<Longrightarrow> gains xs zs"
  by (auto simp: gains_def)

lemma gains_update: "gains xs (xs[i := xs ! i OR w])"
  by (cases "i < length xs") (auto simp: gains_def nth_list_update bit_or_iff)

lemma expand_all_loop_gains: "expand_all_loop cat t rel w atts colp = Inr colp' \<Longrightarrow> gains colp colp'"
proof (induction atts arbitrary: colp)
  case (Cons n atts)
  have "gains colp colp'" if "expand_all_loop cat t rel w atts (colp[i := colp ! i OR w]) = Inr colp'" for i
    by (rule gains_trans [OF gains_update Cons.IH [OF that]])
  with Cons show ?case by (auto simp: Let_def split: if_splits option.splits)
qed (simp add: gains_refl)

lemma expand_all_loop_sets:
  assumes "expand_all_loop cat t rel w atts colp = Inr colp'" and "n \<in> set atts" and "n \<noteq> 0"
    and "\<not> (relkind rel = RELKIND_VIEW \<and> n < 0)" and "live_column cat t n"
    and i: "i = nat (n - FirstLowInvalidHeapAttributeNumber)" and "i < length colp" and "bit w p"
  shows "bit (colp' ! i) p"
  using assms(1,2,7)
proof (induction atts arbitrary: colp)
  case (Cons m atts)
  show ?case
  proof (cases "m = n")
    case True
    then have "expand_all_loop cat t rel w atts (colp[i := colp ! i OR w]) = Inr colp'"
      using Cons.prems(1) assms(3-5) by (auto simp: live_column_def Let_def i split: option.splits)
    from expand_all_loop_gains [OF this] show ?thesis using Cons.prems(3) assms(8) by (simp add: gains_def bit_or_iff)
  next
    case False
    then show ?thesis using Cons by (auto simp: Let_def split: if_splits option.splits)
  qed
qed simp

lemma expand_col_privileges_gains: "expand_col_privileges cat t w cols colp = Inr colp' \<Longrightarrow> gains colp colp'"
proof (induction cols arbitrary: colp)
  case (Cons c cols)
  have "gains colp colp'" if "expand_col_privileges cat t w cols (colp[i := colp ! i OR w]) = Inr colp'" for i
    by (rule gains_trans [OF gains_update Cons.IH [OF that]])
  with Cons.prems show ?case by (auto simp: Let_def split: if_splits)
qed (simp add: gains_refl)

lemma expand_col_privs_gains: "expand_col_privs cat t rel ps colp = Inr (colp', ev) \<Longrightarrow> gains colp colp'"
proof (induction ps arbitrary: colp ev)
  case (Cons q ps)
  have "gains colp colp'" if "expand_col_privileges cat t w cols colp = Inr c" "expand_col_privs cat t rel ps c = Inr (colp', ev')" for w cols c ev'
    by (rule gains_trans [OF expand_col_privileges_gains [OF that(1)] Cons.IH [OF that(2)]])
  with Cons.prems show ?case by (auto simp: result_iff Let_def split: if_splits)
qed (simp add: gains_refl)

lemma statement_columns_bits:
  assumes "statement_columns istmt cat t rel privs = Inr colp" and "\<not> is_grant istmt" and p: "bit privs p" "bit ACL_ALL_RIGHTS_COLUMN p"
    and n: "FirstLowInvalidHeapAttributeNumber < n" "n \<le> relnatts rel" and live: "n \<noteq> 0" "\<not> (relkind rel = RELKIND_VIEW \<and> n < 0)" "live_column cat t n"
    and i: "i = nat (n - FirstLowInvalidHeapAttributeNumber)"
  shows "i < length colp" and "bit (colp ! i) p"
proof -
  have w: "bit (privs AND ACL_ALL_RIGHTS_COLUMN) p" using p by (simp add: bit_and_iff)
  then have "privs AND ACL_ALL_RIGHTS_COLUMN \<noteq> 0" by auto
  with assms(1,2) obtain c ev where c: "expand_all_loop cat t rel (privs AND ACL_ALL_RIGHTS_COLUMN)
      [FirstLowInvalidHeapAttributeNumber + 1..relnatts rel] (no_columns rel) = Inr c"
    "expand_col_privs cat t rel (col_privs istmt) c = Inr (colp, ev)"
    by (auto simp: statement_columns_def expand_all_col_privileges_def result_iff)
  have len: "i < length (no_columns rel)" using n by (simp add: i no_columns_def)
  have "n \<in> set [FirstLowInvalidHeapAttributeNumber + 1..relnatts rel]" using n by simp
  note set = expand_all_loop_sets [OF c(1) this live i len w] and gains = expand_all_loop_gains [OF c(1)] expand_col_privs_gains [OF c(2)]
  then show "i < length colp" "bit (colp ! i) p" using len by (auto simp: gains_def)
qed

lemma revoked_bits:
  assumes "list_step cat istmt ownerId gacl privs xs ys" and "\<not> is_grant istmt" and "\<not> grant_option istmt"
    and "CurrentUserId (role_cat cat) = ownerId \<or> superuser_arg (role_cat cat) (CurrentUserId (role_cat cat))"
    and "x \<in> set (grantees istmt)" and "p < 32" and "bit privs p"
  shows "sub_items ys xs" and "\<not> bit (pair_rights ys (x, ownerId)) p" and "\<not> bit (pair_rights ys (x, ownerId)) (32 + p)"
proof -
  have ys: "sub_items ys xs"
    "pair_rights ys (x, ownerId) AND PRIVS_GOPTIONS (privs AND ACL_OPTION_TO_PRIVS (ACL_GRANT_OPTION_FOR privs))
       (privs AND ACL_OPTION_TO_PRIVS (ACL_GRANT_OPTION_FOR privs)) = 0"
    using assms(1-3,5) unfolding list_step_def owner_grant [OF assms(4)] merged_def by auto
  have "bit (privs AND ACL_OPTION_TO_PRIVS (ACL_GRANT_OPTION_FOR privs)) p"
    using assms(6,7) by (simp add: bit_and_iff bit_OPTION_TO_PRIVS bit_GRANT_OPTION_FOR)
  then have bits: "bit (PRIVS_GOPTIONS (privs AND ACL_OPTION_TO_PRIVS (ACL_GRANT_OPTION_FOR privs))
       (privs AND ACL_OPTION_TO_PRIVS (ACL_GRANT_OPTION_FOR privs))) q" if "q \<in> {p, 32 + p}" for q
    using that assms(6) by (auto simp: bit_PRIVS_GOPTIONS)
  show "sub_items ys xs" by (rule ys)
  show "\<not> bit (pair_rights ys (x, ownerId)) p" "\<not> bit (pair_rights ys (x, ownerId)) (32 + p)"
    using ys(2) bits unfolding word_zero_bits bit_and_iff by blast+
qed

section \<open>Examples\<close>

lemma score_database_wf:
  assumes "acl_unique rel_items" and "acl_unique mark_items"
  shows "catalog_wf (score_database rel_items mark_items user)"
proof -
  have "database_dba (role_cat (score_database rel_items mark_items user)) = Inr 10"
    by (simp add: score_database_def score_roles_def database_dba_def OidIsValid_def)
  then show ?thesis
    using assms by (simp add: catalog_wf_def score_database_def score_catalog_def score_relation_def list_wf_def list_ok_def items_of_def
      OidIsValid_def acl_unique_def)
qed

lemma score_items:
  "acl_unique []" "acl_unique [owner_item]" "acl_unique [column_item]" "acl_unique [owner_item, delegate_item]"
  by (simp_all add: acl_unique_def owner_item_def delegate_item_def column_item_def)

lemma score_lookup_keeps: "lookup_keeps score_lookup"
  by (auto simp: lookup_keeps_def stmt_objects_def score_lookup_def keeps_refl split: GrantTargetType.splits if_splits)

lemma granted_itemsE:
  assumes "granted_items t n r = Some (xs, ys)"
  obtains new events rel att where "r = Some (Inr (new, events))" "RELOID new t = Some rel" "items_of (relacl rel) = xs"
    "ATTNUM new t n = Some att" "items_of (attacl att) = ys"
  using assms by (auto simp: granted_items_def split: option.splits sum.splits)

lemma score_run:
  "granted_items 20000 2 (ExecuteGrantStmt score_lookup score_statement (score_database [owner_item] [] 101)) =
     Some ([owner_item, delegate_item], [])"
  by code_simp

lemma score_row:
  "RELOID (score_database xs ys u) 20000 = Some (score_relation\<lparr>relacl := Some (allocacl xs)\<rparr>)"
  by (simp add: score_database_def)

lemma score_grounded: "catalog_grounded (score_database [owner_item] [] 101)"
  by (simp add: catalog_grounded_def score_database_def score_catalog_def score_relation_def list_grounded_def items_of_def
    grounded_in_def owner_item_def)

section \<open>Properties\<close>

text \<open>
  C8. Every \<^verbatim>\<open>GRANT\<close> and \<^verbatim>\<open>REVOKE\<close> on any kind of object returns, with an error or with new catalogs. The new catalogs
  are well-formed, with at most one item for each grantee and grantor in every list, and differ from the
  old ones in the lists only (and in rows of configuration parameters, which exist to hold a list).
\<close>

theorem grant_statements_typed:
  assumes "catalog_wf cat" and "lookup_keeps look"
  shows "\<exists>r. ExecuteGrantStmt look stmt cat = Some r \<and>
    (\<forall>new events. r = Inr (new, events) \<longrightarrow> catalog_wf new \<and> erase_lists new = erase_lists cat)"
  using ExecuteGrantStmt_keeps [OF assms, of stmt] by (auto simp: returns_def keeps_def)

theorem grant_statements_typed_witness:
  "granted_items 20000 2 (ExecuteGrantStmt score_lookup score_statement (score_database [owner_item] [] 101)) =
     Some ([owner_item, delegate_item], []) \<and>
   (\<exists>new events. ExecuteGrantStmt score_lookup score_statement (score_database [owner_item] [] 101) = Some (Inr (new, events)) \<and>
     catalog_wf new)"
proof -
  show ?thesis
    by (rule granted_itemsE [OF score_run]) (use score_run grant_statements_typed [OF score_database_wf [OF score_items(2,1)] score_lookup_keeps, of score_statement 101] in auto)
qed

text \<open>
  C7. All privileges flow from the owner: if every right in the catalogs was granted by the owner of the
  object or by a role that holds its grant option, on the object or, for a column, on its relation, then
  this is still so after any \<^verbatim>\<open>GRANT\<close>.
\<close>

theorem grants_flow_from_owner:
  assumes "catalog_wf cat" and "lookup_keeps look" and "gs_is_grant stmt" and "catalog_grounded cat"
    and "ExecuteGrantStmt look stmt cat = Some (Inr (new, events))"
  shows "catalog_grounded new"
  using returnsD [OF ExecuteGrantStmt_keeps [OF assms(1,2)] assms(5)] assms(3,4) by (simp add: keeps_def)

theorem grants_flow_from_owner_witness:
  "\<exists>new events. ExecuteGrantStmt score_lookup score_statement (score_database [owner_item] [] 101) = Some (Inr (new, events)) \<and>
     catalog_grounded new"
proof -
  show ?thesis
  proof (rule granted_itemsE [OF score_run])
    fix new events
    assume run: "ExecuteGrantStmt score_lookup score_statement (score_database [owner_item] [] 101) = Some (Inr (new, events))"
    have "gs_is_grant score_statement" by (simp add: score_statement_def)
    from grants_flow_from_owner [OF score_database_wf [OF score_items(2,1)] score_lookup_keeps this score_grounded run] run
    show ?thesis by blast
  qed
qed

text \<open>
  C5. No escalation: every right and grant option that a \<^verbatim>\<open>GRANT\<close> on a relation adds, to its list or to the list
  of a column, goes to a grantee of the statement and is granted by a role whose privileges the current
  user has, which is the owner or directly holds the grant option.
\<close>

theorem grants_need_options:
  assumes "catalog_wf cat" and "is_grant istmt" and "objects istmt = [relOid]"
    and "ExecGrant_Relation istmt cat = Some (Inr (new, events))" and "RELOID cat relOid = Some rel"
  shows "\<exists>rel'. RELOID new relOid = Some rel' \<and>
    added_by_grantors cat istmt (relowner rel) (items_of (relacl rel)) (relation_items rel) (relation_items rel') \<and>
    (\<forall>n att'. ATTNUM new relOid n = Some att' \<longrightarrow>
       (\<exists>att. ATTNUM cat relOid n = Some att \<and>
          added_by_grantors cat istmt (relowner rel) (items_of (relacl rel) @ items_of (attacl att))
            (items_of (attacl att)) (items_of (attacl att'))))"
proof -
  obtain privs warnings acl colp rel' where step: "acl_ok acl"
    "\<And>g p. p < 32 \<Longrightarrow> holds_option (ACL_DAT acl) g p \<longleftrightarrow> holds_option (items_of (relacl rel)) g p" "RELOID new relOid = Some rel'"
    "if privs = 0 then rel' = rel else list_step cat istmt (relowner rel) acl privs (relation_items rel) (relation_items rel')"
    "columns_step cat istmt (relowner rel) (aclcopy acl) FirstLowInvalidHeapAttributeNumber colp (ATTNUM cat relOid) (ATTNUM new relOid)"
    by (rule relation_step_cases [OF one_relation [OF assms(1,3,4)] assms(1,5)]) blast
  have "added_by_grantors cat istmt (relowner rel) (items_of (relacl rel)) (relation_items rel) (relation_items rel')"
  proof (cases "privs = 0")
    case False
    then have "list_step cat istmt (relowner rel) acl privs (relation_items rel) (relation_items rel')" using step(4) by simp
    from added_mono [OF list_step_added [OF assms(2) this step(1)]] step(2) show ?thesis by blast
  qed (use step(4) added_refl in simp)
  moreover have "\<exists>att. ATTNUM cat relOid n = Some att \<and>
      added_by_grantors cat istmt (relowner rel) (items_of (relacl rel) @ items_of (attacl att)) (items_of (attacl att)) (items_of (attacl att'))"
    if row: "ATTNUM new relOid n = Some att'" for n att'
  proof (cases "ATTNUM new relOid n = ATTNUM cat relOid n")
    case True
    then show ?thesis using row added_refl by (intro exI [of _ att']) simp
  next
    case False
    then obtain ps where "column_step cat istmt (relowner rel) (aclcopy acl) ps (ATTNUM cat relOid n) (Some att')"
      using step(5) [unfolded columns_step_def, rule_format, of n] row by (auto split: if_splits)
    then obtain att where att: "ATTNUM cat relOid n = Some att" and
      ls: "list_step cat istmt (relowner rel) (aclconcat (aclcopy acl) (allocacl (items_of (attacl att)))) ps (items_of (attacl att)) (items_of (attacl att'))"
      unfolding column_step_def by auto
    have "acl_ok (aclconcat (aclcopy acl) (allocacl (items_of (attacl att))))" by (simp add: aclconcat_def)
    from list_step_added [OF assms(2) ls this] att step(2) show ?thesis
      by (auto elim!: added_mono simp: aclconcat_def aclcopy_def holds_option_append)
  qed
  ultimately show ?thesis using step(3) by blast
qed

theorem grants_need_options_witness:
  "\<exists>new events. ExecGrant_Relation column_grant (score_database [owner_item, delegate_item] [] 102) = Some (Inr (new, events)) \<and>
     (\<exists>att'. ATTNUM new 20000 2 = Some att' \<and> items_of (attacl att') = [column_item] \<and>
       added_by_grantors (score_database [owner_item, delegate_item] [] 102) column_grant 101 [owner_item, delegate_item] [] [column_item])"
proof -
  let ?cat = "score_database [owner_item, delegate_item] [] 102"
  have "granted_items 20000 2 (ExecGrant_Relation column_grant ?cat) = Some ([owner_item, delegate_item], [column_item])" by code_simp
  then show ?thesis
  proof (rule granted_itemsE)
    fix new events att
    assume run: "ExecGrant_Relation column_grant ?cat = Some (Inr (new, events))" and att: "ATTNUM new 20000 2 = Some att" "items_of (attacl att) = [column_item]"
    have "is_grant column_grant" "objects column_grant = [20000]" by (simp_all add: column_grant_def score_grant_def)
    from grants_need_options [OF score_database_wf [OF score_items(4,1)] this run score_row]
    obtain att0 where "ATTNUM ?cat 20000 2 = Some att0"
      "added_by_grantors ?cat column_grant 101 ([owner_item, delegate_item] @ items_of (attacl att0)) (items_of (attacl att0)) (items_of (attacl att))"
      using att(1) by (fastforce simp: score_relation_def items_of_def [of "Some _"])
    moreover from this(1) have "items_of (attacl att0) = []" by (auto simp: score_database_def items_of_def)
    ultimately show ?thesis using run att by auto
  qed
qed



text \<open>
  C9. After a \<^verbatim>\<open>REVOKE\<close> by the owner or a superuser that succeeds, no grantee has a revoked privilege or its grant
  option from the owner, on the table or on any of its columns, and nobody has gained a right.
\<close>

theorem owner_revoke_removes:
  assumes "catalog_wf cat" and "\<not> is_grant istmt" and "\<not> grant_option istmt" and "objtype istmt = OBJECT_TABLE"
    and "objects istmt = [relOid]" and "RELOID cat relOid = Some rel"
    and "CurrentUserId (role_cat cat) = relowner rel \<or> superuser_arg (role_cat cat) (CurrentUserId (role_cat cat))"
    and "ExecGrant_Relation istmt cat = Some (Inr (new, events))"
    and "relation_privileges istmt rel = Inr (privs, warnings)" and "x \<in> set (grantees istmt)" and "bit privs p"
  shows "\<exists>rel'. RELOID new relOid = Some rel' \<and> sub_items (relation_items rel') (relation_items rel) \<and>
    \<not> bit (pair_rights (relation_items rel') (x, relowner rel)) p \<and>
    \<not> bit (pair_rights (relation_items rel') (x, relowner rel)) (32 + p) \<and>
    (\<forall>n att'. bit ACL_ALL_RIGHTS_COLUMN p \<longrightarrow> FirstLowInvalidHeapAttributeNumber < n \<longrightarrow> n \<le> relnatts rel \<longrightarrow> n \<noteq> 0 \<longrightarrow>
       \<not> (relkind rel = RELKIND_VIEW \<and> n < 0) \<longrightarrow> live_column cat relOid n \<longrightarrow> ATTNUM new relOid n = Some att' \<longrightarrow>
       sub_items (items_of (attacl att')) (items_of (attacl (the (ATTNUM cat relOid n)))) \<and>
       \<not> bit (pair_rights (items_of (attacl att')) (x, relowner rel)) p \<and>
       \<not> bit (pair_rights (items_of (attacl att')) (x, relowner rel)) (32 + p))"
proof -
  obtain privs' w' acl colp rel' where step: "relation_privileges istmt rel = Inr (privs', w')"
    "statement_columns istmt cat relOid rel privs' = Inr colp" "RELOID new relOid = Some rel'"
    "if privs' = 0 then rel' = rel else list_step cat istmt (relowner rel) acl privs' (relation_items rel) (relation_items rel')"
    "columns_step cat istmt (relowner rel) (aclcopy acl) FirstLowInvalidHeapAttributeNumber colp (ATTNUM cat relOid) (ATTNUM new relOid)"
    by (rule relation_step_cases [OF one_relation [OF assms(1,5,8)] assms(1,6)]) blast
  have priv: "privs' = privs" "privs \<noteq> 0" using step(1) assms(9,11) by auto
  have low: "p < 32" by (rule relation_privileges_low [OF assms(9,4,11)])
  have ls: "list_step cat istmt (relowner rel) acl privs (relation_items rel) (relation_items rel')" using step(4) priv by simp
  note rel = revoked_bits [OF ls assms(2,3,7,10) low assms(11)]
  have "sub_items (items_of (attacl att')) (items_of (attacl (the (ATTNUM cat relOid n)))) \<and>
      \<not> bit (pair_rights (items_of (attacl att')) (x, relowner rel)) p \<and> \<not> bit (pair_rights (items_of (attacl att')) (x, relowner rel)) (32 + p)"
    if c: "bit ACL_ALL_RIGHTS_COLUMN p" and n: "FirstLowInvalidHeapAttributeNumber < n" "n \<le> relnatts rel" "n \<noteq> 0"
      "\<not> (relkind rel = RELKIND_VIEW \<and> n < 0)" "live_column cat relOid n" and row: "ATTNUM new relOid n = Some att'" for n att'
  proof -
    let ?i = "nat (n - FirstLowInvalidHeapAttributeNumber)"
    note cp = statement_columns_bits [OF step(2) assms(2) _ c n refl]
    have "?i < length colp" "bit (colp ! ?i) p" using cp assms(11) priv by simp_all
    moreover from this(1) n(1) have "n < FirstLowInvalidHeapAttributeNumber + int (length colp)" by linarith
    ultimately have "column_step cat istmt (relowner rel) (aclcopy acl) (colp ! ?i) (ATTNUM cat relOid n) (Some att')"
      using step(5) [unfolded columns_step_def, rule_format, of n] n(1) row by (auto split: if_splits)
    then obtain att where "ATTNUM cat relOid n = Some att" and
      "list_step cat istmt (relowner rel) (aclconcat (aclcopy acl) (allocacl (items_of (attacl att)))) (colp ! ?i)
         (items_of (attacl att)) (items_of (attacl att'))" unfolding column_step_def by auto
    then show ?thesis using revoked_bits [OF _ assms(2,3,7,10) low \<open>bit (colp ! ?i) p\<close>] by simp
  qed
  then show ?thesis using step(3) rel by (intro exI [of _ rel'] conjI allI impI) simp_all
qed

theorem owner_revoke_removes_witness:
  "\<exists>new events rel'. ExecGrant_Relation (score_grant False ACL_SELECT [] [102] False) (score_database [owner_item, delegate_item] [] 101) =
       Some (Inr (new, events)) \<and> RELOID new 20000 = Some rel' \<and> \<not> bit (pair_rights (relation_items rel') (102, 101)) 1"
proof -
  let ?cat = "score_database [owner_item, delegate_item] [] 101" and ?istmt = "score_grant False ACL_SELECT [] [102] False"
  have "granted_items 20000 2 (ExecGrant_Relation ?istmt ?cat) = Some ([owner_item], [])" by code_simp
  then show ?thesis
  proof (rule granted_itemsE)
    fix new events assume run: "ExecGrant_Relation ?istmt ?cat = Some (Inr (new, events))"
    have stmt: "\<not> is_grant ?istmt" "\<not> grant_option ?istmt" "objtype ?istmt = OBJECT_TABLE" "objects ?istmt = [20000]" "102 \<in> set (grantees ?istmt)"
      by (simp_all add: score_grant_def)
    have user: "CurrentUserId (role_cat ?cat) = relowner (score_relation\<lparr>relacl := Some (allocacl [owner_item, delegate_item])\<rparr>) \<or>
        superuser_arg (role_cat ?cat) (CurrentUserId (role_cat ?cat))" by (simp add: score_database_def score_relation_def)
    have privs: "relation_privileges ?istmt (score_relation\<lparr>relacl := Some (allocacl [owner_item, delegate_item])\<rparr>) = Inr (ACL_SELECT, [])" by code_simp
    have "bit ACL_SELECT 1" by (simp add: word_bits)
    from owner_revoke_removes [OF score_database_wf [OF score_items(4,1)] stmt(1-4) score_row user run privs stmt(5) this] run
    show ?thesis by (auto simp: score_relation_def)
  qed
qed

text \<open>
  C20. A \<^verbatim>\<open>REVOKE\<close> on a relation leaves the list of a column as it is when no item of that list has one of the
  grantees. So what such a grantee granted for the column, using the grant option for the relation that is
  revoked, stays, with \<^verbatim>\<open>CASCADE\<close> and with \<^verbatim>\<open>RESTRICT\<close>.
\<close>

theorem column_grants_outlive_revocation:
  assumes "catalog_wf cat" and "\<not> is_grant istmt" and "objects istmt = [relOid]"
    and "ExecGrant_Relation istmt cat = Some (Inr (new, events))"
    and "ATTNUM cat relOid n = Some att" and "\<forall>i \<in> set (items_of (attacl att)). ai_grantee i \<notin> set (grantees istmt)"
  shows "\<exists>att'. ATTNUM new relOid n = Some att' \<and> items_of (attacl att') = items_of (attacl att)"
proof -
  note one = one_relation [OF assms(1,3,4)]
  then obtain rel where rel: "RELOID cat relOid = Some rel" by (auto simp: relation_step_def)
  obtain acl colp where
    cols: "columns_step cat istmt (relowner rel) (aclcopy acl) FirstLowInvalidHeapAttributeNumber colp (ATTNUM cat relOid) (ATTNUM new relOid)"
    by (rule relation_step_cases [OF one assms(1) rel]) blast
  have "(\<exists>att'. ATTNUM new relOid n = Some att' \<and> items_of (attacl att') = items_of (attacl att))"
    if "column_step cat istmt (relowner rel) (aclcopy acl) ps (Some att) (ATTNUM new relOid n)" for ps
    using that assms(2,6) by (auto simp: column_step_def list_step_def merged_def)
  then show ?thesis using cols [unfolded columns_step_def, rule_format, of n] assms(5) by (auto split: if_splits)
qed

theorem column_grants_outlive_revocation_witness:
  "\<exists>new events rel att. ExecGrant_Relation (score_grant False ACL_SELECT [] [102] False) (score_database [owner_item, delegate_item] [column_item] 101) =
       Some (Inr (new, events)) \<and> RELOID new 20000 = Some rel \<and> items_of (relacl rel) = [owner_item] \<and>
     ATTNUM new 20000 2 = Some att \<and> items_of (attacl att) = [column_item]"
proof -
  let ?cat = "score_database [owner_item, delegate_item] [column_item] 101" and ?istmt = "score_grant False ACL_SELECT [] [102] False"
  have "granted_items 20000 2 (ExecGrant_Relation ?istmt ?cat) = Some ([owner_item], [column_item])" by code_simp
  then show ?thesis
  proof (rule granted_itemsE)
    fix new events rel
    assume run: "ExecGrant_Relation ?istmt ?cat = Some (Inr (new, events))" and rel: "RELOID new 20000 = Some rel" "items_of (relacl rel) = [owner_item]"
    let ?att = "\<lparr>attname = ''mark'', attisdropped = False, attacl = Some (allocacl [column_item])\<rparr>"
    have att: "ATTNUM ?cat 20000 2 = Some ?att" by (simp add: score_database_def)
    have none: "\<forall>i \<in> set (items_of (attacl ?att)). ai_grantee i \<notin> set (grantees ?istmt)"
      by (simp add: items_of_def column_item_def score_grant_def)
    have stmt: "\<not> is_grant ?istmt" "objects ?istmt = [20000]" by (simp_all add: score_grant_def)
    note column_grants_outlive_revocation [OF score_database_wf [OF score_items(4,3)] stmt run att none]
    then show ?thesis using run rel by (auto simp: items_of_def)
  qed
qed

end
