(* ===== verification/RoleGrants.thy ===== *)
theory RoleGrants
  imports Grants
begin

unbundle bit_operations_syntax

text \<open>
  \<^verbatim>\<open>GRANT\<close> and \<^verbatim>\<open>REVOKE\<close> of role memberships: \<^verbatim>\<open>GrantRole\<close> and the routines it calls in
  \<^verbatim>\<open>src/postgres/src/backend/commands/user.c\<close>, with \<^verbatim>\<open>parse_bool\<close> of \<^verbatim>\<open>src/postgres/src/backend/utils/adt/bool.c\<close>.

  The grants of a role are the rows of \<^verbatim>\<open>pg_auth_members\<close> with its identifier, in the order of the catalog list.
  Planning a revocation marks each of them with an action; a marked row depends on no order. Lookups see
  the catalogs as of the last \<^verbatim>\<open>CommandCounterIncrement\<close>, which a grant makes after each change and a revocation
  does not make, so revocations read one catalog and change another, and changing a row twice is the
  error that the table access method reports. Row identifiers, locks and shared dependencies are not
  modelled. The planning recursion has a budget of steps; \<open>plan_recursive_revoke_returns\<close> shows that it is never used up.
\<close>

section \<open>Options\<close>

definition pg_strncasecmp_eq :: "string \<Rightarrow> string \<Rightarrow> nat \<Rightarrow> bool" where
  "pg_strncasecmp_eq s1 s2 n =
     (take n (map ascii_lower s1 @ [CHR 0x00]) = take n (map ascii_lower s2 @ [CHR 0x00]))"

text \<open>\<open>None\<close> when the text is no boolean.\<close>

definition parse_bool :: "string \<Rightarrow> bool option" where
  "parse_bool val =
     (let len = length val; len2 = (if len > 2 then len else 2)
      in case val of
           [] \<Rightarrow> None
         | c # _ \<Rightarrow>
             if c = CHR ''t'' \<or> c = CHR ''T'' then (if pg_strncasecmp_eq val ''true'' len then Some True else None)
             else if c = CHR ''f'' \<or> c = CHR ''F'' then (if pg_strncasecmp_eq val ''false'' len then Some False else None)
             else if c = CHR ''y'' \<or> c = CHR ''Y'' then (if pg_strncasecmp_eq val ''yes'' len then Some True else None)
             else if c = CHR ''n'' \<or> c = CHR ''N'' then (if pg_strncasecmp_eq val ''no'' len then Some False else None)
             else if c = CHR ''o'' \<or> c = CHR ''O''
             then (if pg_strncasecmp_eq val ''on'' len2 then Some True
                   else if pg_strncasecmp_eq val ''off'' len2 then Some False else None)
             else if c = CHR ''1'' then (if len = 1 then Some True else None)
             else if c = CHR ''0'' then (if len = 1 then Some False else None)
             else None)"

definition GRANT_ROLE_SPECIFIED_ADMIN :: word32 where "GRANT_ROLE_SPECIFIED_ADMIN = 1"
definition GRANT_ROLE_SPECIFIED_INHERIT :: word32 where "GRANT_ROLE_SPECIFIED_INHERIT = 2"
definition GRANT_ROLE_SPECIFIED_SET :: word32 where "GRANT_ROLE_SPECIFIED_SET = 4"

record GrantRoleOptions =
  specified :: word32
  opt_admin :: bool
  opt_inherit :: bool
  opt_set :: bool

definition InitGrantRoleOptions :: GrantRoleOptions where
  "InitGrantRoleOptions = \<lparr>specified = 0, opt_admin = False, opt_inherit = False, opt_set = True\<rparr>"

text \<open>An option is its name and the text of its value.\<close>

definition bad_option_value :: "string" where
  "bad_option_value = ''unrecognized value for role option '' @ quoted @ '': '' @ quoted"

fun parse_options :: "(string \<times> string) list \<Rightarrow> GrantRoleOptions \<Rightarrow> GrantRoleOptions pg_result" where
  "parse_options [] popt = Inr popt"
| "parse_options ((defname, optval) # rest) popt =
     (if defname = ''admin''
      then (case parse_bool optval of
              Some b \<Rightarrow> parse_options rest (popt\<lparr>specified := specified popt OR GRANT_ROLE_SPECIFIED_ADMIN, opt_admin := b\<rparr>)
            | None \<Rightarrow> ereport_error ''ERRCODE_INVALID_PARAMETER_VALUE'' bad_option_value)
      else if defname = ''inherit''
      then (case parse_bool optval of
              Some b \<Rightarrow> parse_options rest (popt\<lparr>specified := specified popt OR GRANT_ROLE_SPECIFIED_INHERIT, opt_inherit := b\<rparr>)
            | None \<Rightarrow> ereport_error ''ERRCODE_INVALID_PARAMETER_VALUE'' bad_option_value)
      else if defname = ''set''
      then (case parse_bool optval of
              Some b \<Rightarrow> parse_options rest (popt\<lparr>specified := specified popt OR GRANT_ROLE_SPECIFIED_SET, opt_set := b\<rparr>)
            | None \<Rightarrow> ereport_error ''ERRCODE_INVALID_PARAMETER_VALUE'' bad_option_value)
      else ereport_error ''ERRCODE_SYNTAX_ERROR'' (''unrecognized role option '' @ quoted))"

section \<open>Authorization\<close>

definition check_role_membership_authorization :: "role_catalog \<Rightarrow> Oid \<Rightarrow> Oid \<Rightarrow> bool \<Rightarrow> unit pg_result" where
  "check_role_membership_authorization cat currentUserId roleid isgrant =
     (let denied = rbind (GetUserNameFromId cat roleid) (\<lambda>_. ereport_error ''ERRCODE_INSUFFICIENT_PRIVILEGE''
            ((if isgrant then ''permission denied to grant role '' else ''permission denied to revoke role '') @ quoted))
      in if isgrant \<and> roleid = ROLE_PG_DATABASE_OWNER
         then rbind (GetUserNameFromId cat roleid) (\<lambda>_. elog_error (''role '' @ quoted @ '' cannot have explicit members''))
         else if superuser_arg cat roleid
         then (if \<not> superuser_arg cat currentUserId then denied else Inr ())
         else rbind (is_admin_of_role cat currentUserId roleid) (\<lambda>admin. if \<not> admin then denied else Inr ()))"

definition check_role_grantor :: "role_catalog \<Rightarrow> Oid \<Rightarrow> Oid \<Rightarrow> Oid \<Rightarrow> bool \<Rightarrow> Oid pg_result" where
  "check_role_grantor cat currentUserId roleid grantorId isgrant =
     (if \<not> OidIsValid grantorId
      then (if superuser_arg cat currentUserId then Inr BOOTSTRAP_SUPERUSERID
            else rbind (select_best_admin cat currentUserId roleid) (\<lambda>g.
                   if \<not> OidIsValid g then elog_error ''no possible grantors'' else Inr g))
      else
        rbind (has_privs_of_role cat currentUserId grantorId) (\<lambda>has.
          if \<not> has
          then rbind (GetUserNameFromId cat grantorId) (\<lambda>_. ereport_error ''ERRCODE_INSUFFICIENT_PRIVILEGE''
                 ((if isgrant then ''permission denied to grant privileges as role '' else
                     ''permission denied to revoke privileges granted by role '') @ quoted))
          else if isgrant \<and> grantorId \<noteq> BOOTSTRAP_SUPERUSERID
          then rbind (select_best_admin cat grantorId roleid) (\<lambda>g.
                 if g \<noteq> grantorId
                 then rbind (GetUserNameFromId cat grantorId) (\<lambda>_.
                      rbind (GetUserNameFromId cat roleid) (\<lambda>_. ereport_error ''ERRCODE_INSUFFICIENT_PRIVILEGE''
                        (''permission denied to grant privileges as role '' @ quoted)))
                 else Inr grantorId)
          else Inr grantorId))"

section \<open>Planning revocations\<close>

datatype RevokeRoleGrantAction =
  RRG_NOOP | RRG_REMOVE_ADMIN_OPTION | RRG_REMOVE_INHERIT_OPTION | RRG_REMOVE_SET_OPTION | RRG_DELETE_GRANT

type_synonym memlist = "pg_auth_members_row list"
type_synonym actions = "RevokeRoleGrantAction list"

definition AUTHMEMROLEMEM_list :: "role_catalog \<Rightarrow> Oid \<Rightarrow> memlist" where
  "AUTHMEMROLEMEM_list cat roleid = filter (\<lambda>r. am_roleid r = roleid) (pg_auth_members cat)"

definition initialize_revoke_actions :: "memlist \<Rightarrow> actions" where
  "initialize_revoke_actions memlist = replicate (length memlist) RRG_NOOP"

definition would_still_have_admin :: "memlist \<Rightarrow> actions \<Rightarrow> Oid \<Rightarrow> bool" where
  "would_still_have_admin memlist actions member =
     list_ex (\<lambda>i. am_member (memlist ! i) = member \<and> admin_option (memlist ! i) \<and> actions ! i = RRG_NOOP) [0..<length memlist]"

text \<open>The loop that recurses to the grants made by a member that loses the admin option.\<close>

fun cascade_loop ::
  "(nat \<Rightarrow> actions \<Rightarrow> actions fueled) \<Rightarrow> memlist \<Rightarrow> Oid \<Rightarrow> DropBehavior \<Rightarrow> nat list \<Rightarrow> actions \<Rightarrow> actions fueled" where
  "cascade_loop plan memlist member beh [] actions = Some (Inr actions)"
| "cascade_loop plan memlist member beh (i # rest) actions =
     (if am_grantor (memlist ! i) = member \<and> actions ! i \<noteq> RRG_DELETE_GRANT
      then (if beh = DROP_RESTRICT
            then Some (ereport_error ''ERRCODE_DEPENDENT_OBJECTS_STILL_EXIST'' ''dependent privileges exist'')
            else fbind (plan i actions) (cascade_loop plan memlist member beh rest))
      else cascade_loop plan memlist member beh rest actions)"

fun plan_recursive_revoke :: "nat \<Rightarrow> memlist \<Rightarrow> DropBehavior \<Rightarrow> bool \<Rightarrow> nat \<Rightarrow> actions \<Rightarrow> actions fueled" where
  "plan_recursive_revoke 0 memlist beh revoke_admin_option_only index actions = None"
| "plan_recursive_revoke (Suc n) memlist beh revoke_admin_option_only index actions =
     (if actions ! index = RRG_DELETE_GRANT then Some (Inr actions)
      else if actions ! index = RRG_REMOVE_ADMIN_OPTION \<and> revoke_admin_option_only then Some (Inr actions)
      else
        let form = memlist ! index
        in if \<not> admin_option form
           then Some (Inr (if revoke_admin_option_only then actions else actions[index := RRG_DELETE_GRANT]))
           else
             let actions = actions[index := if revoke_admin_option_only then RRG_REMOVE_ADMIN_OPTION else RRG_DELETE_GRANT]
             in if would_still_have_admin memlist actions (am_member form) then Some (Inr actions)
                else cascade_loop (plan_recursive_revoke n memlist beh False) memlist (am_member form) beh [0..<length memlist] actions)"

definition plan_fuel :: "memlist \<Rightarrow> nat" where
  "plan_fuel memlist = length memlist + 2"

definition plan_single_revoke ::
  "memlist \<Rightarrow> Oid \<Rightarrow> Oid \<Rightarrow> GrantRoleOptions \<Rightarrow> DropBehavior \<Rightarrow> actions \<Rightarrow> (bool \<times> actions) fueled" where
  "plan_single_revoke memlist member grantor popt beh actions =
     (case find_index (\<lambda>form. am_member form = member \<and> am_grantor form = grantor) memlist of
        None \<Rightarrow> Some (Inr (False, actions))
      | Some i \<Rightarrow>
          if specified popt AND GRANT_ROLE_SPECIFIED_INHERIT \<noteq> 0
          then Some (Inr (True, actions[i := RRG_REMOVE_INHERIT_OPTION]))
          else if specified popt AND GRANT_ROLE_SPECIFIED_SET \<noteq> 0
          then Some (Inr (True, actions[i := RRG_REMOVE_SET_OPTION]))
          else fbind (plan_recursive_revoke (plan_fuel memlist) memlist beh
                        (specified popt AND GRANT_ROLE_SPECIFIED_ADMIN \<noteq> 0) i actions) (\<lambda>actions. Some (Inr (True, actions))))"

fun member_revoke_loop :: "memlist \<Rightarrow> Oid \<Rightarrow> nat list \<Rightarrow> actions \<Rightarrow> actions fueled" where
  "member_revoke_loop memlist member [] actions = Some (Inr actions)"
| "member_revoke_loop memlist member (i # rest) actions =
     (if am_member (memlist ! i) = member
      then fbind (plan_recursive_revoke (plan_fuel memlist) memlist DROP_CASCADE False i actions) (member_revoke_loop memlist member rest)
      else member_revoke_loop memlist member rest actions)"

definition plan_member_revoke :: "memlist \<Rightarrow> Oid \<Rightarrow> actions \<Rightarrow> actions fueled" where
  "plan_member_revoke memlist member actions = member_revoke_loop memlist member [0..<length memlist] actions"

section \<open>Adding members\<close>

datatype role_event = RoleNotice string | RoleWarning string

fun check_members :: "role_catalog \<Rightarrow> Oid \<Rightarrow> (RoleSpec \<times> Oid) list \<Rightarrow> unit pg_result" where
  "check_members cat roleid [] = Inr ()"
| "check_members cat roleid ((memberRole, memberid) # rest) =
     (if memberid = ROLE_PG_DATABASE_OWNER
      then rbind (get_rolespec_name cat memberRole) (\<lambda>_. elog_error (''role '' @ quoted @ '' cannot be a member of any role''))
      else rbind (is_member_of_role_nosuper cat roleid memberid) (\<lambda>loop.
           if loop
           then rbind (get_rolespec_name cat memberRole) (\<lambda>_. ereport_error ''ERRCODE_INVALID_GRANT_OPERATION''
                  (''role '' @ quoted @ '' is a member of role '' @ quoted))
           else check_members cat roleid rest))"

definition granted_back :: "'a pg_result" where
  "granted_back = ereport_error ''ERRCODE_INVALID_GRANT_OPERATION'' ''%s option cannot be granted back to your own grantor''"

fun plan_members :: "memlist \<Rightarrow> Oid list \<Rightarrow> actions \<Rightarrow> actions fueled" where
  "plan_members memlist [] actions = Some (Inr actions)"
| "plan_members memlist (memberid # rest) actions =
     (if memberid = BOOTSTRAP_SUPERUSERID then Some granted_back
      else fbind (plan_member_revoke memlist memberid actions) (plan_members memlist rest))"

definition check_admin_circularity :: "role_catalog \<Rightarrow> Oid \<Rightarrow> Oid \<Rightarrow> Oid list \<Rightarrow> unit fueled" where
  "check_admin_circularity cat roleid grantorId memberIds =
     (let memlist = AUTHMEMROLEMEM_list cat roleid
      in fbind (plan_members memlist memberIds (initialize_revoke_actions memlist)) (\<lambda>actions.
           if would_still_have_admin memlist actions grantorId then Some (Inr ()) else Some granted_back))"

text \<open>The row with the given role, member and grantor is replaced by its value with new options.\<close>

definition same_grant :: "Oid \<Rightarrow> Oid \<Rightarrow> Oid \<Rightarrow> pg_auth_members_row \<Rightarrow> bool" where
  "same_grant roleid memberid grantorId r \<longleftrightarrow> am_roleid r = roleid \<and> am_member r = memberid \<and> am_grantor r = grantorId"

definition changed_options :: "GrantRoleOptions \<Rightarrow> pg_auth_members_row \<Rightarrow> pg_auth_members_row" where
  "changed_options popt r = r\<lparr>
     admin_option := if specified popt AND GRANT_ROLE_SPECIFIED_ADMIN \<noteq> 0 then opt_admin popt else admin_option r,
     inherit_option := if specified popt AND GRANT_ROLE_SPECIFIED_INHERIT \<noteq> 0 then opt_inherit popt else inherit_option r,
     set_option := if specified popt AND GRANT_ROLE_SPECIFIED_SET \<noteq> 0 then opt_set popt else set_option r\<rparr>"

definition add_member ::
  "role_catalog \<Rightarrow> Oid \<Rightarrow> RoleSpec \<Rightarrow> Oid \<Rightarrow> Oid \<Rightarrow> GrantRoleOptions \<Rightarrow> (role_catalog \<times> role_event list) pg_result" where
  "add_member cat roleid memberRole memberid grantorId popt =
     (case find (same_grant roleid memberid grantorId) (pg_auth_members cat) of
        Some r \<Rightarrow>
          if changed_options popt r = r
          then rbind (get_rolespec_name cat memberRole) (\<lambda>_. rbind (GetUserNameFromId cat grantorId) (\<lambda>_.
                 Inr (cat, [RoleNotice (''role '' @ quoted @ '' has already been granted membership in role '' @ quoted @ '' by role '' @ quoted)])))
          else Inr (cat\<lparr>pg_auth_members := map (\<lambda>x. if same_grant roleid memberid grantorId x then changed_options popt r else x)
                 (pg_auth_members cat)\<rparr>, [])
      | None \<Rightarrow>
          rbind (if specified popt AND GRANT_ROLE_SPECIFIED_INHERIT \<noteq> 0 then Inr (opt_inherit popt)
                 else case AUTHOID_row cat memberid of
                        None \<Rightarrow> elog_error ''cache lookup failed for role %u''
                      | Some mrform \<Rightarrow> Inr (rolinherit mrform)) (\<lambda>inherit.
            Inr (cat\<lparr>pg_auth_members := pg_auth_members cat @
                   [\<lparr>am_roleid = roleid, am_member = memberid, admin_option = opt_admin popt, inherit_option = inherit,
                     set_option = opt_set popt, am_grantor = grantorId\<rparr>]\<rparr>, [])))"

fun add_members ::
  "Oid \<Rightarrow> Oid \<Rightarrow> GrantRoleOptions \<Rightarrow> (RoleSpec \<times> Oid) list \<Rightarrow> role_catalog \<Rightarrow> (role_catalog \<times> role_event list) pg_result" where
  "add_members roleid grantorId popt [] cat = Inr (cat, [])"
| "add_members roleid grantorId popt ((memberRole, memberid) # rest) cat =
     rbind (add_member cat roleid memberRole memberid grantorId popt) (\<lambda>(cat, events).
     rbind (add_members roleid grantorId popt rest cat) (\<lambda>(cat, more). Inr (cat, events @ more)))"

definition AddRoleMems ::
  "role_catalog \<Rightarrow> Oid \<Rightarrow> Oid \<Rightarrow> RoleSpec list \<Rightarrow> Oid list \<Rightarrow> Oid \<Rightarrow> GrantRoleOptions \<Rightarrow> (role_catalog \<times> role_event list) fueled" where
  "AddRoleMems cat currentUserId roleid memberSpecs memberIds grantorId popt =
     fbind (Some (check_role_grantor cat currentUserId roleid grantorId True)) (\<lambda>grantorId.
     fbind (Some (check_members cat roleid (zip memberSpecs memberIds))) (\<lambda>_.
     fbind (if opt_admin popt \<and> grantorId \<noteq> BOOTSTRAP_SUPERUSERID then check_admin_circularity cat roleid grantorId memberIds
            else Some (Inr ())) (\<lambda>_.
       Some (add_members roleid grantorId popt (zip memberSpecs memberIds) cat))))"

section \<open>Removing members\<close>

fun plan_revokes ::
  "role_catalog \<Rightarrow> memlist \<Rightarrow> Oid \<Rightarrow> GrantRoleOptions \<Rightarrow> DropBehavior \<Rightarrow> (RoleSpec \<times> Oid) list \<Rightarrow> actions \<Rightarrow>
   (actions \<times> role_event list) fueled" where
  "plan_revokes cat memlist grantorId popt beh [] actions = Some (Inr (actions, []))"
| "plan_revokes cat memlist grantorId popt beh ((memberRole, memberid) # rest) actions =
     fbind (plan_single_revoke memlist memberid grantorId popt beh actions) (\<lambda>(found, actions).
     fbind (if found then Some (Inr [])
            else Some (rbind (get_rolespec_name cat memberRole) (\<lambda>_. rbind (GetUserNameFromId cat grantorId) (\<lambda>_.
              Inr [RoleWarning (''role '' @ quoted @ '' has not been granted membership in role '' @ quoted @ '' by role '' @ quoted)])))) (\<lambda>ev.
     fbind (plan_revokes cat memlist grantorId popt beh rest actions) (\<lambda>(actions, more). Some (Inr (actions, ev @ more)))))"

text \<open>
  The rows of the catalog while the command runs, each with what the command has act to it. Changing
  a row that the command has already changed is an error.
\<close>

type_synonym tuples = "(pg_auth_members_row \<times> RevokeRoleGrantAction) list"

definition perform_action :: "pg_auth_members_row \<Rightarrow> RevokeRoleGrantAction \<Rightarrow> tuples \<Rightarrow> tuples pg_result" where
  "perform_action form action tups =
     (if action = RRG_NOOP then Inr tups
      else if (form, RRG_NOOP) \<notin> set tups then elog_error ''tuple already updated by self''
      else Inr (map (\<lambda>(r, act). (r, if r = form then action else act)) tups))"

fun perform_actions :: "tuples \<Rightarrow> tuples \<Rightarrow> tuples pg_result" where
  "perform_actions [] tups = Inr tups"
| "perform_actions ((form, action) # rest) tups = rbind (perform_action form action tups) (perform_actions rest)"

text \<open>The row, if any, that the change leaves for the next command.\<close>

fun changed_row :: "pg_auth_members_row \<times> RevokeRoleGrantAction \<Rightarrow> pg_auth_members_row list" where
  "changed_row (form, RRG_NOOP) = [form]"
| "changed_row (form, RRG_DELETE_GRANT) = []"
| "changed_row (form, RRG_REMOVE_ADMIN_OPTION) = [form\<lparr>admin_option := False\<rparr>]"
| "changed_row (form, RRG_REMOVE_INHERIT_OPTION) = [form\<lparr>inherit_option := False\<rparr>]"
| "changed_row (form, RRG_REMOVE_SET_OPTION) = [form\<lparr>set_option := False\<rparr>]"

definition DelRoleMems ::
  "role_catalog \<Rightarrow> Oid \<Rightarrow> Oid \<Rightarrow> RoleSpec list \<Rightarrow> Oid list \<Rightarrow> Oid \<Rightarrow> GrantRoleOptions \<Rightarrow> DropBehavior \<Rightarrow>
   tuples \<Rightarrow> (tuples \<times> role_event list) fueled" where
  "DelRoleMems cat currentUserId roleid memberSpecs memberIds grantorId popt beh tups =
     fbind (Some (check_role_grantor cat currentUserId roleid grantorId False)) (\<lambda>grantorId.
       let memlist = AUTHMEMROLEMEM_list cat roleid
       in fbind (plan_revokes cat memlist grantorId popt beh (zip memberSpecs memberIds) (initialize_revoke_actions memlist))
            (\<lambda>(actions, events). Some (rbind (perform_actions (zip memlist actions) tups) (\<lambda>tups. Inr (tups, events)))))"

section \<open>The statement\<close>

record GrantRoleStmt =
  grs_granted_roles :: "AccessPriv list"
  grs_grantee_roles :: "RoleSpec list"
  grs_is_grant :: bool
  grs_opt :: "(string \<times> string) list"
  grs_grantor :: "RoleSpec option"
  grs_behavior :: DropBehavior

fun roleSpecsToIds :: "role_catalog \<Rightarrow> RoleSpec list \<Rightarrow> Oid list pg_result" where
  "roleSpecsToIds cat [] = Inr []"
| "roleSpecsToIds cat (spec # rest) =
     rbind (get_rolespec_oid cat spec False) (\<lambda>roleid. rbind (roleSpecsToIds cat rest) (\<lambda>ids. Inr (roleid # ids)))"

text \<open>One round of the loop over the granted roles, up to the change of the catalog.\<close>

definition granted_role :: "role_catalog \<Rightarrow> bool \<Rightarrow> AccessPriv \<Rightarrow> Oid pg_result" where
  "granted_role cat isgrant priv =
     (case priv_name priv of
        None \<Rightarrow> ereport_error ''ERRCODE_INVALID_GRANT_OPERATION'' ''column names cannot be included in GRANT/REVOKE ROLE''
      | Some name \<Rightarrow>
          if priv_cols priv \<noteq> []
          then ereport_error ''ERRCODE_INVALID_GRANT_OPERATION'' ''column names cannot be included in GRANT/REVOKE ROLE''
          else rbind (get_role_oid cat name False) (\<lambda>roleid.
               rbind (check_role_membership_authorization cat (CurrentUserId cat) roleid isgrant) (\<lambda>_. Inr roleid)))"

fun grant_roles_loop ::
  "GrantRoleOptions \<Rightarrow> RoleSpec list \<Rightarrow> Oid list \<Rightarrow> Oid \<Rightarrow> AccessPriv list \<Rightarrow> role_catalog \<Rightarrow> (role_catalog \<times> role_event list) fueled" where
  "grant_roles_loop popt specs ids grantor [] cat = Some (Inr (cat, []))"
| "grant_roles_loop popt specs ids grantor (priv # rest) cat =
     fbind (Some (granted_role cat True priv)) (\<lambda>roleid.
     fbind (AddRoleMems cat (CurrentUserId cat) roleid specs ids grantor popt) (\<lambda>(cat, events).
     fbind (grant_roles_loop popt specs ids grantor rest cat) (\<lambda>(cat, more). Some (Inr (cat, events @ more)))))"

fun revoke_roles_loop ::
  "role_catalog \<Rightarrow> GrantRoleOptions \<Rightarrow> DropBehavior \<Rightarrow> RoleSpec list \<Rightarrow> Oid list \<Rightarrow> Oid \<Rightarrow> AccessPriv list \<Rightarrow>
   tuples \<Rightarrow> (tuples \<times> role_event list) fueled" where
  "revoke_roles_loop cat popt beh specs ids grantor [] tups = Some (Inr (tups, []))"
| "revoke_roles_loop cat popt beh specs ids grantor (priv # rest) tups =
     fbind (Some (granted_role cat False priv)) (\<lambda>roleid.
     fbind (DelRoleMems cat (CurrentUserId cat) roleid specs ids grantor popt beh tups) (\<lambda>(tups, events).
     fbind (revoke_roles_loop cat popt beh specs ids grantor rest tups) (\<lambda>(tups, more). Some (Inr (tups, events @ more)))))"

definition GrantRole :: "GrantRoleStmt \<Rightarrow> role_catalog \<Rightarrow> (role_catalog \<times> role_event list) fueled" where
  "GrantRole stmt cat =
     fbind (Some (parse_options (grs_opt stmt) InitGrantRoleOptions)) (\<lambda>popt.
     fbind (Some (case grs_grantor stmt of None \<Rightarrow> Inr InvalidOid | Some spec \<Rightarrow> get_rolespec_oid cat spec False)) (\<lambda>grantor.
     fbind (Some (roleSpecsToIds cat (grs_grantee_roles stmt))) (\<lambda>ids.
       if grs_is_grant stmt
       then grant_roles_loop popt (grs_grantee_roles stmt) ids grantor (grs_granted_roles stmt) cat
       else fbind (revoke_roles_loop cat popt (grs_behavior stmt) (grs_grantee_roles stmt) ids grantor (grs_granted_roles stmt)
                     (map (\<lambda>r. (r, RRG_NOOP)) (pg_auth_members cat)))
                (\<lambda>(tups, events). Some (Inr (cat\<lparr>pg_auth_members := concat (map changed_row tups)\<rparr>, events))))))"

end
