(* ===== verification/RoleGrantSpec.thy ===== *)
theory RoleGrantSpec
  imports RoleGrants
begin

unbundle bit_operations_syntax

text \<open>
  What \<^verbatim>\<open>GRANT\<close> and \<^verbatim>\<open>REVOKE\<close> of roles do to the membership catalog, from the routines of theory \<open>RoleGrants\<close>.
  \<open>plan_ok\<close> is the invariant of the plan of a revocation, \<open>revoked_as\<close> and \<open>granted_to\<close> describe the rows
  after a statement; the memberships stay free of loops, and every grant keeps a grantor that may make it.
\<close>

section \<open>Well-formed catalogs\<close>

text \<open>The unique index of \<^verbatim>\<open>pg_auth_members\<close>, on role, member and grantor.\<close>

definition grant_key :: "pg_auth_members_row \<Rightarrow> Oid \<times> Oid \<times> Oid" where
  "grant_key r = (am_roleid r, am_member r, am_grantor r)"

definition grants_unique :: "role_catalog \<Rightarrow> bool" where
  "grants_unique cat \<longleftrightarrow> distinct (map grant_key (pg_auth_members cat))"

text \<open>Every grant is made by the bootstrap superuser or by a role that holds the admin option.\<close>

definition admin_of :: "pg_auth_members_row list \<Rightarrow> Oid \<Rightarrow> Oid \<Rightarrow> bool" where
  "admin_of rows role m \<longleftrightarrow> (\<exists>r \<in> set rows. am_roleid r = role \<and> am_member r = m \<and> admin_option r)"

definition grants_grounded :: "pg_auth_members_row list \<Rightarrow> bool" where
  "grants_grounded rows \<longleftrightarrow>
     (\<forall>r \<in> set rows. am_grantor r = BOOTSTRAP_SUPERUSERID \<or> admin_of rows (am_roleid r) (am_grantor r))"

definition membership_edges :: "role_catalog \<Rightarrow> (Oid \<times> Oid) set" where
  "membership_edges cat = (\<lambda>r. (am_member r, am_roleid r)) ` set (pg_auth_members cat)"

text \<open>
  A plan after which every grant that is not deleted has a grantor in \<open>X\<close> or one that keeps the admin
  option through a grant the plan leaves alone.
\<close>

definition plan_ok :: "memlist \<Rightarrow> Oid set \<Rightarrow> actions \<Rightarrow> bool" where
  "plan_ok memlist X acts \<longleftrightarrow> length acts = length memlist \<and>
     (\<forall>i < length memlist. acts ! i \<noteq> RRG_DELETE_GRANT \<longrightarrow>
        am_grantor (memlist ! i) \<in> X \<or> would_still_have_admin memlist acts (am_grantor (memlist ! i)))"

text \<open>The plan \<open>acts'\<close> differs from \<open>acts\<close> in deletions only.\<close>

definition deletes_more :: "actions \<Rightarrow> actions \<Rightarrow> bool" where
  "deletes_more acts acts' \<longleftrightarrow> length acts' = length acts \<and>
     (\<forall>i < length acts. acts' ! i = acts ! i \<or> acts' ! i = RRG_DELETE_GRANT)"

definition undeleted :: "actions \<Rightarrow> nat set" where
  "undeleted acts = {i. i < length acts \<and> acts ! i \<noteq> RRG_DELETE_GRANT}"

text \<open>
  Planning ends and keeps the invariant; it deletes the grant (or takes only its admin option), and
  without \<^verbatim>\<open>CASCADE\<close> it touches no other grant.
\<close>

definition planned :: "memlist \<Rightarrow> Oid set \<Rightarrow> DropBehavior \<Rightarrow> bool \<Rightarrow> nat \<Rightarrow> actions \<Rightarrow> actions \<Rightarrow> bool" where
  "planned memlist X beh only i acts a \<longleftrightarrow> plan_ok memlist X a \<and>
     (\<forall>j < length memlist. j \<noteq> i \<longrightarrow> a ! j = acts ! j \<or> beh \<noteq> DROP_RESTRICT \<and> a ! j = RRG_DELETE_GRANT) \<and>
     (if only
      then (a ! i \<in> {acts ! i, RRG_REMOVE_ADMIN_OPTION} \<or> beh \<noteq> DROP_RESTRICT \<and> a ! i = RRG_DELETE_GRANT) \<and>
           (admin_option (memlist ! i) \<longrightarrow> a ! i \<in> {RRG_REMOVE_ADMIN_OPTION, RRG_DELETE_GRANT})
      else a ! i = RRG_DELETE_GRANT)"

definition mark :: "bool \<Rightarrow> RevokeRoleGrantAction" where
  "mark only = (if only then RRG_REMOVE_ADMIN_OPTION else RRG_DELETE_GRANT)"

abbreviation names :: "GrantRoleOptions \<Rightarrow> word32 \<Rightarrow> bool" where
  "names popt flag \<equiv> specified popt AND flag \<noteq> 0"

text \<open>
  What a revocation may do to one grant: \<open>named\<close> says that the statement names the grant. The
  option forms take the option from the named grants; the others may also delete grants
  that depend on them, with \<^verbatim>\<open>CASCADE\<close> only.
\<close>

definition action_fits :: "GrantRoleOptions \<Rightarrow> DropBehavior \<Rightarrow> bool \<Rightarrow> pg_auth_members_row \<Rightarrow> RevokeRoleGrantAction \<Rightarrow> bool" where
  "action_fits popt beh named r a \<longleftrightarrow>
     (if names popt GRANT_ROLE_SPECIFIED_INHERIT then a = (if named then RRG_REMOVE_INHERIT_OPTION else RRG_NOOP)
      else if names popt GRANT_ROLE_SPECIFIED_SET then a = (if named then RRG_REMOVE_SET_OPTION else RRG_NOOP)
      else if names popt GRANT_ROLE_SPECIFIED_ADMIN
      then a = RRG_NOOP \<and> \<not> (named \<and> admin_option r) \<or> a = RRG_REMOVE_ADMIN_OPTION \<and> named \<or>
           a = RRG_DELETE_GRANT \<and> beh \<noteq> DROP_RESTRICT
      else a = RRG_NOOP \<and> \<not> named \<or> a = RRG_DELETE_GRANT \<and> (named \<or> beh \<noteq> DROP_RESTRICT))"

definition plan_fits :: "Oid set \<Rightarrow> GrantRoleOptions \<Rightarrow> DropBehavior \<Rightarrow> Oid \<Rightarrow> Oid set \<Rightarrow> memlist \<Rightarrow> actions \<Rightarrow> bool" where
  "plan_fits X popt beh g M memlist acts \<longleftrightarrow> length acts = length memlist \<and>
     (\<forall>i < length memlist. action_fits popt beh (am_member (memlist ! i) \<in> M \<and> am_grantor (memlist ! i) = g)
        (memlist ! i) (acts ! i)) \<and>
     (names popt GRANT_ROLE_SPECIFIED_INHERIT \<or> names popt GRANT_ROLE_SPECIFIED_SET \<or>
      plan_ok memlist X acts)"

abbreviation one_grantor :: "memlist \<Rightarrow> bool" where
  "one_grantor memlist \<equiv> distinct (map (\<lambda>r. (am_member r, am_grantor r)) memlist)"

abbreviation tuples_of :: "(pg_auth_members_row \<Rightarrow> RevokeRoleGrantAction) \<Rightarrow> pg_auth_members_row list \<Rightarrow> tuples" where
  "tuples_of \<alpha> rows \<equiv> map (\<lambda>r. (r, \<alpha> r)) rows"

text \<open>The actions of a plan laid over those already done.\<close>

definition overlay ::
  "tuples \<Rightarrow> (pg_auth_members_row \<Rightarrow> RevokeRoleGrantAction) \<Rightarrow> pg_auth_members_row \<Rightarrow> RevokeRoleGrantAction" where
  "overlay plan \<alpha> r = (case map_of plan r of Some a \<Rightarrow> if a = RRG_NOOP then \<alpha> r else a | None \<Rightarrow> \<alpha> r)"

text \<open>The plan that a revocation makes for one role, and the actions taken for the roles in \<open>D\<close>.\<close>

definition role_plan ::
  "role_catalog \<Rightarrow> GrantRoleOptions \<Rightarrow> DropBehavior \<Rightarrow> RoleSpec list \<Rightarrow> Oid list \<Rightarrow> Oid \<Rightarrow> Oid \<Rightarrow> (Oid \<times> actions \<times> role_event list) fueled" where
  "role_plan cat popt beh specs ids grantor role =
     fbind (Some (check_role_grantor cat (CurrentUserId cat) role grantor False)) (\<lambda>g.
       fbind (plan_revokes cat (AUTHMEMROLEMEM_list cat role) g popt beh (zip specs ids)
                (initialize_revoke_actions (AUTHMEMROLEMEM_list cat role))) (\<lambda>(acts, ev). Some (Inr (g, acts, ev))))"

definition revoked_in ::
  "role_catalog \<Rightarrow> (Oid \<Rightarrow> (Oid \<times> actions \<times> role_event list) fueled) \<Rightarrow> Oid set \<Rightarrow>
   (pg_auth_members_row \<Rightarrow> RevokeRoleGrantAction) \<Rightarrow> bool" where
  "revoked_in cat plan D \<alpha> \<longleftrightarrow>
     (\<forall>r \<in> set (pg_auth_members cat). am_roleid r \<notin> D \<longrightarrow> \<alpha> r = RRG_NOOP) \<and>
     (\<forall>role \<in> D. \<exists>g acts ev. plan role = Some (Inr (g, acts, ev)) \<and>
        (\<forall>r \<in> set (AUTHMEMROLEMEM_list cat role). map_of (zip (AUTHMEMROLEMEM_list cat role) acts) r = Some (\<alpha> r)))"

abbreviation named_roles :: "role_catalog \<Rightarrow> bool \<Rightarrow> AccessPriv list \<Rightarrow> Oid set" where
  "named_roles cat isgrant privs \<equiv> {role. \<exists>priv \<in> set privs. granted_role cat isgrant priv = Inr role}"

text \<open>The rows that a revocation leaves.\<close>

definition rows_after :: "(pg_auth_members_row \<Rightarrow> RevokeRoleGrantAction) \<Rightarrow> pg_auth_members_row list \<Rightarrow> pg_auth_members_row list" where
  "rows_after \<alpha> rows = concat (map changed_row (tuples_of \<alpha> rows))"

text \<open>The row that a grant leaves for one member: an existing row with the options the statement names, or a new one.\<close>

definition granted_row :: "role_catalog \<Rightarrow> GrantRoleOptions \<Rightarrow> Oid \<Rightarrow> Oid \<Rightarrow> Oid \<Rightarrow> pg_auth_members_row" where
  "granted_row cat popt role g m =
     (case find (same_grant role m g) (pg_auth_members cat) of
        Some r \<Rightarrow> changed_options popt r
      | None \<Rightarrow> \<lparr>am_roleid = role, am_member = m, admin_option = opt_admin popt,
          inherit_option = (if names popt GRANT_ROLE_SPECIFIED_INHERIT then opt_inherit popt
                            else case AUTHOID_row cat m of Some a \<Rightarrow> rolinherit a | None \<Rightarrow> False),
          set_option = opt_set popt, am_grantor = g\<rparr>)"

definition granted_to :: "role_catalog \<Rightarrow> GrantRoleOptions \<Rightarrow> Oid \<Rightarrow> Oid \<Rightarrow> Oid set \<Rightarrow> role_catalog \<Rightarrow> bool" where
  "granted_to cat popt role g M cat' \<longleftrightarrow>
     cat' = cat\<lparr>pg_auth_members := pg_auth_members cat'\<rparr> \<and> grants_unique cat' \<and>
     set (pg_auth_members cat') =
       {r \<in> set (pg_auth_members cat). \<not> (am_roleid r = role \<and> am_member r \<in> M \<and> am_grantor r = g)} \<union>
       granted_row cat popt role g ` M"

text \<open>What one role's part of a grant does.\<close>

definition grant_step ::
  "Oid \<Rightarrow> GrantRoleOptions \<Rightarrow> Oid list \<Rightarrow> Oid \<Rightarrow> role_catalog \<Rightarrow> role_catalog \<Rightarrow> bool" where
  "grant_step grantor popt ids role cat cat' \<longleftrightarrow>
     (\<forall>m \<in> set ids. m \<noteq> ROLE_PG_DATABASE_OWNER \<and> (role, m) \<notin> (membership_edges cat)\<^sup>*) \<and>
     (\<exists>g. check_role_grantor cat (CurrentUserId cat) role grantor True = Inr g \<and> granted_to cat popt role g (set ids) cat')"

abbreviation statement_options :: "GrantRoleStmt \<Rightarrow> GrantRoleOptions pg_result" where
  "statement_options stmt \<equiv> parse_options (grs_opt stmt) InitGrantRoleOptions"

abbreviation named_grantor :: "GrantRoleStmt \<Rightarrow> role_catalog \<Rightarrow> Oid pg_result" where
  "named_grantor stmt cat \<equiv> (case grs_grantor stmt of None \<Rightarrow> Inr InvalidOid | Some spec \<Rightarrow> get_rolespec_oid cat spec False)"

definition person :: "Oid \<Rightarrow> string \<Rightarrow> bool \<Rightarrow> pg_authid_row" where
  "person oid name super = \<lparr>auth_oid = oid, rolname = name, rolsuper = super, rolinherit = True, rolcreaterole = False, rolbypassrls = False\<rparr>"

definition grant_of :: "Oid \<Rightarrow> Oid \<Rightarrow> bool \<Rightarrow> bool \<Rightarrow> Oid \<Rightarrow> pg_auth_members_row" where
  "grant_of role m admin inherit g =
     \<lparr>am_roleid = role, am_member = m, admin_option = admin, inherit_option = inherit, set_option = True, am_grantor = g\<rparr>"

definition club_with :: "pg_auth_members_row list \<Rightarrow> Oid \<Rightarrow> role_catalog" where
  "club_with rows user =
     \<lparr>pg_authid = [person 10 ''postgres'' True, person 201 ''club'' False, person 202 ''ann'' False, person 203 ''bob'' False,
                   person 204 ''staff'' False],
      pg_auth_members = rows, pg_database = [(5, 10)], MyDatabaseId = 5, IsUnderPostmaster = True,
      CurrentUserId = user, SessionUserId = user\<rparr>"

definition club :: "Oid \<Rightarrow> role_catalog" where
  "club = club_with [grant_of 201 202 True True 10, grant_of 201 203 False True 202]"

definition named_role :: "string \<Rightarrow> RoleSpec" where
  "named_role name = \<lparr>roletype = ROLESPEC_CSTRING, rolename = name\<rparr>"

definition club_stmt :: "bool \<Rightarrow> (string \<times> string) list \<Rightarrow> string list \<Rightarrow> DropBehavior \<Rightarrow> GrantRoleStmt" where
  "club_stmt isgrant opts members beh =
     \<lparr>grs_granted_roles = [\<lparr>priv_name = Some ''club'', priv_cols = []\<rparr>], grs_grantee_roles = map named_role members,
      grs_is_grant = isgrant, grs_opt = opts, grs_grantor = None, grs_behavior = beh\<rparr>"

definition stranded :: role_catalog where
  "stranded = club_with [grant_of 201 204 True True 10, grant_of 204 202 False False 10] 202"

text \<open>
  A superuser, and for a role that is not a superuser also a member, direct or not, of a role with the
  admin option.
\<close>

definition may_manage :: "role_catalog \<Rightarrow> Oid \<Rightarrow> bool" where
  "may_manage cat role \<longleftrightarrow> superuser_arg cat (CurrentUserId cat) \<or>
     \<not> superuser_arg cat role \<and> CurrentUserId cat \<noteq> role \<and>
     (\<exists>dba. database_dba cat = Inr dba \<and>
        (\<exists>m \<in> reachable (role_succs cat ROLERECURSE_MEMBERS dba) (CurrentUserId cat). admin_of (pg_auth_members cat) role m))"

text \<open>What a revocation may do to one row of the catalog.\<close>

definition revoked_as ::
  "role_catalog \<Rightarrow> GrantRoleStmt \<Rightarrow> GrantRoleOptions \<Rightarrow> Oid \<Rightarrow> Oid list \<Rightarrow> pg_auth_members_row \<Rightarrow> RevokeRoleGrantAction \<Rightarrow> bool" where
  "revoked_as cat stmt popt grantor ids r a \<longleftrightarrow>
     (if am_roleid r \<in> named_roles cat False (grs_granted_roles stmt)
      then may_manage cat (am_roleid r) \<and>
        (\<exists>g. check_role_grantor cat (CurrentUserId cat) (am_roleid r) grantor False = Inr g \<and>
           action_fits popt (grs_behavior stmt) (am_member r \<in> set ids \<and> am_grantor r = g) r a)
      else a = RRG_NOOP)"

section \<open>Plans\<close>

lemma finite_undeleted [simp]: "finite (undeleted acts)"
  by (simp add: undeleted_def)

lemma card_undeleted: "card (undeleted acts) \<le> length acts"
  using card_mono [of "{..<length acts}" "undeleted acts"] by (auto simp: undeleted_def)

lemma deletes_more_undeleted: "deletes_more acts acts' \<Longrightarrow> undeleted acts' \<subseteq> undeleted acts"
  by (auto simp: deletes_more_def undeleted_def)

lemma undeleted_update:
  "i < length acts \<Longrightarrow> undeleted (acts[i := RRG_DELETE_GRANT]) = undeleted acts - {i}"
  by (auto simp: undeleted_def nth_list_update)

lemma deletes_more_refl [simp]: "deletes_more acts acts"
  by (simp add: deletes_more_def)

lemma deletes_more_trans: "deletes_more a b \<Longrightarrow> deletes_more b c \<Longrightarrow> deletes_more a c"
  unfolding deletes_more_def by metis

lemma deletes_more_deleted:
  "deletes_more a b \<Longrightarrow> i < length a \<Longrightarrow> a ! i = RRG_DELETE_GRANT \<Longrightarrow> b ! i = RRG_DELETE_GRANT"
  by (auto simp: deletes_more_def)

lemma would_still_iff:
  "would_still_have_admin memlist acts m \<longleftrightarrow>
     (\<exists>j < length memlist. am_member (memlist ! j) = m \<and> admin_option (memlist ! j) \<and> acts ! j = RRG_NOOP)"
  by (auto simp: would_still_have_admin_def list_ex_iff)

lemma plan_ok_length: "plan_ok memlist X acts \<Longrightarrow> length acts = length memlist"
  by (simp add: plan_ok_def)

text \<open>Marking one grant exempts its member for the time being.\<close>

lemma plan_ok_mark:
  assumes "plan_ok memlist X acts" and "i < length memlist" and "acts ! i \<noteq> RRG_DELETE_GRANT"
  shows "plan_ok memlist (insert (am_member (memlist ! i)) X) (acts[i := a])"
proof -
  have "would_still_have_admin memlist (acts[i := a]) m"
    if "would_still_have_admin memlist acts m" "m \<noteq> am_member (memlist ! i)" for m
    using that unfolding would_still_iff by (metis nth_list_update_neq)
  then show ?thesis
    using assms unfolding plan_ok_def by (auto simp: nth_list_update split: if_splits)
qed

lemma plan_ok_mark_plain:
  assumes "plan_ok memlist X acts" and "i < length memlist" and "\<not> admin_option (memlist ! i)"
  shows "plan_ok memlist X (acts[i := RRG_DELETE_GRANT])"
proof -
  have "would_still_have_admin memlist (acts[i := RRG_DELETE_GRANT]) m"
    if "would_still_have_admin memlist acts m" for m
    using that assms(3) unfolding would_still_iff by (metis nth_list_update_neq)
  then show ?thesis
    using assms unfolding plan_ok_def by (auto simp: nth_list_update split: if_splits)
qed

lemma plan_ok_discharge:
  assumes "plan_ok memlist (insert m X) acts"
    and "would_still_have_admin memlist acts m \<or>
      (\<forall>i < length memlist. am_grantor (memlist ! i) = m \<longrightarrow> acts ! i = RRG_DELETE_GRANT)"
  shows "plan_ok memlist X acts"
  using assms unfolding plan_ok_def by blast

lemma cascade_loop_returns:
  assumes plan: "\<And>i acts. \<lbrakk>i < length memlist; plan_ok memlist Y acts; deletes_more acts0 acts; acts ! i \<noteq> RRG_DELETE_GRANT\<rbrakk> \<Longrightarrow>
      returns (\<lambda>a. plan_ok memlist Y a \<and> deletes_more acts a \<and> a ! i = RRG_DELETE_GRANT) (plan i acts)"
    and "set is \<subseteq> {..<length memlist}" and "plan_ok memlist Y acts" and "deletes_more acts0 acts"
  shows "returns (\<lambda>a. plan_ok memlist Y a \<and> deletes_more acts a \<and> (beh = DROP_RESTRICT \<longrightarrow> a = acts) \<and>
      (\<forall>i \<in> set is. am_grantor (memlist ! i) = m \<longrightarrow> a ! i = RRG_DELETE_GRANT)) (cascade_loop plan memlist m beh is acts)"
  using assms(2-)
proof (induction "is" arbitrary: acts)
  case (Cons i "is")
  let ?Q = "\<lambda>is acts a. plan_ok memlist Y a \<and> deletes_more acts a \<and> (beh = DROP_RESTRICT \<longrightarrow> a = acts) \<and>
      (\<forall>i \<in> set is. am_grantor (memlist ! i) = m \<longrightarrow> a ! i = RRG_DELETE_GRANT)"
  have i: "i < length memlist" "i < length acts" using Cons.prems by (auto simp: plan_ok_def)
  show ?case
  proof (cases "am_grantor (memlist ! i) = m \<and> acts ! i \<noteq> RRG_DELETE_GRANT")
    case True
    show ?thesis
    proof (cases "beh = DROP_RESTRICT")
      case False
      have "returns (?Q (i # is) acts) (fbind (plan i acts) (cascade_loop plan memlist m beh is))"
      proof (rule returns_fbind [OF plan [OF i(1) Cons.prems(2,3)]])
        show "acts ! i \<noteq> RRG_DELETE_GRANT" using True by blast
      next
        fix b assume b: "plan_ok memlist Y b \<and> deletes_more acts b \<and> b ! i = RRG_DELETE_GRANT"
        then have "i < length b" using i by (simp add: plan_ok_def)
        show "returns (?Q (i # is) acts) (cascade_loop plan memlist m beh is b)"
          by (rule returns_mono [OF Cons.IH [of b]])
            (use Cons.prems b False \<open>i < length b\<close> in \<open>auto intro: deletes_more_trans deletes_more_deleted\<close>)
      qed
      then show ?thesis using True False by simp
    qed (use True in simp)
  next
    case False
    have "returns (?Q (i # is) acts) (cascade_loop plan memlist m beh is acts)"
      by (rule returns_mono [OF Cons.IH [of acts]]) (use Cons.prems False i in \<open>auto intro: deletes_more_deleted\<close>)
    moreover have "cascade_loop plan memlist m beh (i # is) acts = cascade_loop plan memlist m beh is acts"
      using False by auto
    ultimately show ?thesis by (simp only:)
  qed
qed simp

lemma planned_deletes:
  "planned memlist X beh False i acts a \<Longrightarrow> plan_ok memlist Y acts \<Longrightarrow> deletes_more acts a"
  by (force simp: planned_def deletes_more_def plan_ok_def)

lemma card_undeleted_mark:
  assumes "card (undeleted acts) + (if only then 1 else 0) < Suc n" and "i < length acts" and "acts ! i \<noteq> RRG_DELETE_GRANT"
  shows "card (undeleted (acts[i := mark only])) < n"
proof (cases only)
  case True
  then have "undeleted (acts[i := mark only]) = undeleted acts"
    using assms(2,3) by (auto simp: undeleted_def mark_def nth_list_update)
  with True assms(1) show ?thesis by simp
next
  case False
  then have "card (undeleted (acts[i := mark only])) = card (undeleted acts - {i})"
    using undeleted_update [OF assms(2)] by (simp add: mark_def)
  also have "\<dots> < card (undeleted acts)"
    by (rule card_Diff1_less) (use assms in \<open>auto simp: undeleted_def\<close>)
  finally show ?thesis using False assms(1) by simp
qed

text \<open>The loop over the grants of a member that has lost the admin option.\<close>

lemma cascade_planned:
  assumes ok: "plan_ok memlist X acts" and i: "i < length memlist" "acts ! i \<noteq> RRG_DELETE_GRANT" "admin_option (memlist ! i)"
    and less: "card (undeleted (acts[i := mark only])) < n"
    and IH: "\<And>X acts j. \<lbrakk>plan_ok memlist X acts; j < length memlist; card (undeleted acts) < n\<rbrakk> \<Longrightarrow>
        returns (planned memlist X beh False j acts) (plan j acts)"
  shows "returns (planned memlist X beh only i acts)
    (cascade_loop plan memlist (am_member (memlist ! i)) beh [0..<length memlist] (acts[i := mark only]))"
proof -
  let ?m = "am_member (memlist ! i)" and ?a = "acts[i := mark only]"
  show ?thesis
  proof (rule returns_mono [OF cascade_loop_returns [where ?Y = "insert ?m X" and ?acts0.0 = ?a]])
    fix j acts' assume j: "j < length memlist" "plan_ok memlist (insert ?m X) acts'" "deletes_more ?a acts'"
    have "card (undeleted acts') < n"
      using card_mono [OF finite_undeleted deletes_more_undeleted [OF j(3)]] less by simp
    from IH [OF j(2,1) this]
    show "returns (\<lambda>a. plan_ok memlist (insert ?m X) a \<and> deletes_more acts' a \<and> a ! j = RRG_DELETE_GRANT) (plan j acts')"
    proof (rule returns_mono)
      fix a assume p: "planned memlist (insert ?m X) beh False j acts' a"
      from planned_deletes [OF p j(2)] p
      show "plan_ok memlist (insert ?m X) a \<and> deletes_more acts' a \<and> a ! j = RRG_DELETE_GRANT" by (simp add: planned_def)
    qed
  next
    fix a assume a: "plan_ok memlist (insert ?m X) a \<and> deletes_more ?a a \<and> (beh = DROP_RESTRICT \<longrightarrow> a = ?a) \<and>
      (\<forall>k \<in> set [0..<length memlist]. am_grantor (memlist ! k) = ?m \<longrightarrow> a ! k = RRG_DELETE_GRANT)"
    then have "plan_ok memlist X a" using plan_ok_discharge [of memlist ?m X a] by auto
    with a i plan_ok_length [OF ok] show "planned memlist X beh only i acts a"
      by (auto simp: planned_def deletes_more_def mark_def nth_list_update split: if_splits)
  qed (use plan_ok_mark [OF ok i(1,2)] in auto)
qed

lemma plan_recursive_revoke_returns:
  assumes "plan_ok memlist X acts" and "i < length memlist" and "card (undeleted acts) + (if only then 1 else 0) < n"
  shows "returns (planned memlist X beh only i acts) (plan_recursive_revoke n memlist beh only i acts)"
  using assms
proof (induction n arbitrary: X acts i only)
  case (Suc n)
  let ?form = "memlist ! i" and ?a = "acts[i := mark only]"
  have len: "length acts = length memlist" using Suc.prems(1) by (rule plan_ok_length)
  consider (marked) "acts ! i = RRG_DELETE_GRANT \<or> acts ! i = RRG_REMOVE_ADMIN_OPTION \<and> only"
    | (plain) "acts ! i \<noteq> RRG_DELETE_GRANT" "\<not> (acts ! i = RRG_REMOVE_ADMIN_OPTION \<and> only)" "\<not> admin_option ?form"
    | (admin) "acts ! i \<noteq> RRG_DELETE_GRANT" "\<not> (acts ! i = RRG_REMOVE_ADMIN_OPTION \<and> only)" "admin_option ?form"
    by blast
  then show ?case
  proof cases
    case plain
    then show ?thesis
      using Suc.prems len plan_ok_mark_plain [OF Suc.prems(1,2) plain(3)] by (auto simp: planned_def)
  next
    case admin
    show ?thesis
    proof (cases "would_still_have_admin memlist ?a (am_member ?form)")
      case True
      have "planned memlist X beh only i acts ?a"
        using plan_ok_discharge [OF plan_ok_mark [OF Suc.prems(1,2) admin(1)]] True len Suc.prems(2)
        by (simp add: planned_def mark_def)
      with True admin show ?thesis by (auto simp: Let_def mark_def)
    next
      case False
      have "returns (planned memlist X beh only i acts) (cascade_loop (plan_recursive_revoke n memlist beh False) memlist
          (am_member ?form) beh [0..<length memlist] ?a)"
        by (rule cascade_planned [OF Suc.prems(1,2) admin(1,3) card_undeleted_mark [OF Suc.prems(3)]])
          (use len Suc.prems(2) admin(1) Suc.IH in auto)
      with False admin show ?thesis by (auto simp: Let_def mark_def)
    qed
  qed (use Suc.prems(1) in \<open>auto simp: planned_def\<close>)
qed simp

section \<open>Planning a whole revocation\<close>

lemma one_grantorD:
  assumes "one_grantor memlist" and "i < length memlist" and "j < length memlist"
    and "am_member (memlist ! i) = am_member (memlist ! j)" and "am_grantor (memlist ! i) = am_grantor (memlist ! j)"
  shows "i = j"
  using assms nth_eq_iff_index_eq [OF assms(1), of i j] by simp

lemma plan_fuel_enough: "length acts = length memlist \<Longrightarrow> card (undeleted acts) + (if only then 1 else 0) < plan_fuel memlist"
  using card_undeleted [of acts] by (auto simp: plan_fuel_def)

lemma named_elsewhere:
  assumes "one_grantor memlist" and "i < length memlist" and "j < length memlist" and "j \<noteq> i"
  shows "am_member (memlist ! j) \<in> insert (am_member (memlist ! i)) M \<and> am_grantor (memlist ! j) = am_grantor (memlist ! i) \<longleftrightarrow>
    am_member (memlist ! j) \<in> M \<and> am_grantor (memlist ! j) = am_grantor (memlist ! i)"
  using one_grantorD [OF assms(1,3,2)] assms(4) by auto

lemma planned_fits:
  assumes fits: "plan_fits X popt beh (am_grantor (memlist ! i)) M memlist acts" and uniq: "one_grantor memlist"
    and i: "i < length memlist" and "\<not> names popt GRANT_ROLE_SPECIFIED_INHERIT" "\<not> names popt GRANT_ROLE_SPECIFIED_SET"
    and a: "planned memlist X beh (names popt GRANT_ROLE_SPECIFIED_ADMIN) i acts a"
  shows "plan_fits X popt beh (am_grantor (memlist ! i)) (insert (am_member (memlist ! i)) M) memlist a"
proof -
  have "action_fits popt beh (am_member (memlist ! j) \<in> insert (am_member (memlist ! i)) M \<and>
      am_grantor (memlist ! j) = am_grantor (memlist ! i)) (memlist ! j) (a ! j)" if j: "j < length memlist" for j
  proof (cases "j = i")
    case True
    have "action_fits popt beh (am_member (memlist ! i) \<in> M) (memlist ! i) (acts ! i)" using fits i unfolding plan_fits_def by fastforce
    with a True assms(4,5) show ?thesis by (auto simp: planned_def action_fits_def split: if_splits)
  next
    case False
    have "action_fits popt beh (am_member (memlist ! j) \<in> M \<and> am_grantor (memlist ! j) = am_grantor (memlist ! i))
        (memlist ! j) (acts ! j)" using fits j by (simp add: plan_fits_def)
    moreover have "a ! j = acts ! j \<or> beh \<noteq> DROP_RESTRICT \<and> a ! j = RRG_DELETE_GRANT" using a j False by (simp add: planned_def)
    ultimately show ?thesis unfolding named_elsewhere [OF uniq i j False] using assms(4,5) by (auto simp: action_fits_def)
  qed
  with a show ?thesis by (auto simp: plan_fits_def planned_def plan_ok_def)
qed

lemma option_fits:
  assumes fits: "plan_fits X popt beh (am_grantor (memlist ! i)) M memlist acts" and uniq: "one_grantor memlist"
    and i: "i < length memlist" and opt: "names popt GRANT_ROLE_SPECIFIED_INHERIT \<or> names popt GRANT_ROLE_SPECIFIED_SET"
  shows "plan_fits X popt beh (am_grantor (memlist ! i)) (insert (am_member (memlist ! i)) M) memlist
    (acts[i := if names popt GRANT_ROLE_SPECIFIED_INHERIT then RRG_REMOVE_INHERIT_OPTION else RRG_REMOVE_SET_OPTION])"
proof -
  let ?a = "acts[i := if names popt GRANT_ROLE_SPECIFIED_INHERIT then RRG_REMOVE_INHERIT_OPTION else RRG_REMOVE_SET_OPTION]"
  have len: "length acts = length memlist" using fits by (simp add: plan_fits_def)
  have "action_fits popt beh (am_member (memlist ! j) \<in> insert (am_member (memlist ! i)) M \<and>
      am_grantor (memlist ! j) = am_grantor (memlist ! i)) (memlist ! j) (?a ! j)" if j: "j < length memlist" for j
  proof (cases "j = i")
    case True
    with opt i len show ?thesis by (simp add: action_fits_def)
  next
    case False
    then show ?thesis unfolding named_elsewhere [OF uniq i j False] using fits j by (simp add: plan_fits_def)
  qed
  with len opt show ?thesis unfolding plan_fits_def by (auto simp del: insert_iff)
qed

lemma plan_single_revoke_returns:
  assumes fits: "plan_fits X popt beh g M memlist acts" and uniq: "one_grantor memlist"
  shows "returns (\<lambda>(found, a). plan_fits X popt beh g (insert m M) memlist a) (plan_single_revoke memlist m g popt beh acts)"
proof (cases "find_index (\<lambda>form. am_member form = m \<and> am_grantor form = g) memlist")
  case None
  then have "am_member (memlist ! i) \<in> insert m M \<and> am_grantor (memlist ! i) = g \<longleftrightarrow>
      am_member (memlist ! i) \<in> M \<and> am_grantor (memlist ! i) = g" if "i < length memlist" for i
    using that by (auto simp: find_index_None_iff)
  then have "plan_fits X popt beh g (insert m M) memlist acts"
    using fits unfolding plan_fits_def by (simp del: insert_iff)
  with None show ?thesis by (simp add: plan_single_revoke_def)
next
  case (Some i)
  from find_index_Some [OF this] have i: "i < length memlist" "am_member (memlist ! i) = m" "am_grantor (memlist ! i) = g" by auto
  have len: "length acts = length memlist" using fits by (simp add: plan_fits_def)
  show ?thesis
  proof (cases "names popt GRANT_ROLE_SPECIFIED_INHERIT \<or> names popt GRANT_ROLE_SPECIFIED_SET")
    case True
    then have "plan_fits X popt beh g (insert m M) memlist
        (acts[i := if names popt GRANT_ROLE_SPECIFIED_INHERIT then RRG_REMOVE_INHERIT_OPTION else RRG_REMOVE_SET_OPTION])"
      using option_fits [of X popt beh memlist i M acts] fits uniq i by blast
    then show ?thesis using True Some by (auto simp: plan_single_revoke_def split: if_splits)
  next
    case False
    let ?only = "names popt GRANT_ROLE_SPECIFIED_ADMIN"
    have "returns (planned memlist X beh ?only i acts)
        (plan_recursive_revoke (plan_fuel memlist) memlist beh ?only i acts)"
      using fits False i(1) by (intro plan_recursive_revoke_returns plan_fuel_enough len) (auto simp: plan_fits_def)
    then have "returns (plan_fits X popt beh g (insert m M) memlist)
        (plan_recursive_revoke (plan_fuel memlist) memlist beh ?only i acts)"
      by (rule returns_mono) (use planned_fits [of X popt beh memlist i M acts, OF _ uniq i(1)] fits i False in blast)
    then show ?thesis
      using Some False by (auto simp: plan_single_revoke_def intro: returns_fbind)
  qed
qed

lemma plan_revokes_returns:
  assumes "one_grantor memlist" and "plan_fits X popt beh g M memlist acts"
  shows "returns (\<lambda>(a, ev). plan_fits X popt beh g (M \<union> snd ` set mems) memlist a)
    (plan_revokes cat memlist g popt beh mems acts)"
  using assms(2)
proof (induction mems arbitrary: M acts)
  case (Cons sm mems)
  obtain s m where sm: "sm = (s, m)" by force
  show ?case unfolding sm plan_revokes.simps
  proof (rule returns_fbind [OF plan_single_revoke_returns [OF Cons.prems assms(1), of m]], clarify)
    fix found a assume a: "plan_fits X popt beh g (insert m M) memlist a"
    have "returns (\<lambda>(a, ev). plan_fits X popt beh g (insert m M \<union> snd ` set mems) memlist a)
        (plan_revokes cat memlist g popt beh mems a)" by (rule Cons.IH [OF a])
    then have k: "returns (\<lambda>(a, ev). plan_fits X popt beh g (M \<union> snd ` set ((s, m) # mems)) memlist a)
        (fbind (plan_revokes cat memlist g popt beh mems a) (\<lambda>(actions, more). Some (Inr (actions, ev @ more))))" for ev
      by (rule returns_fbind) auto
    show "returns (\<lambda>(a, ev). plan_fits X popt beh g (M \<union> snd ` set ((s, m) # mems)) memlist a)
        (fbind (if found then Some (Inr [])
            else Some (rbind (get_rolespec_name cat s) (\<lambda>_. rbind (GetUserNameFromId cat g) (\<lambda>_.
              Inr [RoleWarning (''role '' @ quoted @ '' has not been granted membership in role '' @ quoted @ '' by role '' @ quoted)])))) (\<lambda>ev.
     fbind (plan_revokes cat memlist g popt beh mems a) (\<lambda>(actions, more). Some (Inr (actions, ev @ more)))))"
      by (cases found) (use k [of "[]"] in simp, simp only: if_False, rule returns_step, rule k)
  qed
qed simp

lemma plan_fits_init: "plan_ok memlist X (initialize_revoke_actions memlist) \<Longrightarrow>
    plan_fits X popt beh g {} memlist (initialize_revoke_actions memlist)"
  by (simp add: plan_fits_def initialize_revoke_actions_def action_fits_def)

text \<open>Planning without a claim about the result, for the circularity check.\<close>

lemma member_revoke_loop_returns:
  "length acts = length memlist \<Longrightarrow> set is \<subseteq> {..<length memlist} \<Longrightarrow>
   returns (\<lambda>a. length a = length memlist) (member_revoke_loop memlist m is acts)"
proof (induction "is" arbitrary: acts)
  case (Cons i "is")
  have "returns (planned memlist UNIV DROP_CASCADE False i acts)
      (plan_recursive_revoke (plan_fuel memlist) memlist DROP_CASCADE False i acts)"
    using Cons.prems by (intro plan_recursive_revoke_returns plan_fuel_enough) (auto simp: plan_ok_def)
  then have "returns (\<lambda>a. length a = length memlist) (fbind (plan_recursive_revoke (plan_fuel memlist) memlist DROP_CASCADE False i acts)
      (member_revoke_loop memlist m is))"
    by (rule returns_fbind) (use Cons in \<open>auto simp: planned_def plan_ok_def\<close>)
  with Cons show ?case by simp
qed simp

lemma plan_members_returns:
  "length acts = length memlist \<Longrightarrow> returns (\<lambda>a. length a = length memlist) (plan_members memlist ids acts)"
proof (induction ids arbitrary: acts)
  case (Cons m ids)
  have "returns (\<lambda>a. length a = length memlist) (plan_member_revoke memlist m acts)"
    unfolding plan_member_revoke_def by (rule member_revoke_loop_returns) (use Cons.prems in auto)
  then have "returns (\<lambda>a. length a = length memlist) (fbind (plan_member_revoke memlist m acts) (plan_members memlist ids))"
    by (rule returns_fbind) (rule Cons.IH)
  then show ?case by (simp add: granted_back_def)
qed simp

lemma check_admin_circularity_returns: "returns (\<lambda>_. True) (check_admin_circularity cat roleid g ids)"
  unfolding check_admin_circularity_def Let_def
  by (rule returns_fbind [OF plan_members_returns]) (simp_all add: initialize_revoke_actions_def granted_back_def)

section \<open>Revoking\<close>

lemma perform_actions_effect:
  "distinct (map fst plan) \<Longrightarrow> perform_actions plan (tuples_of \<alpha> rows) = Inr tups \<Longrightarrow>
   tups = tuples_of (overlay plan \<alpha>) rows \<and> (\<forall>(r, a) \<in> set plan. a \<noteq> RRG_NOOP \<longrightarrow> \<alpha> r = RRG_NOOP)"
proof (induction plan arbitrary: \<alpha>)
  case (Cons fa plan)
  obtain f a where fa: "fa = (f, a)" by force
  show ?case
  proof (cases "a = RRG_NOOP")
    case True
    have "overlay (fa # plan) \<alpha> = overlay plan \<alpha>"
      using Cons.prems(1) fa True by (auto simp: overlay_def fun_eq_iff map_of_eq_None_iff [symmetric] split: option.split)
    with Cons True fa show ?thesis by (simp add: perform_action_def)
  next
    case False
    with Cons.prems(2) fa have "\<alpha> f = RRG_NOOP" and "f \<in> set rows"
      and *: "perform_actions plan (tuples_of (\<alpha>(f := a)) rows) = Inr tups"
      by (auto simp: perform_action_def fun_upd_def comp_def split: if_splits)
    have "map_of plan f = None" using Cons.prems(1) fa by (simp add: map_of_eq_None_iff)
    then have "overlay (fa # plan) \<alpha> = overlay plan (\<alpha>(f := a))"
      using False fa by (auto simp: overlay_def fun_eq_iff split: option.split)
    moreover have "\<alpha> r = RRG_NOOP" if "(r, b) \<in> set plan" "b \<noteq> RRG_NOOP" for r b
      using Cons.IH [OF _ *] Cons.prems(1) fa that by (force split: if_splits)
    ultimately show ?thesis using Cons.IH [OF _ *] Cons.prems(1) fa \<open>\<alpha> f = RRG_NOOP\<close> by (auto simp: fun_upd_def)
  qed
qed (simp add: overlay_def)

lemma set_AUTHMEMROLEMEM_list [simp]:
  "r \<in> set (AUTHMEMROLEMEM_list cat role) \<longleftrightarrow> r \<in> set (pg_auth_members cat) \<and> am_roleid r = role"
  by (auto simp: AUTHMEMROLEMEM_list_def)

lemma memlist_unique:
  assumes "grants_unique cat"
  shows "one_grantor (AUTHMEMROLEMEM_list cat role)" and "distinct (AUTHMEMROLEMEM_list cat role)"
proof -
  show "one_grantor (AUTHMEMROLEMEM_list cat role)"
    using assms unfolding grants_unique_def AUTHMEMROLEMEM_list_def grant_key_def
    by (auto simp: distinct_map inj_on_def)
  then show "distinct (AUTHMEMROLEMEM_list cat role)" by (simp add: distinct_map)
qed

lemma revoked_in_step:
  assumes D: "revoked_in cat plan D \<alpha>" and plan: "plan role = Some (Inr (g, acts, ev))"
    and memlist: "memlist = AUTHMEMROLEMEM_list cat role" "distinct memlist" "length acts = length memlist"
    and free: "\<forall>(r, a) \<in> set (zip memlist acts). a \<noteq> RRG_NOOP \<longrightarrow> \<alpha> r = RRG_NOOP"
  shows "revoked_in cat plan (insert role D) (overlay (zip memlist acts) \<alpha>)"
proof -
  let ?\<beta> = "overlay (zip memlist acts) \<alpha>"
  have keys: "map_of (zip memlist acts) r = None \<longleftrightarrow> r \<notin> set memlist" for r
    using memlist(3) by (simp add: map_of_zip_is_None)
  have other: "?\<beta> r = \<alpha> r" if "r \<notin> set memlist" for r using keys [of r] that by (simp add: overlay_def)
  have own: "map_of (zip memlist acts) r = Some (?\<beta> r)" if r: "r \<in> set memlist" for r
  proof -
    obtain a where a: "map_of (zip memlist acts) r = Some a" using keys [of r] r by auto
    have "\<alpha> r = RRG_NOOP" if "a = RRG_NOOP"
    proof (cases "role \<in> D")
      case True
      with D plan have "map_of (zip memlist acts) r = Some (\<alpha> r)" using r memlist(1) by (fastforce simp: revoked_in_def)
      with a that show ?thesis by simp
    next
      case False
      then show ?thesis using D r memlist(1) by (auto simp: revoked_in_def)
    qed
    with a show ?thesis by (auto simp: overlay_def)
  qed
  show ?thesis unfolding revoked_in_def
  proof (intro conjI ballI impI)
    fix r assume "r \<in> set (pg_auth_members cat)" "am_roleid r \<notin> insert role D"
    then show "?\<beta> r = RRG_NOOP" using D other [of r] memlist(1) by (auto simp: revoked_in_def)
  next
    fix role' assume "role' \<in> insert role D"
    then consider "role' = role" | "role' \<in> D" "role' \<noteq> role" by auto
    then show "\<exists>g acts ev. plan role' = Some (Inr (g, acts, ev)) \<and>
        (\<forall>r \<in> set (AUTHMEMROLEMEM_list cat role'). map_of (zip (AUTHMEMROLEMEM_list cat role') acts) r = Some (?\<beta> r))"
    proof cases
      case 1
      then show ?thesis using plan own memlist(1) by auto
    next
      case 2
      then show ?thesis using D other memlist(1) by (fastforce simp: revoked_in_def)
    qed
  qed
qed

lemma role_grants_grounded:
  "grants_grounded (pg_auth_members cat) \<Longrightarrow>
   plan_ok (AUTHMEMROLEMEM_list cat role) {BOOTSTRAP_SUPERUSERID} (initialize_revoke_actions (AUTHMEMROLEMEM_list cat role))"
  (is "_ \<Longrightarrow> plan_ok ?l _ _")
proof -
  assume g: "grants_grounded (pg_auth_members cat)"
  have "am_grantor (?l ! i) = BOOTSTRAP_SUPERUSERID \<or> (\<exists>j < length ?l. am_member (?l ! j) = am_grantor (?l ! i) \<and> admin_option (?l ! j))"
    if "i < length ?l" for i
  proof -
    have "?l ! i \<in> set ?l" using that by (rule nth_mem)
    with g have "am_grantor (?l ! i) = BOOTSTRAP_SUPERUSERID \<or> (\<exists>r \<in> set ?l. am_member r = am_grantor (?l ! i) \<and> admin_option r)"
      by (auto simp: grants_grounded_def admin_of_def)
    then show ?thesis by (auto simp: in_set_conv_nth)
  qed
  then show ?thesis by (simp add: plan_ok_def would_still_iff initialize_revoke_actions_def cong: conj_cong)
qed

lemma plan_ok_init: "plan_ok memlist UNIV (initialize_revoke_actions memlist)"
  by (simp add: plan_ok_def initialize_revoke_actions_def)

lemma role_plan_returns:
  assumes "grants_unique cat" and "length specs = length ids"
    and "plan_ok (AUTHMEMROLEMEM_list cat role) X (initialize_revoke_actions (AUTHMEMROLEMEM_list cat role))"
  shows "returns (\<lambda>(g, acts, ev). check_role_grantor cat (CurrentUserId cat) role grantor False = Inr g \<and>
      plan_fits X popt beh g (set ids) (AUTHMEMROLEMEM_list cat role) acts) (role_plan cat popt beh specs ids grantor role)"
proof -
  have ids: "snd ` set (zip specs ids) = set ids" using assms(2) by (metis list.set_map map_snd_zip)
  show ?thesis unfolding role_plan_def
  proof (rule returns_step, rule returns_fbind)
    fix g
    show "returns (\<lambda>(a, ev). plan_fits X popt beh g ({} \<union> snd ` set (zip specs ids)) (AUTHMEMROLEMEM_list cat role) a)
        (plan_revokes cat (AUTHMEMROLEMEM_list cat role) g popt beh (zip specs ids) (initialize_revoke_actions (AUTHMEMROLEMEM_list cat role)))"
      by (rule plan_revokes_returns [OF memlist_unique(1) [OF assms(1)] plan_fits_init [OF assms(3)]])
  qed (auto simp: ids)
qed

lemma DelRoleMems_eq:
  "DelRoleMems cat (CurrentUserId cat) role specs ids grantor popt beh tups =
     fbind (role_plan cat popt beh specs ids grantor role) (\<lambda>(g, acts, ev).
       Some (rbind (perform_actions (zip (AUTHMEMROLEMEM_list cat role) acts) tups) (\<lambda>tups. Inr (tups, ev))))"
  by (auto simp: DelRoleMems_def role_plan_def fbind_def Let_def split: option.split sum.split)

lemma DelRoleMems_returns:
  assumes cat: "grants_unique cat" "length specs = length ids"
    and D: "revoked_in cat (role_plan cat popt beh specs ids grantor) D \<alpha>"
  shows "returns (\<lambda>(tups, ev). \<exists>\<beta>. tups = tuples_of \<beta> (pg_auth_members cat) \<and>
      revoked_in cat (role_plan cat popt beh specs ids grantor) (insert role D) \<beta>)
    (DelRoleMems cat (CurrentUserId cat) role specs ids grantor popt beh (tuples_of \<alpha> (pg_auth_members cat)))"
  unfolding DelRoleMems_eq
proof (rule returns_fbind [OF role_plan_returns [OF cat plan_ok_init]], clarify)
  fix g acts ev
  let ?l = "AUTHMEMROLEMEM_list cat role"
  assume plan: "role_plan cat popt beh specs ids grantor role = Some (Inr (g, acts, ev))"
    and "plan_fits UNIV popt beh g (set ids) ?l acts"
  then have len: "length acts = length ?l" by (simp add: plan_fits_def)
  note l = memlist_unique(2) [OF cat(1), of role]
  show "returns (\<lambda>(tups, ev). \<exists>\<beta>. tups = tuples_of \<beta> (pg_auth_members cat) \<and>
      revoked_in cat (role_plan cat popt beh specs ids grantor) (insert role D) \<beta>)
     (Some (rbind (perform_actions (zip ?l acts) (tuples_of \<alpha> (pg_auth_members cat))) (\<lambda>tups. Inr (tups, ev))))"
  proof (cases "perform_actions (zip ?l acts) (tuples_of \<alpha> (pg_auth_members cat))")
    case (Inr tups)
    with perform_actions_effect [of "zip ?l acts" \<alpha> "pg_auth_members cat" tups] l len
      revoked_in_step [OF D plan refl l len]
    show ?thesis by auto
  qed simp
qed

lemma revoke_roles_loop_returns:
  assumes cat: "grants_unique cat" "length specs = length ids"
    and "revoked_in cat (role_plan cat popt beh specs ids grantor) D \<alpha>"
  shows "returns (\<lambda>(tups, ev). \<exists>\<beta>. tups = tuples_of \<beta> (pg_auth_members cat) \<and>
      revoked_in cat (role_plan cat popt beh specs ids grantor) (D \<union> named_roles cat False privs) \<beta>)
    (revoke_roles_loop cat popt beh specs ids grantor privs (tuples_of \<alpha> (pg_auth_members cat)))"
  using assms(3)
proof (induction privs arbitrary: D \<alpha>)
  case (Cons priv privs)
  let ?plan = "role_plan cat popt beh specs ids grantor" and ?rows = "pg_auth_members cat"
  show ?case unfolding revoke_roles_loop.simps
  proof (rule returns_step, rule returns_fbind [OF DelRoleMems_returns [OF cat Cons.prems]], clarify)
    fix role \<beta> ev assume role: "granted_role cat False priv = Inr role" and \<beta>: "revoked_in cat ?plan (insert role D) \<beta>"
    have "insert role D \<union> named_roles cat False privs = D \<union> named_roles cat False (priv # privs)" using role by auto
    with Cons.IH [OF \<beta>] have "returns (\<lambda>(tups, ev). \<exists>\<beta>. tups = tuples_of \<beta> ?rows \<and>
        revoked_in cat ?plan (D \<union> named_roles cat False (priv # privs)) \<beta>)
      (revoke_roles_loop cat popt beh specs ids grantor privs (tuples_of \<beta> ?rows))" by (simp only:)
    then show "returns (\<lambda>(tups, ev). \<exists>\<beta>. tups = tuples_of \<beta> ?rows \<and>
        revoked_in cat ?plan (D \<union> named_roles cat False (priv # privs)) \<beta>)
      (fbind (revoke_roles_loop cat popt beh specs ids grantor privs (tuples_of \<beta> ?rows))
        (\<lambda>(tups, more). Some (Inr (tups, ev @ more))))"
      by (rule returns_fbind) auto
  qed
qed auto

lemma revoked_rows_fit:
  assumes "revoked_in cat (role_plan cat popt beh specs ids grantor) D \<alpha>" and "grants_unique cat" and "length specs = length ids"
    and "r \<in> set (pg_auth_members cat)" and "am_roleid r \<in> D"
    and X: "plan_ok (AUTHMEMROLEMEM_list cat (am_roleid r)) X (initialize_revoke_actions (AUTHMEMROLEMEM_list cat (am_roleid r)))"
  shows "\<exists>g. check_role_grantor cat (CurrentUserId cat) (am_roleid r) grantor False = Inr g \<and>
      plan_fits X popt beh g (set ids) (AUTHMEMROLEMEM_list cat (am_roleid r)) (map \<alpha> (AUTHMEMROLEMEM_list cat (am_roleid r)))"
proof -
  let ?l = "AUTHMEMROLEMEM_list cat (am_roleid r)"
  obtain g acts ev where plan: "role_plan cat popt beh specs ids grantor (am_roleid r) = Some (Inr (g, acts, ev))"
    and acts: "\<forall>q \<in> set ?l. map_of (zip ?l acts) q = Some (\<alpha> q)"
    using assms(1,5) unfolding revoked_in_def by blast
  have fits: "check_role_grantor cat (CurrentUserId cat) (am_roleid r) grantor False = Inr g"
      "plan_fits X popt beh g (set ids) ?l acts"
    using returnsD [OF role_plan_returns [OF assms(2,3) X] plan] by auto
  then have len: "length acts = length ?l" by (simp add: plan_fits_def)
  have "acts ! i = \<alpha> (?l ! i)" if "i < length ?l" for i
    using acts that len map_of_zip_nth [of ?l acts i] memlist_unique(2) [OF assms(2)] by (metis nth_mem option.inject)
  then have "acts = map \<alpha> ?l" using len by (intro nth_equalityI) auto
  with fits show ?thesis by auto
qed

lemma plan_fits_row:
  assumes "plan_fits X popt beh g M memlist (map \<alpha> memlist)" and "r \<in> set memlist"
  shows "action_fits popt beh (am_member r \<in> M \<and> am_grantor r = g) r (\<alpha> r)"
    and "names popt GRANT_ROLE_SPECIFIED_INHERIT \<or> names popt GRANT_ROLE_SPECIFIED_SET \<or> \<alpha> r = RRG_DELETE_GRANT \<or>
      am_grantor r \<in> X \<or> (\<exists>q \<in> set memlist. am_member q = am_grantor r \<and> admin_option q \<and> \<alpha> q = RRG_NOOP)"
proof -
  obtain i where i: "i < length memlist" "r = memlist ! i" using assms(2) by (auto simp: in_set_conv_nth)
  show "action_fits popt beh (am_member r \<in> M \<and> am_grantor r = g) r (\<alpha> r)"
    using assms(1) i by (auto simp: plan_fits_def)
  show "names popt GRANT_ROLE_SPECIFIED_INHERIT \<or> names popt GRANT_ROLE_SPECIFIED_SET \<or> \<alpha> r = RRG_DELETE_GRANT \<or>
      am_grantor r \<in> X \<or> (\<exists>q \<in> set memlist. am_member q = am_grantor r \<and> admin_option q \<and> \<alpha> q = RRG_NOOP)"
    using assms(1) i unfolding plan_fits_def plan_ok_def would_still_iff by (metis nth_map nth_mem)
qed

lemma changed_row_key: "q \<in> set (changed_row (r, a)) \<Longrightarrow> grant_key q = grant_key r \<and> a \<noteq> RRG_DELETE_GRANT"
  by (cases a) (auto simp: grant_key_def)

lemma changed_row_admin:
  "a \<notin> {RRG_DELETE_GRANT, RRG_REMOVE_ADMIN_OPTION} \<Longrightarrow> admin_option r \<Longrightarrow>
   \<exists>q \<in> set (changed_row (r, a)). grant_key q = grant_key r \<and> admin_option q"
  by (cases a) (auto simp: grant_key_def)

lemma set_rows_after: "q \<in> set (rows_after \<alpha> rows) \<longleftrightarrow> (\<exists>r \<in> set rows. q \<in> set (changed_row (r, \<alpha> r)))"
  by (auto simp: rows_after_def)

lemma rows_after_unique: "distinct (map grant_key rows) \<Longrightarrow> distinct (map grant_key (rows_after \<alpha> rows))"
proof (induction rows)
  case (Cons r rows)
  have rest: "grant_key ` set (rows_after \<alpha> rows) \<subseteq> grant_key ` set rows"
    using changed_row_key by (fastforce simp: set_rows_after)
  have head: "distinct (map grant_key (changed_row (r, a)))" "grant_key ` set (changed_row (r, a)) \<subseteq> {grant_key r}" for a
    by (cases a; auto simp: grant_key_def)+
  have "grant_key ` set (changed_row (r, \<alpha> r)) \<inter> grant_key ` set (rows_after \<alpha> rows) = {}"
  proof -
    have "grant_key r \<notin> grant_key ` set rows" using Cons.prems by simp
    moreover have "A \<inter> B = {}" if "B \<subseteq> C" "A \<subseteq> {k}" "k \<notin> C" for A B C and k :: "Oid \<times> Oid \<times> Oid"
      using that by blast
    ultimately show ?thesis using rest head(2) by metis
  qed
  moreover have "rows_after \<alpha> (r # rows) = changed_row (r, \<alpha> r) @ rows_after \<alpha> rows" by (simp add: rows_after_def)
  ultimately show ?case using head(1) Cons by simp
qed (simp add: rows_after_def)

lemma admin_of_after:
  assumes "q \<in> set rows" and "admin_option q" and "\<alpha> q \<notin> {RRG_DELETE_GRANT, RRG_REMOVE_ADMIN_OPTION}"
  shows "admin_of (rows_after \<alpha> rows) (am_roleid q) (am_member q)"
proof -
  obtain s where "s \<in> set (changed_row (q, \<alpha> q))" "grant_key s = grant_key q" "admin_option s"
    using changed_row_admin [OF assms(3,2)] by blast
  then show ?thesis using assms(1) unfolding admin_of_def by (intro bexI [of _ s]) (auto simp: set_rows_after grant_key_def)
qed

lemma revoked_grounded:
  assumes rev: "revoked_in cat (role_plan cat popt beh specs ids grantor) D \<alpha>" and cat: "grants_unique cat" "length specs = length ids"
    and gr: "grants_grounded (pg_auth_members cat)"
  shows "grants_grounded (rows_after \<alpha> (pg_auth_members cat))"
  unfolding grants_grounded_def
proof
  fix q assume "q \<in> set (rows_after \<alpha> (pg_auth_members cat))"
  then obtain r where r: "r \<in> set (pg_auth_members cat)" "q \<in> set (changed_row (r, \<alpha> r))" by (auto simp: set_rows_after)
  then have q: "am_roleid q = am_roleid r" "am_grantor q = am_grantor r" "\<alpha> r \<noteq> RRG_DELETE_GRANT"
    using changed_row_key [OF r(2)] by (auto simp: grant_key_def)
  let ?l = "AUTHMEMROLEMEM_list cat (am_roleid r)"
  have "am_grantor r = BOOTSTRAP_SUPERUSERID \<or> (\<exists>s \<in> set ?l. am_member s = am_grantor r \<and> admin_option s \<and>
      \<alpha> s \<notin> {RRG_DELETE_GRANT, RRG_REMOVE_ADMIN_OPTION})"
  proof (cases "am_roleid r \<in> D")
    case True
    from revoked_rows_fit [OF rev cat r(1) True role_grants_grounded [OF gr]] obtain g where
      fits: "plan_fits {BOOTSTRAP_SUPERUSERID} popt beh g (set ids) ?l (map \<alpha> ?l)" by blast
    have "\<alpha> s \<notin> {RRG_DELETE_GRANT, RRG_REMOVE_ADMIN_OPTION}"
      if "names popt GRANT_ROLE_SPECIFIED_INHERIT \<or> names popt GRANT_ROLE_SPECIFIED_SET" "s \<in> set ?l" for s
      using plan_fits_row(1) [OF fits that(2)] that(1) by (auto simp: action_fits_def split: if_splits)
    moreover have "am_grantor r = BOOTSTRAP_SUPERUSERID \<or> (\<exists>s \<in> set ?l. am_member s = am_grantor r \<and> admin_option s)"
      using gr r(1) by (auto simp: grants_grounded_def admin_of_def)
    ultimately show ?thesis using plan_fits_row(2) [OF fits, of r] q(3) r(1) by auto
  next
    case False
    then have "\<alpha> s = RRG_NOOP" if "s \<in> set ?l" for s using that rev by (auto simp: revoked_in_def)
    then show ?thesis using gr r(1) by (auto simp: grants_grounded_def admin_of_def)
  qed
  then show "am_grantor q = BOOTSTRAP_SUPERUSERID \<or> admin_of (rows_after \<alpha> (pg_auth_members cat)) (am_roleid q) (am_grantor q)"
    using admin_of_after [of _ "pg_auth_members cat" \<alpha>] q(1,2) by (metis set_AUTHMEMROLEMEM_list)
qed

section \<open>Granting\<close>

lemma option_eqI: "(\<And>r. x = Some r \<longleftrightarrow> y = Some r) \<Longrightarrow> x = y"
  by (cases y) (auto simp: not_Some_eq [symmetric] simp del: not_Some_eq)

lemma same_grant_key: "same_grant role m g r \<longleftrightarrow> grant_key r = (role, m, g)"
  by (simp add: same_grant_def grant_key_def)

lemma grant_keyD: "grants_unique cat \<Longrightarrow> r \<in> set (pg_auth_members cat) \<Longrightarrow> q \<in> set (pg_auth_members cat) \<Longrightarrow>
    grant_key r = grant_key q \<Longrightarrow> r = q"
  unfolding grants_unique_def by (metis distinct_map inj_on_def)

lemma find_grant:
  assumes "grants_unique cat"
  shows "find (same_grant role m g) (pg_auth_members cat) = Some r \<longleftrightarrow>
    r \<in> set (pg_auth_members cat) \<and> grant_key r = (role, m, g)"
proof
  assume "find (same_grant role m g) (pg_auth_members cat) = Some r"
  then show "r \<in> set (pg_auth_members cat) \<and> grant_key r = (role, m, g)"
    by (auto simp: find_Some_iff same_grant_key)
next
  assume r: "r \<in> set (pg_auth_members cat) \<and> grant_key r = (role, m, g)"
  then obtain q where q: "find (same_grant role m g) (pg_auth_members cat) = Some q"
    by (cases "find (same_grant role m g) (pg_auth_members cat)") (auto simp: find_None_iff same_grant_key)
  then have "q \<in> set (pg_auth_members cat)" "grant_key q = (role, m, g)" by (auto simp: find_Some_iff same_grant_key)
  with r q grant_keyD [OF assms, of q r] show "find (same_grant role m g) (pg_auth_members cat) = Some r" by simp
qed

lemma changed_options_key [simp]: "grant_key (changed_options popt r) = grant_key r"
  by (simp add: changed_options_def grant_key_def)

lemma changed_options_idem [simp]: "changed_options popt (changed_options popt r) = changed_options popt r"
  by (simp add: changed_options_def)

lemma granted_row_key [simp]: "grant_key (granted_row cat popt role g m) = (role, m, g)"
  by (auto simp: granted_row_def find_Some_iff same_grant_key grant_key_def changed_options_def split: option.split)

lemma granted_row_fields [simp]:
  "am_roleid (granted_row cat popt role g m) = role" "am_member (granted_row cat popt role g m) = m"
  "am_grantor (granted_row cat popt role g m) = g"
  using granted_row_key [of cat popt role g m] by (simp_all add: grant_key_def)

lemma granted_row_stable [simp]: "changed_options popt (granted_row cat popt role g m) = granted_row cat popt role g m"
  by (simp add: granted_row_def changed_options_def split: option.split)

lemma add_member_effect:
  assumes uniq: "grants_unique cat" and add: "add_member cat role spec m g popt = Inr (cat', ev)"
  shows "granted_to cat popt role g {m} cat'"
proof (cases "find (same_grant role m g) (pg_auth_members cat)")
  case (Some r)
  then have r: "r \<in> set (pg_auth_members cat)" "grant_key r = (role, m, g)" using find_grant [OF uniq] by auto
  have row: "granted_row cat popt role g m = changed_options popt r" using Some by (simp add: granted_row_def)
  have only: "same_grant role m g q \<longleftrightarrow> q = r" if "q \<in> set (pg_auth_members cat)" for q
    using grant_keyD [OF uniq that r(1)] r(2) by (auto simp: same_grant_key)
  then have keep: "set (pg_auth_members cat) - {r} =
      {q \<in> set (pg_auth_members cat). \<not> (am_roleid q = role \<and> am_member q \<in> {m} \<and> am_grantor q = g)}"
    by (auto simp: same_grant_def)
  show ?thesis
  proof (cases "changed_options popt r = r")
    case True
    then have "cat' = cat" using add Some by (auto simp: add_member_def result_iff)
    with True keep r(1) row uniq show ?thesis by (auto simp: granted_to_def)
  next
    case False
    let ?rows = "map (\<lambda>x. if same_grant role m g x then changed_options popt r else x) (pg_auth_members cat)"
    have cat': "cat' = cat\<lparr>pg_auth_members := ?rows\<rparr>" using add Some False by (simp add: add_member_def)
    have "map grant_key ?rows = map grant_key (pg_auth_members cat)" using r(2) by (auto simp: same_grant_key)
    then have "distinct (map grant_key ?rows)" using uniq by (simp only: grants_unique_def)
    moreover have "set ?rows = (set (pg_auth_members cat) - {r}) \<union> {changed_options popt r}"
      using only r(1) by (auto simp: image_iff)
    ultimately show ?thesis by (simp add: granted_to_def cat' grants_unique_def keep row)
  qed
next
  case None
  then have none: "grant_key q \<noteq> (role, m, g)" if "q \<in> set (pg_auth_members cat)" for q
    using that by (auto simp: find_None_iff same_grant_key)
  then have keep: "set (pg_auth_members cat) =
      {q \<in> set (pg_auth_members cat). \<not> (am_roleid q = role \<and> am_member q \<in> {m} \<and> am_grantor q = g)}"
    by (auto simp: grant_key_def)
  have cat': "cat' = cat\<lparr>pg_auth_members := pg_auth_members cat @ [granted_row cat popt role g m]\<rparr>"
    using add None by (auto simp: add_member_def granted_row_def result_iff split: if_splits option.splits)
  have "(role, m, g) \<notin> grant_key ` set (pg_auth_members cat)" using none by (metis imageE)
  then show ?thesis using uniq keep by (auto simp: granted_to_def cat' grants_unique_def)
qed

lemma granted_to_row:
  assumes "granted_to cat popt role g M cat'" and "grants_unique cat"
  shows "granted_row cat' popt role g m = granted_row cat popt role g m"
proof (cases "m \<in> M")
  case True
  with assms(1) have "granted_row cat popt role g m \<in> set (pg_auth_members cat')" by (auto simp: granted_to_def)
  moreover have "grants_unique cat'" using assms(1) by (simp add: granted_to_def)
  ultimately have "find (same_grant role m g) (pg_auth_members cat') = Some (granted_row cat popt role g m)"
    by (simp add: find_grant)
  then show ?thesis by (subst granted_row_def) simp
next
  case False
  have rows: "set (pg_auth_members cat') = {r \<in> set (pg_auth_members cat).
      \<not> (am_roleid r = role \<and> am_member r \<in> M \<and> am_grantor r = g)} \<union> granted_row cat popt role g ` M"
    using assms(1) by (simp add: granted_to_def)
  have "am_member r \<in> M" if "r \<in> granted_row cat popt role g ` M" for r using that by auto
  then have "r \<in> set (pg_auth_members cat') \<and> grant_key r = (role, m, g) \<longleftrightarrow>
      r \<in> set (pg_auth_members cat) \<and> grant_key r = (role, m, g)" for r
    unfolding rows grant_key_def prod.inject using False by blast
  then have "find (same_grant role m g) (pg_auth_members cat') = find (same_grant role m g) (pg_auth_members cat)"
    by (intro option_eqI) (use assms in \<open>simp add: granted_to_def find_grant del: Un_iff\<close>)
  moreover have "cat' = cat\<lparr>pg_auth_members := pg_auth_members cat'\<rparr>" using assms(1) by (simp add: granted_to_def)
  from arg_cong [OF this, of pg_authid] have "AUTHOID_row cat' m = AUTHOID_row cat m" by (simp add: AUTHOID_row_def)
  ultimately show ?thesis by (simp only: granted_row_def)
qed

lemma granted_to_Un:
  assumes "granted_to cat popt role g M cat'" and "granted_to cat' popt role g N cat''" and "grants_unique cat"
  shows "granted_to cat popt role g (M \<union> N) cat''"
proof -
  have rows: "set (pg_auth_members cat'') = {r \<in> set (pg_auth_members cat'). \<not> (am_roleid r = role \<and> am_member r \<in> N \<and> am_grantor r = g)} \<union>
      granted_row cat popt role g ` N"
    using assms(2) granted_to_row [OF assms(1,3)] by (simp add: granted_to_def)
  have "set (pg_auth_members cat'') = {r \<in> set (pg_auth_members cat). \<not> (am_roleid r = role \<and> am_member r \<in> M \<union> N \<and> am_grantor r = g)} \<union>
      granted_row cat popt role g ` (M \<union> N)"
    unfolding rows using assms(1) unfolding granted_to_def by auto
  moreover have "c = a\<lparr>pg_auth_members := pg_auth_members c\<rparr>"
    if "b = a\<lparr>pg_auth_members := pg_auth_members b\<rparr>" "c = b\<lparr>pg_auth_members := pg_auth_members c\<rparr>" for a b c :: role_catalog
    using that by (cases a, cases b, cases c) simp
  then have "cat'' = cat\<lparr>pg_auth_members := pg_auth_members cat''\<rparr>"
    using assms(1,2) unfolding granted_to_def by blast
  ultimately show ?thesis using assms(2) by (simp add: granted_to_def)
qed

lemma add_members_effect:
  "grants_unique cat \<Longrightarrow> add_members role g popt mems cat = Inr (cat', ev) \<Longrightarrow> granted_to cat popt role g (snd ` set mems) cat'"
proof (induction mems arbitrary: cat ev)
  case (Cons sm mems)
  obtain s m where sm: "sm = (s, m)" by force
  from Cons.prems(2) obtain cat1 ev1 ev2 where one: "add_member cat role s m g popt = Inr (cat1, ev1)"
    and rest: "add_members role g popt mems cat1 = Inr (cat', ev2)"
    by (auto simp: sm result_iff split: prod.splits)
  from add_member_effect [OF Cons.prems(1) one] have 1: "granted_to cat popt role g {m} cat1" .
  then have "grants_unique cat1" by (simp add: granted_to_def)
  from granted_to_Un [OF 1 Cons.IH [OF this rest] Cons.prems(1)] show ?case by (simp add: sm)
qed (simp add: granted_to_def)

section \<open>The checks of a grant\<close>

lemma best_admin_holds:
  "select_best_admin cat m role = Inr g \<Longrightarrow> OidIsValid g \<Longrightarrow> holds_admin cat role g"
  using roles_is_member_of_cases [of cat m ROLERECURSE_PRIVS role]
  by (auto simp: select_best_admin_def OidIsValid_def split: if_splits dest!: first_admin_spec)

lemma grantor_holds:
  assumes "check_role_grantor cat user role grantor True = Inr g"
  shows "g = BOOTSTRAP_SUPERUSERID \<or> admin_of (pg_auth_members cat) role g"
proof -
  have "g = BOOTSTRAP_SUPERUSERID \<or> holds_admin cat role g"
    using assms best_admin_holds by (auto simp: check_role_grantor_def result_iff split: if_splits)
  then show ?thesis by (auto simp: holds_admin_def admin_of_def)
qed

lemma membership_reachable:
  assumes "(a, b) \<in> (membership_edges cat)\<^sup>*"
  shows "b \<in> reachable (role_succs cat ROLERECURSE_MEMBERS dba) a"
  using assms
proof (induction rule: rtrancl_induct)
  case (step y z)
  then have "z \<in> set (role_succs cat ROLERECURSE_MEMBERS dba y)"
    by (force simp: membership_edges_def role_succs_def AUTHMEMMEMROLE_def)
  with step.IH show ?case by (rule reachable_step)
qed simp

lemma not_member_unreachable:
  assumes "is_member_of_role_nosuper cat role m = Inr False"
  shows "(role, m) \<notin> (membership_edges cat)\<^sup>*"
  using assms roles_is_member_of_cases [of cat role ROLERECURSE_MEMBERS InvalidOid] membership_reachable [of role m cat]
  by (auto simp: is_member_of_role_nosuper_def split: if_splits)

lemma check_members_unreachable:
  "check_members cat role mems = Inr () \<Longrightarrow>
   \<forall>m \<in> snd ` set mems. m \<noteq> ROLE_PG_DATABASE_OWNER \<and> (role, m) \<notin> (membership_edges cat)\<^sup>*"
  by (induction mems) (fastforce simp: result_iff not_member_unreachable split: if_splits)+

lemma acyclic_new_edges:
  assumes "finite M" and "acyclic E" and "\<forall>m \<in> M. (role, m) \<notin> E\<^sup>*"
  shows "acyclic (E \<union> M \<times> {role})"
proof -
  have returning: "(role, x) \<in> E\<^sup>*" if "(role, x) \<in> (E \<union> N \<times> {role})\<^sup>*" for x N
    using that by (induction rule: rtrancl_induct) (auto intro: rtrancl_into_rtrancl)
  show ?thesis
    using assms
  proof (induction M)
    case (insert m M)
    have "E \<union> insert m M \<times> {role} = insert (m, role) (E \<union> M \<times> {role})" by auto
    with insert returning [of m M] show ?case by (auto simp: acyclic_insert)
  qed simp
qed

lemma snd_zip_image: "length xs = length ys \<Longrightarrow> snd ` set (zip xs ys) = set ys"
  by (metis list.set_map map_snd_zip)

lemma AddRoleMems_returns:
  assumes "grants_unique cat" and len: "length specs = length ids"
  shows "returns (\<lambda>(cat', ev). grant_step grantor popt ids role cat cat')
    (AddRoleMems cat (CurrentUserId cat) role specs ids grantor popt)"
  unfolding AddRoleMems_def
proof (rule returns_step, rule returns_step, rule returns_fbind)
  fix g u
  show "returns (\<lambda>_. True) (if opt_admin popt \<and> g \<noteq> BOOTSTRAP_SUPERUSERID then check_admin_circularity cat role g ids else Some (Inr ()))"
    by (simp add: check_admin_circularity_returns)
next
  fix g u v
  assume g: "check_role_grantor cat (CurrentUserId cat) role grantor True = Inr g"
    and members: "check_members cat role (zip specs ids) = Inr u"
  have "grant_step grantor popt ids role cat cat'" if "add_members role g popt (zip specs ids) cat = Inr (cat', ev)" for cat' ev
    unfolding grant_step_def
    using g add_members_effect [OF assms(1) that] check_members_unreachable [of cat role "zip specs ids"] members
    by (simp add: snd_zip_image [OF len])
  then show "returns (\<lambda>(cat', ev). grant_step grantor popt ids role cat cat') (Some (add_members role g popt (zip specs ids) cat))"
    by (cases "add_members role g popt (zip specs ids) cat") auto
qed

lemma granted_to_edges:
  assumes "granted_to cat popt role g M cat'"
  shows "membership_edges cat' = membership_edges cat \<union> M \<times> {role}"
proof -
  have rows: "set (pg_auth_members cat') = {r \<in> set (pg_auth_members cat). \<not> (am_roleid r = role \<and> am_member r \<in> M \<and> am_grantor r = g)} \<union>
      granted_row cat popt role g ` M" using assms by (simp add: granted_to_def)
  have new: "(\<lambda>r. (am_member r, am_roleid r)) ` granted_row cat popt role g ` M = M \<times> {role}" by (force simp: image_iff)
  show ?thesis unfolding membership_edges_def rows image_Un new by auto
qed

lemma granted_to_grounded:
  assumes "granted_to cat popt role g M cat'" and "grants_unique cat" and "grants_grounded (pg_auth_members cat)"
    and admin: "opt_admin popt \<or> \<not> names popt GRANT_ROLE_SPECIFIED_ADMIN"
    and g: "g = BOOTSTRAP_SUPERUSERID \<or> admin_of (pg_auth_members cat) role g"
  shows "grants_grounded (pg_auth_members cat')"
proof -
  have rows: "set (pg_auth_members cat') = {r \<in> set (pg_auth_members cat). \<not> (am_roleid r = role \<and> am_member r \<in> M \<and> am_grantor r = g)} \<union>
      granted_row cat popt role g ` M" using assms(1) by (simp add: granted_to_def)
  have keeps: "admin_option (granted_row cat popt role g m)"
    if "r \<in> set (pg_auth_members cat)" "grant_key r = (role, m, g)" "admin_option r" for r m
    using that admin find_grant [OF assms(2), of role m g r] by (auto simp: granted_row_def changed_options_def)
  have stays: "admin_of (pg_auth_members cat') role' m" if adm: "admin_of (pg_auth_members cat) role' m" for role' m
  proof -
    from adm obtain r where r: "r \<in> set (pg_auth_members cat)" "am_roleid r = role'" "am_member r = m" "admin_option r"
      by (auto simp: admin_of_def)
    show ?thesis
    proof (cases "role' = role \<and> m \<in> M \<and> am_grantor r = g")
      case True
      with keeps [of r m] r have "admin_option (granted_row cat popt role g m)" by (simp add: grant_key_def)
      then show ?thesis using True unfolding admin_of_def rows by (intro bexI [of _ "granted_row cat popt role g m"]) auto
    qed (use r in \<open>auto simp: admin_of_def rows\<close>)
  qed
  show ?thesis unfolding grants_grounded_def
  proof
    fix r assume "r \<in> set (pg_auth_members cat')"
    then have "r \<in> set (pg_auth_members cat) \<or> am_roleid r = role \<and> am_grantor r = g" by (auto simp: rows)
    then show "am_grantor r = BOOTSTRAP_SUPERUSERID \<or> admin_of (pg_auth_members cat') (am_roleid r) (am_grantor r)"
      using assms(3) g stays unfolding grants_grounded_def by blast
  qed
qed

section \<open>Whole statements\<close>

lemma grant_roles_loop_keeps:
  assumes step: "\<And>cat cat' role. \<lbrakk>I cat; grants_unique cat; grant_step grantor popt ids role cat cat'\<rbrakk> \<Longrightarrow> I cat'"
    and "length specs = length ids" and "I cat" and "grants_unique cat"
  shows "returns (\<lambda>(cat', ev). grants_unique cat' \<and> I cat') (grant_roles_loop popt specs ids grantor privs cat)"
  using assms(3,4)
proof (induction privs arbitrary: cat)
  case (Cons priv privs)
  show ?case unfolding grant_roles_loop.simps
  proof (rule returns_step, rule returns_fbind [OF AddRoleMems_returns [OF Cons.prems(2) assms(2)]], clarify)
    fix role cat1 ev assume s: "grant_step grantor popt ids role cat cat1"
    then have "grants_unique cat1" by (auto simp: grant_step_def granted_to_def)
    from Cons.IH [OF step [OF Cons.prems s] this]
    show "returns (\<lambda>(cat', ev). grants_unique cat' \<and> I cat')
        (fbind (grant_roles_loop popt specs ids grantor privs cat1) (\<lambda>(cat, more). Some (Inr (cat, ev @ more))))"
      by (rule returns_fbind) auto
  qed
qed simp

lemma roleSpecsToIds_length: "roleSpecsToIds cat specs = Inr ids \<Longrightarrow> length specs = length ids"
  by (induction specs arbitrary: ids) (auto simp: result_iff)

text \<open>A revocation, with the actions it takes.\<close>

lemma GrantRole_revokes:
  assumes "grants_unique cat" and "\<not> grs_is_grant stmt"
  shows "returns (\<lambda>(cat', ev). \<exists>popt grantor ids \<alpha>. statement_options stmt = Inr popt \<and> named_grantor stmt cat = Inr grantor \<and>
      roleSpecsToIds cat (grs_grantee_roles stmt) = Inr ids \<and> cat' = cat\<lparr>pg_auth_members := rows_after \<alpha> (pg_auth_members cat)\<rparr> \<and>
      revoked_in cat (role_plan cat popt (grs_behavior stmt) (grs_grantee_roles stmt) ids grantor)
        (named_roles cat False (grs_granted_roles stmt)) \<alpha>) (GrantRole stmt cat)"
proof -
  have "revoked_in cat plan {} (\<lambda>_. RRG_NOOP)" for plan by (simp add: revoked_in_def)
  note loop = revoke_roles_loop_returns [OF assms(1) roleSpecsToIds_length this]
  show ?thesis unfolding GrantRole_def
    by (simp only: assms(2) if_False, intro returns_step, rule returns_fbind [OF loop]) (auto simp: rows_after_def)
qed

lemma GrantRole_grants:
  assumes step: "\<And>popt grantor ids cat cat' role. \<lbrakk>I cat; grants_unique cat; statement_options stmt = Inr popt; grant_step grantor popt ids role cat cat'\<rbrakk> \<Longrightarrow> I cat'"
    and "grants_unique cat" and "grs_is_grant stmt" and "I cat"
  shows "returns (\<lambda>(cat', ev). grants_unique cat' \<and> I cat') (GrantRole stmt cat)"
  unfolding GrantRole_def
  by (simp only: assms(3) if_True, intro returns_step grant_roles_loop_keeps) (use assms in \<open>auto dest: roleSpecsToIds_length\<close>)

section \<open>Who may change a role's members\<close>

lemma is_admin_may_manage:
  assumes "is_admin_of_role cat (CurrentUserId cat) role = Inr True" and "\<not> superuser_arg cat role"
  shows "may_manage cat role"
proof (cases "superuser_arg cat (CurrentUserId cat)")
  case False
  with assms(1) have ne: "CurrentUserId cat \<noteq> role" by (auto simp: is_admin_of_role_def)
  obtain dba where dba: "database_dba cat = Inr dba"
    using assms(1) False ne by (auto simp: is_admin_of_role_def roles_is_member_of_def result_iff)
  with admin_tests_spec [OF dba ne] assms False ne show ?thesis
    by (auto simp: may_manage_def holds_admin_def admin_of_def)
qed (simp add: may_manage_def)

lemma granted_role_authorized:
  assumes "granted_role cat isgrant priv = Inr role"
  shows "may_manage cat role" and "isgrant \<Longrightarrow> role \<noteq> ROLE_PG_DATABASE_OWNER"
  using assms is_admin_may_manage [of cat role]
  by (auto simp: granted_role_def check_role_membership_authorization_def may_manage_def Let_def result_iff
      split: option.splits if_splits)

lemma club_ready:
  "grants_unique (club user)" "grants_grounded (pg_auth_members (club user))" "acyclic (membership_edges (club user))"
proof -
  show "grants_unique (club user)" "grants_grounded (pg_auth_members (club user))"
    by (simp_all add: grants_unique_def grants_grounded_def admin_of_def club_def club_with_def grant_of_def grant_key_def
        BOOTSTRAP_SUPERUSERID_def)
  have "membership_edges (club user) = {(202, 201), (203, 201)}"
    by (auto simp: membership_edges_def club_def club_with_def grant_of_def)
  then show "acyclic (membership_edges (club user))" by (intro acyclicI_order [of _ "\<lambda>x. x"]) auto
qed

section \<open>Properties\<close>

text \<open>
  C11. Every \<^verbatim>\<open>GRANT\<close> and \<^verbatim>\<open>REVOKE\<close> of roles ends, and keeps the memberships free of loops: if no role is
  a member of itself, directly or through other roles, this still holds afterwards, for statements with any
  number of roles and members, also repeated ones.
\<close>

theorem membership_stays_acyclic:
  assumes "grants_unique cat" and "acyclic (membership_edges cat)"
  shows "returns (\<lambda>(cat', ev). grants_unique cat' \<and> acyclic (membership_edges cat')) (GrantRole stmt cat)"
proof (cases "grs_is_grant stmt")
  case True
  show ?thesis
  proof (rule GrantRole_grants [where I = "\<lambda>cat. acyclic (membership_edges cat)", OF _ assms(1) True assms(2)])
    fix popt grantor ids cat cat' role
    assume "acyclic (membership_edges cat)" "grant_step grantor popt ids role cat cat'"
    then show "acyclic (membership_edges cat')"
      using acyclic_new_edges [of "set ids" "membership_edges cat" role] by (auto simp: grant_step_def granted_to_edges)
  qed
next
  case False
  show ?thesis
  proof (rule returns_mono [OF GrantRole_revokes [OF assms(1) False]], clarify)
    fix \<alpha> :: "pg_auth_members_row \<Rightarrow> RevokeRoleGrantAction"
    let ?cat = "cat\<lparr>pg_auth_members := rows_after \<alpha> (pg_auth_members cat)\<rparr>"
    have "membership_edges ?cat \<subseteq> membership_edges cat"
      using changed_row_key by (fastforce simp: membership_edges_def set_rows_after grant_key_def)
    then show "grants_unique ?cat \<and> acyclic (membership_edges ?cat)"
      using assms acyclic_subset rows_after_unique by (auto simp: grants_unique_def)
  qed
qed

theorem membership_stays_acyclic_witness:
  "returns (\<lambda>(cat', ev). grants_unique cat' \<and> acyclic (membership_edges cat'))
     (GrantRole (club_stmt True [(''admin'', ''on'')] [''staff''] DROP_RESTRICT) (club 202)) \<and>
   GrantRole (club_stmt True [(''admin'', ''on'')] [''staff''] DROP_RESTRICT) (club 202) = Some (Inr
     (club_with [grant_of 201 202 True True 10, grant_of 201 203 False True 202, grant_of 201 204 True True 202] 202, []))"
proof
  show "returns (\<lambda>(cat', ev). grants_unique cat' \<and> acyclic (membership_edges cat'))
     (GrantRole (club_stmt True [(''admin'', ''on'')] [''staff''] DROP_RESTRICT) (club 202))"
    by (rule membership_stays_acyclic) (rule club_ready)+
qed code_simp

text \<open>
  C10. Every membership is granted by the bootstrap superuser or by a role that holds the admin option on the
  role. A revocation keeps this, whatever it removes and whether it cascades or not; a grant keeps it unless
  it names the admin option with a false value.
\<close>

theorem role_grants_stay_grounded:
  assumes "grants_unique cat" and "grants_grounded (pg_auth_members cat)"
    and "grs_is_grant stmt \<longrightarrow> (\<forall>popt. statement_options stmt = Inr popt \<longrightarrow>
      opt_admin popt \<or> specified popt AND GRANT_ROLE_SPECIFIED_ADMIN = 0)"
  shows "returns (\<lambda>(cat', ev). grants_unique cat' \<and> grants_grounded (pg_auth_members cat')) (GrantRole stmt cat)"
proof (cases "grs_is_grant stmt")
  case True
  show ?thesis
  proof (rule GrantRole_grants [where I = "\<lambda>cat. grants_grounded (pg_auth_members cat)", OF _ assms(1) True assms(2)])
    fix popt grantor ids cat cat' role
    assume I: "grants_grounded (pg_auth_members cat)" "grants_unique cat" "grant_step grantor popt ids role cat cat'"
      "statement_options stmt = Inr popt"
    obtain g where g: "check_role_grantor cat (CurrentUserId cat) role grantor True = Inr g"
      and to: "granted_to cat popt role g (set ids) cat'" using I(3) unfolding grant_step_def by blast
    show "grants_grounded (pg_auth_members cat')"
      by (rule granted_to_grounded [OF to I(2,1) _ grantor_holds [OF g]]) (use assms(3) True I(4) in auto)
  qed
next
  case False
  show ?thesis
    by (rule returns_mono [OF GrantRole_revokes [OF assms(1) False]])
      (use assms revoked_grounded rows_after_unique roleSpecsToIds_length in \<open>auto simp: grants_unique_def\<close>)
qed

theorem role_grants_stay_grounded_witness:
  "returns (\<lambda>(cat', ev). grants_unique cat' \<and> grants_grounded (pg_auth_members cat'))
     (GrantRole (club_stmt False [] [''ann''] DROP_CASCADE) (club 10)) \<and>
   GrantRole (club_stmt False [] [''ann''] DROP_CASCADE) (club 10) = Some (Inr (club_with [] 10, []))"
proof
  show "returns (\<lambda>(cat', ev). grants_unique cat' \<and> grants_grounded (pg_auth_members cat'))
     (GrantRole (club_stmt False [] [''ann''] DROP_CASCADE) (club 10))"
    by (rule role_grants_stay_grounded) (rule club_ready, rule club_ready, simp add: club_stmt_def)
qed code_simp







end
