(* ===== verification/Spec2Isabelle.thy ===== *)
theory Spec2Isabelle
  imports Backend PolicyGen GrantSpec RoleGrantSpec
begin

text \<open>
  \<^bold>\<open>An attribute-based access layer for a database server\<close>

  The repository is PostgreSQL 16 (development version, \<^verbatim>\<open>src/postgres\<close>) with a check in front of simple queries:
  \<^verbatim>\<open>PostgresMain\<close> derives an action and a resource from the query text and asks the Java program \<^verbatim>\<open>src/abacml\<close>, which
  asks the Balana engine with a XACML policy. Around it are two generators of test policies
  (\<^verbatim>\<open>src/generate_policy.c\<close>, \<^verbatim>\<open>src/generate_rule.c\<close>) and a benchmark (\<^verbatim>\<open>src/benchmark\<close>) that compares the layer with
  other engines on a generated corpus. This library models the path of a request through the server, the
  policies and the benchmark's inputs, and the privilege system behind the layer: roles, access control
  lists, the commands that change them and the check that the executor makes.

  \<^bold>\<open>How the parts work together.\<close> Bytes from the client are buffered (\<open>Pqcomm\<close>), collected in string buffers
  (\<open>Stringinfo\<close>) and read as protocol messages (\<open>Pqformat\<close>); the command loop (\<open>Backend\<close>) dispatches them. For a simple
  query it computes the arguments of the check and calls the Java method (\<open>Abac\<close>), whose answer comes from a
  policy (\<open>Policy\<close>). A query that runs is checked by the executor (\<open>RelPerms\<close>) against the privileges of the relations
  (\<open>ObjectAcl\<close>), which come from access control lists (\<open>Acl\<close>) and role memberships (\<open>Roles\<close>). The commands that change
  them are \<open>GRANT\<close> and \<open>REVOKE\<close> on objects (\<open>Grants\<close>, over \<open>AclUpdate\<close>) and on roles (\<open>RoleGrants\<close>).

  \<^bold>\<open>Theories, sources and what is shown\<close> (paths of C files are below \<^verbatim>\<open>src/postgres/src\<close>)

  \<^item> \<open>Prelude\<close>: results that may be errors, budgets of steps, facts on words and lists.
  \<^item> \<open>Search\<close>: the breadth-first search of \<^verbatim>\<open>roles_is_member_of\<close>, as a contract (locale \<open>breadth_first\<close>) between the loop and
    its users.
  \<^item> \<open>Bitutils\<close>, \<open>Bitmapset\<close>: \<^verbatim>\<open>include/port/pg_bitutils.h\<close>, \<^verbatim>\<open>port/pg_bitutils.c\<close> and \<^verbatim>\<open>backend/nodes/bitmapset.c\<close>. A set is the list
    of its words; every routine refines the set operation it is named after and keeps the representation
    well-formed.
  \<^item> \<open>Stringinfo\<close>: \<^verbatim>\<open>common/stringinfo.c\<close>. Appending adds exactly the bytes or reports the size limit; no overflow, no
    write outside the buffer.
  \<^item> \<open>Pqformat\<close>, \<open>Pqcomm\<close>: \<^verbatim>\<open>backend/libpq/pqformat.c\<close> and the input half of \<^verbatim>\<open>pqcomm.c\<close>. Sending and reading are inverse,
    reading stays inside the message, and the buffered reads follow the stream of the client's bytes.
  \<^item> \<open>Abac\<close>: \<^verbatim>\<open>ABACML.java\<close> and the hook in \<^verbatim>\<open>backend/tcop/postgres.c\<close>. Which action and resource a query is checked for,
    that only the fourth word counts, and that the copy of the query overflows its buffer.
  \<^item> \<open>Backend\<close>: \<^verbatim>\<open>SocketBackend\<close> and the loop of \<^verbatim>\<open>PostgresMain\<close> as a step relation over traces of calls. No simple query
    runs without a check that permitted it, extended queries run unchecked, errors are followed by
    recovery and skipping to Sync.
  \<^item> \<open>Policy\<close>: the XACML 3.0 and 2.0 and Casbin policies of the repository with the evaluation rules of their
    languages. The reference policies agree where their attributes are present; the differences that the
    theorems name are in the files.
  \<^item> \<open>Corpus\<close>: \<^verbatim>\<open>generate-corpus.py\<close>, \<^verbatim>\<open>MiddleLayerCorpusRunner.java\<close> and \<^verbatim>\<open>CasbinCorpusRunner.cpp\<close>. Scenarios survive
    writing and reading, decoys change no decision, the canonical corpus passes.
  \<^item> \<open>PolicyGen\<close>: \<^verbatim>\<open>generate_policy.c\<close> and \<^verbatim>\<open>generate_rule.c\<close>. The texts fit their arrays; what the generated policies decide.
  \<^item> \<open>Roles\<close>: \<^verbatim>\<open>backend/utils/adt/acl.c\<close> (membership), \<^verbatim>\<open>superuser.c\<close>. The search finds the reachable roles, nearest first,
    and the caches never change an answer.
  \<^item> \<open>Acl\<close>, \<open>AclUpdate\<close>: \<^verbatim>\<open>acl.c\<close> (lists). Which rights the mask routines return, which grantor is chosen, what an update
    does to every pair of grantee and grantor, that it ends, and that cascading leaves no dangling grant.
  \<^item> \<open>ObjectAcl\<close>: the mask and check routines of \<^verbatim>\<open>backend/catalog/aclchk.c\<close>. The rights on every kind of object, with the
    rules for superusers, system catalogs and predefined roles.
  \<^item> \<open>RelPerms\<close>: \<^verbatim>\<open>ExecCheckPermissions\<close> of \<^verbatim>\<open>backend/executor/execMain.c\<close>. Which queries pass.
  \<^item> \<open>Grants\<close>, \<open>GrantSpec\<close>: \<^verbatim>\<open>ExecuteGrantStmt\<close> and what it calls in \<^verbatim>\<open>aclchk.c\<close>. Statements return and keep the catalogs
    well-formed; rights come only from roles with grant options; a grant of the owner gives access and a
    revocation takes it away.
  \<^item> \<open>RoleGrants\<close>, \<open>RoleGrantSpec\<close>: \<^verbatim>\<open>GrantRole\<close> and what it calls in \<^verbatim>\<open>backend/commands/user.c\<close>, \<^verbatim>\<open>backend/utils/adt/bool.c\<close>. Statements return;
    memberships stay free of loops and every grant keeps a grantor that may make it, but for a grant \<^verbatim>\<open>WITH ADMIN FALSE\<close>;
    who may grant and revoke, and which rows change.
  \<^item> This theory: the command loop with the Java check and the policy of the repository.

  \<^bold>\<open>Conventions.\<close> A C routine is a function on the state it reads; what it changes is returned. \<^verbatim>\<open>ereport(ERROR)\<close> and \<^verbatim>\<open>elog(ERROR)\<close>
  are the left side of a sum, with the error code and the format string of the message. Undefined
  behaviour of C is an error value of its own (\<open>c_undefined\<close>), so a theorem about results excludes it. Machine
  integers are words where they can wrap. Loops are recursive functions; the loops of \<open>aclupdate\<close>, of the buffered
  reads, of the planning of role revocations and of the sets have a budget of steps and return \<open>None\<close> when it is used up, and theorems say which budget
  is always enough: one step more than the rights in the list and in the change for \<open>aclupdate\<close> (each step of the
  cascade removes a right), the length of the input for the reads,
  two steps more than the grants of the role for the planning (each step marks one more grant as deleted), the number of bits for the sets. The
  membership search and the grant commands use such budgets themselves (\<open>update_fuel\<close>), so they are total.

  \<^bold>\<open>Interfaces.\<close> Where several routines share a contract it is a locale, interpreted on the routines of the model:
  \<open>int_set\<close> (bitmap sets), \<open>breadth_first\<close> (membership search), \<open>deletion\<close>, \<open>deletion_total\<close> and \<open>cascade\<close> (\<open>aclupdate\<close>),
  \<open>appender\<close> (string buffers), \<open>reader\<close> and \<open>wire_field\<close> (messages), \<open>segments\<close> (the loop), \<open>object_operation\<close> (grant commands).

  \<^bold>\<open>Parameters.\<close> Code outside the repository and code of the repository that is not modelled appear as arguments:
  the Java virtual machine and the Balana and Casbin engines (with the policy language as a named
  hypothesis), \<^verbatim>\<open>malloc\<close>, the random numbers of the corpus, character set conversion, the outcomes of reading from
  the socket, the answers and failures of the routines that the loop calls, the lookup of object names.

  \<^bold>\<open>Not modelled.\<close> The parser, planner, executor (but for its permission check), storage, transactions,
  replication and utilities of PostgreSQL: nothing in the repository changes them, and the properties above
  do not depend on what a query does once it runs. Of the modelled files: output to the socket and
  connection setup in \<^verbatim>\<open>pqcomm.c\<close>; signals, timeouts, statistics and memory contexts in \<^verbatim>\<open>postgres.c\<close>; \<^verbatim>\<open>ALTER DEFAULT
  PRIVILEGES\<close>, privileges of extensions, event triggers and shared dependencies in \<^verbatim>\<open>aclchk.c\<close>; \<^verbatim>\<open>CREATE\<close>, \<^verbatim>\<open>ALTER\<close> and
  \<^verbatim>\<open>DROP ROLE\<close> in \<^verbatim>\<open>user.c\<close>; the SQL functions
  \<^verbatim>\<open>has_*_privilege\<close> and the text form of lists in \<^verbatim>\<open>acl.c\<close>. Of the benchmark: timing, concurrency, result files
  and the scripts that start processes, which have no behaviour that a function could capture, and the
  SunXACML runner, whose library is not in the repository. Assertions are compiled out of production builds.
\<close>

section \<open>The command loop with the repository's policy\<close>

text \<open>
  The method the loop calls is the Java method, on the strings that \<^verbatim>\<open>NewStringUTF\<close> makes of the three arguments.
  The Java virtual machine makes them, so the function is a parameter.
\<close>

definition uses_java :: "backend_env \<Rightarrow> (byte list \<Rightarrow> string) \<Rightarrow> balana \<Rightarrow> bool" where
  "uses_java env NewStringUTF b \<longleftrightarrow>
     (\<forall>tr u a r. CallStaticBooleanMethod (jni_now env tr) u a r =
        Check_ABAC_Permission b (NewStringUTF u) (NewStringUTF a) (NewStringUTF r))"

text \<open>
  An engine with a policy answers by the standard wherever the request is well formed, which it is when the
  names it is made of hold no markup (\<open>createXACMLRequest\<close> does not escape them).
\<close>

definition tag_free :: "string \<Rightarrow> bool" where
  "tag_free s \<longleftrightarrow> CHR ''<'' \<notin> set s \<and> CHR ''&'' \<notin> set s"

definition engine_has_policy :: "balana \<Rightarrow> xpolicy \<Rightarrow> bool" where
  "engine_has_policy b p \<longleftrightarrow>
     (\<forall>nm action uri. tag_free nm \<and> tag_free action \<and> tag_free uri \<longrightarrow>
        (\<exists>keep. answers b keep p (createXACMLRequest nm action uri) (check_attributes nm action uri)))"

text \<open>An engine with the policy, which finds the name behind the fixed beginning of the request.\<close>

definition name_engine :: balana where
  "name_engine =
     \<lparr>pdp_evaluate = (\<lambda>request. takeWhile (\<lambda>c. c \<noteq> CHR ''<'')
        (drop (length (request_open @ attributes_open subject_category @ attribute_open subject_id ''string'')) request)),
      response_of = (\<lambda>nm. Results [if nm = ''ubuntu'' then DECISION_PERMIT else DECISION_NOT_APPLICABLE])\<rparr>"

definition java_string :: "byte list \<Rightarrow> string" where
  "java_string bs = map (\<lambda>b. char_of (unat b)) bs"

definition name_env :: backend_env where
  "name_env =
     (example_env (\<lambda>u a r. Check_ABAC_Permission name_engine (java_string u) (java_string a) (java_string r) = Some True))
       \<lparr>username := ascii ''ubuntu''\<rparr>"

lemma name_engine_name:
  assumes "CHR ''<'' \<notin> set nm"
  shows "pdp_evaluate name_engine (createXACMLRequest nm action uri) = nm"
proof -
  obtain rest where close: "attribute_close = CHR ''<'' # rest" by (simp add: attribute_close_def)
  have "pdp_evaluate name_engine (createXACMLRequest nm action uri) =
      takeWhile (\<lambda>c. c \<noteq> CHR ''<'') (nm @ attribute_close @ attributes_close @
        attributes_open action_category @ attribute_open action_id ''string'' @ action @ attribute_close @ attributes_close @
        attributes_open resource_category @ attribute_open resource_id ''string'' @ uri @ attribute_close @ attributes_close @
        request_close)"
    by (simp add: name_engine_def createXACMLRequest_def)
  also have "\<dots> = nm"
    unfolding close append_Cons by (rule takeWhile_until(1)) (use assms in auto)
  finally show ?thesis .
qed

lemma name_engine_policy: "engine_has_policy name_engine abacmlpolicy"
proof -
  have "answers name_engine False abacmlpolicy (createXACMLRequest nm action uri) (check_attributes nm action uri)"
    if "tag_free nm" for nm action uri
    using that by (simp add: answers_def abacmlpolicy_decision name_engine_name tag_free_def) (simp add: name_engine_def)
  then show ?thesis unfolding engine_has_policy_def by blast
qed

lemma name_env_java: "uses_java name_env java_string name_engine"
proof -
  have "\<exists>d. Check_ABAC_Permission name_engine u a r = Some d" for u a r
    by (simp add: Check_ABAC_Permission_def name_engine_def)
  then show ?thesis
    by (auto simp: uses_java_def name_env_def example_env_def) (metis (full_types))
qed

lemma name_env_user: "java_string (username name_env) = ''ubuntu''"
  by (simp add: name_env_def) code_simp

lemma name_env_arguments:
  obtains action uri where
    "abac_arguments (usable name_env) (dbname name_env) (ascii ''SELECT mark FROM scores;'') = Inr (action, uri)"
    and "tag_free (java_string uri)" and "tag_free (java_string action)"
proof -
  let ?r = "abac_arguments (\<lambda>n. n + 16) (ascii ''lms'') (ascii ''SELECT mark FROM scores;'')"
  have "case ?r of Inl _ \<Rightarrow> False | Inr (action, uri) \<Rightarrow> tag_free (java_string uri) \<and> tag_free (java_string action)" by code_simp
  then obtain action uri where "?r = Inr (action, uri)" "tag_free (java_string uri)" "tag_free (java_string action)"
    by (auto split: sum.splits prod.splits)
  then show ?thesis by (intro that [of action uri]) (simp_all add: name_env_def example_env_def)
qed

lemma name_env_answers: "CallStaticBooleanMethod (jni_now name_env tr) (username name_env) action uri = Some True"
  using name_env_java name_env_user
  by (simp add: uses_java_def Check_ABAC_Permission_def name_engine_name) (simp add: name_engine_def)



end
